theory Spec2Isabelle
  imports Complex_Main
begin

section \<open>Strings and characters\<close>

text \<open>
  Source strings are modelled as HOL strings; a character stands for the code point
  of the same number, so the model covers Python strings over the code points 0..255.
  The character classes of \<^verbatim>\<open>re\<close> (\<^verbatim>\<open>\s\<close>, \<^verbatim>\<open>\w\<close>, \<^verbatim>\<open>\d\<close>) and
  \<^verbatim>\<open>str.strip\<close>, \<^verbatim>\<open>str.lower\<close> are the ones Python uses for \<^verbatim>\<open>str\<close> on that range.
\<close>

abbreviation NL :: char where "NL \<equiv> CHR 0x0A"
abbreviation CR :: char where "CR \<equiv> CHR 0x0D"
abbreviation TAB :: char where "TAB \<equiv> CHR 0x09"
abbreviation FF :: char where "FF \<equiv> CHR 0x0C"
abbreviation SPC :: char where "SPC \<equiv> CHR 0x20"
abbreviation DQ :: char where "DQ \<equiv> CHR 0x22"
abbreviation SQ :: char where "SQ \<equiv> CHR 0x27"
abbreviation BS :: char where "BS \<equiv> CHR 0x5C"

definition in_range :: "char \<Rightarrow> char \<Rightarrow> char \<Rightarrow> bool" where
  "in_range lo hi c = ((of_char lo :: nat) \<le> of_char c \<and> (of_char c :: nat) \<le> of_char hi)"

definition is_space :: "char \<Rightarrow> bool" where
  "is_space c = (in_range (CHR 0x09) (CHR 0x0D) c \<or> in_range (CHR 0x1C) (CHR 0x20) c
                  \<or> c = CHR 0x85 \<or> c = CHR 0xA0)"

definition is_digit :: "char \<Rightarrow> bool" where
  "is_digit c = in_range CHR ''0'' CHR ''9'' c"

definition is_word :: "char \<Rightarrow> bool" where
  "is_word c = (in_range CHR ''a'' CHR ''z'' c \<or> in_range CHR ''A'' CHR ''Z'' c \<or> is_digit c
                 \<or> c = CHR ''_''
                 \<or> c = CHR 0xAA \<or> c = CHR 0xB2 \<or> c = CHR 0xB3 \<or> c = CHR 0xB5
                 \<or> c = CHR 0xB9 \<or> c = CHR 0xBA \<or> in_range (CHR 0xBC) (CHR 0xBE) c
                 \<or> in_range (CHR 0xC0) (CHR 0xD6) c \<or> in_range (CHR 0xD8) (CHR 0xF6) c
                 \<or> in_range (CHR 0xF8) (CHR 0xFF) c)"

section \<open>Regular expressions: the backtracking matcher of \<^verbatim>\<open>re\<close>\<close>

text \<open>
  The program is written as a table of regular expressions. Each pattern of the source
  is transcribed as a term of \<open>regex\<close>, and \<open>ms\<close> gives it the meaning of Python's
  backtracking matcher: the list of all ways to match, in the order in which the matcher
  tries them, so that the head of the list is the match \<^verbatim>\<open>re\<close> returns.
\<close>

datatype citem = C char | Rg char char | Sp | Wd | Dg

datatype regex =
    Chr char
  | Dot
  | Set "citem list"
  | NSet "citem list"
  | Bol
  | Eol
  | EolM
  | WordB
  | Cat regex regex
  | Alt regex regex
  | Rep regex nat "nat option" bool
  | Grp nat regex
  | Bref nat
  | Look regex
  | NLook regex

text \<open>
  \<open>Set\<close> and \<open>NSet\<close> are \<^verbatim>\<open>[...]\<close> and \<^verbatim>\<open>[^...]\<close>; \<open>NSet []\<close> is \<^verbatim>\<open>[\s\S]\<close>, any
  character. \<open>Dot\<close> is \<^verbatim>\<open>.\<close> (no flag DOTALL is used). \<open>Bol\<close> is \<^verbatim>\<open>^\<close> and \<open>Eol\<close> is \<^verbatim>\<open>$\<close>
  without MULTILINE, \<open>EolM\<close> is \<^verbatim>\<open>$\<close> under MULTILINE. \<open>Rep r lo hi greedy\<close> is
  \<^verbatim>\<open>r{lo,hi}\<close>, with \<open>hi = None\<close> for no upper bound, greedy or lazy. \<open>Grp n r\<close> is the
  n-th capturing group, \<open>Bref n\<close> the backreference \<^verbatim>\<open>\n\<close>, \<open>Look\<close> and \<open>NLook\<close> are
  \<^verbatim>\<open>(?=r)\<close> and \<^verbatim>\<open>(?!r)\<close>.
\<close>

abbreviation Star :: "regex \<Rightarrow> regex" where "Star r \<equiv> Rep r 0 None True"
abbreviation Plus :: "regex \<Rightarrow> regex" where "Plus r \<equiv> Rep r 1 None True"
abbreviation Opt :: "regex \<Rightarrow> regex" where "Opt r \<equiv> Rep r 0 (Some 1) True"
abbreviation LStar :: "regex \<Rightarrow> regex" where "LStar r \<equiv> Rep r 0 None False"
abbreviation LPlus :: "regex \<Rightarrow> regex" where "LPlus r \<equiv> Rep r 1 None False"
abbreviation AnyCh :: regex where "AnyCh \<equiv> NSet []"
abbreviation Empty :: regex where "Empty \<equiv> Rep Dot 0 (Some 0) True"

fun seq :: "regex list \<Rightarrow> regex" where
  "seq [] = Empty"
| "seq [r] = r"
| "seq (r # rs) = Cat r (seq rs)"

fun alts :: "regex list \<Rightarrow> regex" where
  "alts [] = NLook Empty"
| "alts [r] = r"
| "alts (r # rs) = Alt r (alts rs)"

definition lit :: "string \<Rightarrow> regex" where
  "lit s = seq (map Chr s)"

record mstate =
  seen :: string
  rest :: string
  groups :: "(nat \<times> string) list"

text \<open>
  A matcher state: the text already consumed (reversed, for \<^verbatim>\<open>^\<close> and \<^verbatim>\<open>\b\<close>), the
  text still ahead, and the groups closed so far (the latest binding of a group first).
\<close>

fun citem_ok :: "citem \<Rightarrow> char \<Rightarrow> bool" where
  "citem_ok (C x) c = (c = x)"
| "citem_ok (Rg lo hi) c = in_range lo hi c"
| "citem_ok Sp c = is_space c"
| "citem_ok Wd c = is_word c"
| "citem_ok Dg c = is_digit c"

definition in_set :: "citem list \<Rightarrow> char \<Rightarrow> bool" where
  "in_set is c = list_ex (\<lambda>i. citem_ok i c) is"

definition not_in_set :: "citem list \<Rightarrow> char \<Rightarrow> bool" where
  "not_in_set is c = (\<not> in_set is c)"

definition not_newline :: "char \<Rightarrow> bool" where
  "not_newline c = (c \<noteq> NL)"

definition step1 :: "(char \<Rightarrow> bool) \<Rightarrow> mstate \<Rightarrow> mstate list" where
  "step1 p st = (case rest st of [] \<Rightarrow> []
     | c # cs \<Rightarrow> if p c then [st\<lparr>seen := c # seen st, rest := cs\<rparr>] else [])"

definition consumed :: "mstate \<Rightarrow> mstate \<Rightarrow> string" where
  "consumed st st' = take (length (rest st) - length (rest st')) (rest st)"

definition close_grp :: "nat \<Rightarrow> mstate \<Rightarrow> mstate \<Rightarrow> mstate" where
  "close_grp n st st' = st'\<lparr>groups := (n, consumed st st') # groups st'\<rparr>"

definition progress :: "mstate \<Rightarrow> mstate \<Rightarrow> bool" where
  "progress st st' = (length (rest st') < length (rest st))"

fun dec :: "nat option \<Rightarrow> nat option" where
  "dec None = None"
| "dec (Some h) = Some (h - 1)"

text \<open>
  Repetition. The first \<open>lo\<close> iterations are mandatory; after them the greedy form tries
  one more iteration before stopping and the lazy form stops before trying one more. An
  optional iteration that consumes nothing is not repeated (as in \<^verbatim>\<open>re\<close>), so the number
  of iterations is at most \<open>lo\<close> plus the length of the text ahead: that is the bound the
  first argument counts down.
\<close>

primrec rep :: "nat \<Rightarrow> (mstate \<Rightarrow> mstate list) \<Rightarrow> bool \<Rightarrow> nat \<Rightarrow> nat option \<Rightarrow> mstate \<Rightarrow> mstate list" where
  "rep 0 f g lo hi st = (if lo = 0 then [st] else [])"
| "rep (Suc n) f g lo hi st =
     (if 0 < lo then concat (map (rep n f g (lo - 1) (dec hi)) (f st))
      else if hi = Some 0 then [st]
      else if g then concat (map (rep n f g 0 (dec hi)) (filter (progress st) (f st))) @ [st]
      else st # concat (map (rep n f g 0 (dec hi)) (filter (progress st) (f st))))"

definition at_word_boundary :: "mstate \<Rightarrow> bool" where
  "at_word_boundary st =
     ((case seen st of [] \<Rightarrow> False | c # _ \<Rightarrow> is_word c) \<noteq>
      (case rest st of [] \<Rightarrow> False | c # _ \<Rightarrow> is_word c))"

definition bref :: "nat \<Rightarrow> mstate \<Rightarrow> mstate list" where
  "bref n st = (case map_of (groups st) n of None \<Rightarrow> []
     | Some g \<Rightarrow> if take (length g) (rest st) = g
                 then [st\<lparr>seen := rev g @ seen st, rest := drop (length g) (rest st)\<rparr>]
                 else [])"

primrec ms :: "regex \<Rightarrow> mstate \<Rightarrow> mstate list" where
  "ms (Chr x) st = step1 ((=) x) st"
| "ms Dot st = step1 not_newline st"
| "ms (Set is) st = step1 (in_set is) st"
| "ms (NSet is) st = step1 (not_in_set is) st"
| "ms Bol st = (if seen st = [] then [st] else [])"
| "ms Eol st = (if rest st = [] \<or> rest st = [NL] then [st] else [])"
| "ms EolM st = (case rest st of [] \<Rightarrow> [st] | c # _ \<Rightarrow> if c = NL then [st] else [])"
| "ms WordB st = (if at_word_boundary st then [st] else [])"
| "ms (Cat a b) st = concat (map (ms b) (ms a st))"
| "ms (Alt a b) st = ms a st @ ms b st"
| "ms (Rep r lo hi g) st = rep (lo + length (rest st)) (ms r) g lo hi st"
| "ms (Grp n r) st = map (close_grp n st) (ms r st)"
| "ms (Bref n) st = bref n st"
| "ms (Look r) st = (case ms r st of [] \<Rightarrow> [] | st' # _ \<Rightarrow> [st\<lparr>groups := groups st'\<rparr>])"
| "ms (NLook r) st = (case ms r st of [] \<Rightarrow> [st] | _ # _ \<Rightarrow> [])"

subsection \<open>Match objects, \<^verbatim>\<open>re.match\<close>, \<^verbatim>\<open>re.sub\<close>, \<^verbatim>\<open>re.finditer\<close>\<close>

record capture =
  whole :: string
  cgroups :: "(nat \<times> string) list"

text \<open>
  A match object \<open>m\<close>: \<open>whole m\<close> is \<^verbatim>\<open>m[0]\<close> and \<open>grp m i\<close> is \<^verbatim>\<open>m[i]\<close>, \<open>None\<close> for a
  group that took no part in the match.
\<close>

definition grp :: "capture \<Rightarrow> nat \<Rightarrow> string option" where
  "grp m i = map_of (cgroups m) i"

definition to_capture :: "string \<Rightarrow> mstate \<Rightarrow> capture" where
  "to_capture s st' = \<lparr>whole = take (length s - length (rest st')) s, cgroups = groups st'\<rparr>"

definition advanced :: "bool \<Rightarrow> string \<Rightarrow> mstate \<Rightarrow> bool" where
  "advanced must_advance s st' = (if must_advance then length (rest st') < length s else True)"

text \<open>
  One attempt at the current position. With \<open>must_advance\<close> (set by \<^verbatim>\<open>sub\<close> and
  \<^verbatim>\<open>finditer\<close> after an empty match) an empty match is rejected and the matcher
  backtracks into the next alternative.
\<close>

definition match_at :: "regex \<Rightarrow> bool \<Rightarrow> string \<Rightarrow> string \<Rightarrow> capture option" where
  "match_at r must_advance sn s =
     map_option (to_capture s)
       (find (advanced must_advance s) (ms r \<lparr>seen = sn, rest = s, groups = []\<rparr>))"

definition re_match :: "regex \<Rightarrow> string \<Rightarrow> capture option" where
  "re_match r s = match_at r False [] s"

text \<open>
  \<^verbatim>\<open>search\<close>: the leftmost position at which the pattern matches, as the number of
  characters skipped and the match there.
\<close>

fun search :: "regex \<Rightarrow> bool \<Rightarrow> string \<Rightarrow> string \<Rightarrow> (nat \<times> capture) option" where
  "search r must_advance sn s =
     (case match_at r must_advance sn s of
        Some m \<Rightarrow> Some (0, m)
      | None \<Rightarrow>
         (case s of
            [] \<Rightarrow> None
          | c # cs \<Rightarrow>
             (case search r False (c # sn) cs of
                None \<Rightarrow> None
              | Some (k, m) \<Rightarrow> Some (Suc k, m))))"

declare search.simps [simp del]

lemma find_advanced: "find (advanced True s) xs = Some st' \<Longrightarrow> length (rest st') < length s"
  by (induction xs) (auto simp: advanced_def split: if_splits)

lemma match_at_advances:
  "match_at r True sn s = Some m \<Longrightarrow> whole m \<noteq> []"
  by (auto simp: match_at_def to_capture_def dest!: find_advanced)

lemma search_advances:
  "search r True sn s = Some (0, m) \<Longrightarrow> whole m \<noteq> []"
  by (cases s) (auto simp: search.simps[of r True sn] match_at_advances split: option.splits)

text \<open>
  \<^verbatim>\<open>pattern.sub(repl, string, count)\<close>: \<open>count = 0\<close> replaces every match, \<open>n\<close> is the
  number of replacements made so far.
\<close>

function sub_loop :: "regex \<Rightarrow> (capture \<Rightarrow> string) \<Rightarrow> nat \<Rightarrow> nat \<Rightarrow> bool \<Rightarrow> string \<Rightarrow> string \<Rightarrow> string" where
  "sub_loop r repl count n must_advance sn s =
     (if count \<noteq> 0 \<and> count \<le> n then s
      else case search r must_advance sn s of
             None \<Rightarrow> s
           | Some (k, m) \<Rightarrow>
               take k s @ repl m @
               sub_loop r repl count (Suc n) (whole m = [])
                 (rev (take (k + length (whole m)) s) @ sn) (drop (k + length (whole m)) s))"
  by pat_completeness auto
termination
proof (relation "measure (\<lambda>(r, repl, count, n, adv, sn, s). 2 * length s + (if adv then 0 else 1))", goal_cases)
  case 1
  show ?case by simp
next
  case (2 r repl count n must_advance sn s x2 k m)
  show ?case
  proof (cases "k + length (whole m) = 0")
    case True
    then have k0: "k = 0" and w: "whole m = []" by auto
    have "\<not> must_advance"
    proof
      assume "must_advance"
      with 2 k0 have "search r True sn s = Some (0, m)" by simp
      from search_advances[OF this] w show False by simp
    qed
    with w k0 show ?thesis by simp
  next
    case False
    then have "s \<noteq> []" using 2
      by (cases s) (auto simp: search.simps[of r must_advance sn "[]"] match_at_def to_capture_def
            split: option.splits)
    then have "0 < length s" by simp
    moreover from False have "0 < k + length (whole m)" by simp
    ultimately have "2 * (length s - (k + length (whole m))) + 1 < 2 * length s" by arith
    then show ?thesis by (cases "whole m = []") auto
  qed
qed

declare sub_loop.simps [simp del]

definition re_sub :: "regex \<Rightarrow> (capture \<Rightarrow> string) \<Rightarrow> string \<Rightarrow> nat \<Rightarrow> string" where
  "re_sub r repl s count = sub_loop r repl count 0 False [] s"

definition const_repl :: "string \<Rightarrow> capture \<Rightarrow> string" where
  "const_repl t m = t"

section \<open>Preprocessing\<close>

definition CR_NEWLINE_R :: regex where
  "CR_NEWLINE_R = seq [Chr CR, Opt (Chr NL)]"

definition TAB_R :: regex where
  "TAB_R = Chr TAB"

definition FORMFEED_R :: regex where
  "FORMFEED_R = Chr FF"

definition preprocess :: "string \<Rightarrow> string" where
  "preprocess source =
     re_sub TAB_R (const_repl [NL])
       (re_sub FORMFEED_R (const_repl [])
          (re_sub CR_NEWLINE_R (const_repl ''    '') source 0) 0) 0"

text \<open>
  Two properties of a pattern and a character, used to reason about \<^verbatim>\<open>sub\<close>: the pattern
  matches wherever the text ahead starts with the character, and it matches nowhere else.
\<close>

definition always_at :: "char \<Rightarrow> regex \<Rightarrow> bool" where
  "always_at x r = (\<forall>adv sn cs. match_at r adv sn (x # cs) \<noteq> None)"

definition only_at :: "char \<Rightarrow> regex \<Rightarrow> bool" where
  "only_at x r = (\<forall>adv sn s. (case s of [] \<Rightarrow> True | c # _ \<Rightarrow> c \<noteq> x) \<longrightarrow> match_at r adv sn s = None)"


lemma find_advanced_fi: "find (advanced True s) xs = Some st' \<Longrightarrow> rest st' \<noteq> s"
  by (induction xs) (auto simp: advanced_def split: if_splits)

text \<open>
  \<^verbatim>\<open>pattern.finditer(string)\<close>: the successive matches, found as \<^verbatim>\<open>sub\<close> finds them.
\<close>

function finditer_loop :: "regex \<Rightarrow> bool \<Rightarrow> string \<Rightarrow> string \<Rightarrow> capture list" where
  "finditer_loop r must_advance sn s =
     (case search r must_advance sn s of
        None \<Rightarrow> []
      | Some (k, m) \<Rightarrow>
          m # finditer_loop r (whole m = [])
                (rev (take (k + length (whole m)) s) @ sn) (drop (k + length (whole m)) s))"
  by pat_completeness auto
termination
proof (relation "measure (\<lambda>(r, adv, sn, s). 2 * length s + (if adv then 0 else 1))", goal_cases)
  case 1
  show ?case by simp
next
  case (2 r must_advance sn s x2 k m)
  show ?case
  proof (cases "k + length (whole m) = 0")
    case True
    then have k0: "k = 0" and w: "whole m = []" by auto
    have "\<not> must_advance"
    proof
      assume "must_advance"
      with 2 k0 have "search r True sn s = Some (0, m)" by simp
      from search_advances[OF this] w show False by simp
    qed
    with w k0 show ?thesis by simp
  next
    case False
    then have "s \<noteq> []" using 2
      by (cases s) (auto simp: search.simps[of r must_advance sn "[]"] match_at_def to_capture_def
            split: option.splits)
    then have "0 < length s" by simp
    moreover from False have "0 < k + length (whole m)" by simp
    ultimately have "2 * (length s - (k + length (whole m))) + 1 < 2 * length s" by arith
    then show ?thesis by (cases "whole m = []") auto
  qed
qed

declare finditer_loop.simps [simp del]

definition re_finditer :: "regex \<Rightarrow> string \<Rightarrow> capture list" where
  "re_finditer r s = finditer_loop r False [] s"

section \<open>Python values and string methods\<close>

text \<open>
  A syntax-tree node of the program is a Python dictionary. Dictionaries are association
  lists in insertion order, as Python keeps them. \<open>PRef a\<close> is a reference to the object
  at address \<open>a\<close> of the heap of the parse state: the nodes that the reference registry
  keeps and later mutates are held there, so that the tree and the registry share them.
\<close>

datatype pyval =
    PNone
  | PBool bool
  | PInt int
  | PStr string
  | PList "pyval list"
  | PDict "(string \<times> pyval) list"
  | PRef nat

fun dict_set :: "('k \<times> 'v) list \<Rightarrow> 'k \<Rightarrow> 'v \<Rightarrow> ('k \<times> 'v) list" where
  "dict_set [] k v = [(k, v)]"
| "dict_set ((k', v') # kvs) k v = (if k' = k then (k, v) # kvs else (k', v') # dict_set kvs k v)"

fun truthy :: "pyval \<Rightarrow> bool" where
  "truthy PNone = False"
| "truthy (PBool b) = b"
| "truthy (PInt i) = (i \<noteq> 0)"
| "truthy (PStr s) = (s \<noteq> [])"
| "truthy (PList xs) = (xs \<noteq> [])"
| "truthy (PDict kvs) = (kvs \<noteq> [])"
| "truthy (PRef a) = True"

definition opt_str :: "string option \<Rightarrow> pyval" where
  "opt_str x = (case x of None \<Rightarrow> PNone | Some s \<Rightarrow> PStr s)"

text \<open>
  \<open>grp_str m i\<close> reads group \<open>i\<close> where the program passes it on as a string. A group
  that took no part is \<^verbatim>\<open>None\<close> in Python; it is read as the empty string here, which
  is what \<^verbatim>\<open>or\<close> and \<^verbatim>\<open>while source\<close> make of it at every such use.
\<close>

definition grp_str :: "capture \<Rightarrow> nat \<Rightarrow> string" where
  "grp_str m i = (case grp m i of None \<Rightarrow> [] | Some s \<Rightarrow> s)"

definition or_str :: "string \<Rightarrow> string \<Rightarrow> string" where
  "or_str a b = (if a \<noteq> [] then a else b)"

definition strip :: "string \<Rightarrow> string" where
  "strip s = rev (dropWhile is_space (rev (dropWhile is_space s)))"

fun split_on :: "char \<Rightarrow> string \<Rightarrow> string list" where
  "split_on c [] = [[]]"
| "split_on c (x # xs) =
     (if x = c then [] # split_on c xs
      else (case split_on c xs of [] \<Rightarrow> [[x]] | y # ys \<Rightarrow> (x # y) # ys))"

definition lower_char :: "char \<Rightarrow> char" where
  "lower_char c =
     (if in_range CHR ''A'' CHR ''Z'' c \<or> in_range (CHR 0xC0) (CHR 0xD6) c \<or> in_range (CHR 0xD8) (CHR 0xDE) c
      then char_of (of_char c + (32::nat)) else c)"

definition lower :: "string \<Rightarrow> string" where
  "lower s = map lower_char s"

fun is_prefix :: "string \<Rightarrow> string \<Rightarrow> bool" where
  "is_prefix [] s = True"
| "is_prefix (p # ps) [] = False"
| "is_prefix (p # ps) (c # cs) = (p = c \<and> is_prefix ps cs)"

fun contains :: "string \<Rightarrow> string \<Rightarrow> bool" where
  "contains sub [] = (sub = [])"
| "contains sub (c # cs) = (is_prefix sub (c # cs) \<or> contains sub cs)"

fun str_less :: "string \<Rightarrow> string \<Rightarrow> bool" where
  "str_less [] [] = False"
| "str_less [] (y # ys) = True"
| "str_less (x # xs) [] = False"
| "str_less (x # xs) (y # ys) =
     ((of_char x :: nat) < of_char y \<or> (x = y \<and> str_less xs ys))"

definition digit_val :: "char \<Rightarrow> int" where
  "digit_val c = int (of_char c) - 48"

definition int_of_digits :: "string \<Rightarrow> int" where
  "int_of_digits s = foldl (\<lambda>acc c. 10 * acc + digit_val c) 0 s"

definition digit_char :: "nat \<Rightarrow> char" where
  "digit_char d = char_of (48 + d)"

fun digits_of :: "nat \<Rightarrow> nat \<Rightarrow> string" where
  "digits_of 0 n = []"
| "digits_of (Suc fuel) n = (if n < 10 then [digit_char n] else digits_of fuel (n div 10) @ [digit_char (n mod 10)])"

text \<open>\<^verbatim>\<open>str(n)\<close> for an integer: a number below \<open>10 ^ k\<close> has at most \<open>k\<close> digits and \<open>n < 10 ^ Suc n\<close>.\<close>

definition str_of_nat :: "nat \<Rightarrow> string" where
  "str_of_nat n = digits_of (Suc n) n"

definition str_of_int :: "int \<Rightarrow> string" where
  "str_of_int i = (if i < 0 then CHR ''-'' # str_of_nat (nat (- i)) else str_of_nat (nat i))"

fun py_str :: "pyval \<Rightarrow> string" where
  "py_str PNone = ''None''"
| "py_str (PBool b) = (if b then ''True'' else ''False'')"
| "py_str (PInt i) = str_of_int i"
| "py_str (PStr s) = s"
| "py_str v = ''<object>''"

text \<open>
  \<open>py_str\<close> is \<^verbatim>\<open>str(x)\<close> on the values the renderers pass to it (strings, integers and
  \<^verbatim>\<open>None\<close>); the text of a list or a dictionary is not modelled.
\<close>

section \<open>Parse state, errors and rules\<close>

datatype error =
    IndexError
  | KeyError string
  | TypeError
  | AttributeError
  | ValueError
  | ReError
  | NoMatchingRule string string
  | CaptureNotAtStart
  | NoneResult
  | OutOfFuel

text \<open>
  The parse state is a Python dictionary with a fixed set of keys. A key the program
  only tests for truth (\<^verbatim>\<open>inline\<close>, \<^verbatim>\<open>_list\<close>, \<^verbatim>\<open>in_table\<close>,
  \<^verbatim>\<open>disable_auto_block_newlines\<close>) is a boolean, false when the key is absent,
  \<^verbatim>\<open>None\<close> or \<^verbatim>\<open>False\<close>. \<^verbatim>\<open>_defs\<close> and \<^verbatim>\<open>_refs\<close> are empty when absent. \<open>heap\<close> holds
  the nodes registered in \<^verbatim>\<open>_refs\<close>; \<^verbatim>\<open>_refs\<close> maps a name to their addresses.
\<close>

record pstate =
  inline :: bool
  st_list :: bool
  in_table :: bool
  disable_auto_block_newlines :: bool
  previous_capture :: "capture option"
  st_defs :: "(string \<times> pyval) list"
  st_refs :: "(string \<times> nat list) list"
  heap :: "pyval list"

type_synonym parser = "string \<Rightarrow> pstate \<Rightarrow> error + (pyval list \<times> pstate)"

type_synonym renderer = "pyval \<Rightarrow> error + string"

text \<open>
  The attribute \<^verbatim>\<open>order\<close> of a rule. The program tests it with
  \<^verbatim>\<open>isinstance(order, numbers.Number)\<close>, prints it, compares it with \<^verbatim>\<open>==\<close> and \<^verbatim>\<open>!=\<close> and
  subtracts it. The orders of the model are \<^verbatim>\<open>None\<close>, the booleans, the integers and the
  strings. A boolean is a number in Python: \<^verbatim>\<open>True\<close> is 1 and \<^verbatim>\<open>False\<close> is 0 in every
  comparison and subtraction.
\<close>

datatype ordval = ONone | OBool bool | OInt int | OStr string

definition num_of :: "ordval \<Rightarrow> int option" where
  "num_of v = (case v of OInt i \<Rightarrow> Some i | OBool b \<Rightarrow> Some (if b then 1 else 0) | _ \<Rightarrow> None)"

text \<open>\<^verbatim>\<open>isinstance(order, numbers.Number)\<close>.\<close>

definition is_number :: "ordval \<Rightarrow> bool" where
  "is_number v = (num_of v \<noteq> None)"

text \<open>\<^verbatim>\<open>a == b\<close>: numbers by value, \<^verbatim>\<open>None\<close> and strings with themselves only.\<close>

definition py_eq :: "ordval \<Rightarrow> ordval \<Rightarrow> bool" where
  "py_eq a b =
     (case num_of a of
        Some x \<Rightarrow> (case num_of b of Some y \<Rightarrow> x = y | None \<Rightarrow> False)
      | None \<Rightarrow> (case num_of b of Some y \<Rightarrow> False | None \<Rightarrow> a = b))"

text \<open>\<^verbatim>\<open>str(order)\<close>, which the f-string of \<^verbatim>\<open>filter_rules\<close> prints.\<close>

definition str_order :: "ordval \<Rightarrow> string" where
  "str_order v =
     (case v of
        ONone \<Rightarrow> ''None''
      | OBool b \<Rightarrow> (if b then ''True'' else ''False'')
      | OInt i \<Rightarrow> str_of_int i
      | OStr s \<Rightarrow> s)"

text \<open>
  A rule object, with its attributes \<^verbatim>\<open>order\<close>, \<^verbatim>\<open>match\<close>, \<^verbatim>\<open>quality\<close>, \<^verbatim>\<open>parse\<close> and
  \<^verbatim>\<open>html\<close>. \<open>r_match\<close> and \<open>r_quality\<close> are \<open>None\<close> when the object has no such
  attribute.
\<close>

record rule =
  r_order :: ordval
  r_match :: "(string \<Rightarrow> pstate \<Rightarrow> string \<Rightarrow> capture option) option"
  r_quality :: "(capture \<Rightarrow> pstate \<Rightarrow> string \<Rightarrow> rat) option"
  r_parse :: "capture \<Rightarrow> parser \<Rightarrow> pstate \<Rightarrow> error + (pyval \<times> pstate)"
  r_html :: "pyval \<Rightarrow> renderer \<Rightarrow> error + string"

text \<open>Reading and writing a key of a node, through the heap when the node lives there.\<close>

definition node_dict :: "pstate \<Rightarrow> pyval \<Rightarrow> (string \<times> pyval) list option" where
  "node_dict st node =
     (case node of
        PDict kvs \<Rightarrow> Some kvs
      | PRef a \<Rightarrow> (if a < length (heap st) then (case heap st ! a of PDict kvs \<Rightarrow> Some kvs | _ \<Rightarrow> None) else None)
      | _ \<Rightarrow> None)"

definition node_get :: "pstate \<Rightarrow> pyval \<Rightarrow> string \<Rightarrow> pyval option" where
  "node_get st node k = (case node_dict st node of None \<Rightarrow> None | Some kvs \<Rightarrow> map_of kvs k)"

definition node_set :: "pstate \<Rightarrow> pyval \<Rightarrow> string \<Rightarrow> pyval \<Rightarrow> pyval \<times> pstate" where
  "node_set st node k v =
     (case node of
        PDict kvs \<Rightarrow> (PDict (dict_set kvs k v), st)
      | PRef a \<Rightarrow>
          (case node_dict st node of
             Some kvs \<Rightarrow> (node, st\<lparr>heap := (heap st)[a := PDict (dict_set kvs k v)]\<rparr>)
           | None \<Rightarrow> (node, st))
      | _ \<Rightarrow> (node, st))"

text \<open>
  \<open>view n h v\<close> is the value \<open>v\<close> as the caller of the parser sees it when the heap is
  \<open>h\<close>: every reference replaced by the object it points to. A node is created after the
  nodes of its content, so a reference inside the object at address \<open>a\<close> is below \<open>a\<close>, and
  following references \<open>length h\<close> deep resolves all of them.
\<close>

fun view :: "nat \<Rightarrow> pyval list \<Rightarrow> pyval \<Rightarrow> pyval" where
  "view n h (PList xs) = PList (map (view n h) xs)"
| "view n h (PDict kvs) = PDict (map (\<lambda>kv. (fst kv, view n h (snd kv))) kvs)"
| "view 0 h (PRef a) = PRef a"
| "view (Suc n) h (PRef a) = (if a < length h then view n h (h ! a) else PRef a)"
| "view n h PNone = PNone"
| "view n h (PBool b) = PBool b"
| "view n h (PInt i) = PInt i"
| "view n h (PStr s) = PStr s"

definition tree_of :: "pyval list \<times> pstate \<Rightarrow> pyval list" where
  "tree_of r = map (view (length (heap (snd r))) (heap (snd r))) (fst r)"

section \<open>The patterns of the program\<close>

text \<open>
  Every pattern below is the transcription of the pattern of the same name in the
  source (the pattern of a rule \<^verbatim>\<open>X\<close> is named \<open>X_R\<close>); the source text is quoted
  above each.
\<close>

abbreviation sp :: regex where "sp \<equiv> Chr SPC"
abbreviation nl :: regex where "nl \<equiv> Chr NL"
abbreviation ws :: regex where "ws \<equiv> Set [Sp]"
abbreviation nws :: regex where "nws \<equiv> NSet [Sp]"
abbreviation not_nl :: regex where "not_nl \<equiv> NSet [C NL]"

text \<open>\<^verbatim>\<open>LIST_BULLET = "(?:[*+-]|\d+\.)"\<close>\<close>

definition LIST_BULLET :: regex where
  "LIST_BULLET = Alt (Set [C CHR ''*'', C CHR ''+'', C CHR ''-'']) (seq [Plus (Set [Dg]), Chr CHR ''.''])"

text \<open>\<^verbatim>\<open>LIST_ITEM_PREFIX = "( *)(" + LIST_BULLET + ") +"\<close>\<close>

definition LIST_ITEM_PREFIX :: regex where
  "LIST_ITEM_PREFIX = seq [Grp 1 (Star sp), Grp 2 LIST_BULLET, Plus sp]"

text \<open>\<^verbatim>\<open>LIST_ITEM_PREFIX_R = re.compile("^" + LIST_ITEM_PREFIX)\<close>\<close>

definition LIST_ITEM_PREFIX_R :: regex where
  "LIST_ITEM_PREFIX_R = seq [Bol, LIST_ITEM_PREFIX]"

text \<open>
  \<^verbatim>\<open>LIST_ITEM_R = re.compile(LIST_ITEM_PREFIX + "[^\n]*(?:\n(?!\1" + LIST_BULLET + " )[^\n]*)*(\n|$)", re.MULTILINE)\<close>
\<close>

definition LIST_ITEM_R :: regex where
  "LIST_ITEM_R =
     seq [LIST_ITEM_PREFIX, Star not_nl,
          Star (seq [nl, NLook (seq [Bref 1, LIST_BULLET, sp]), Star not_nl]),
          Grp 3 (Alt nl EolM)]"

text \<open>\<^verbatim>\<open>BLOCK_END_R = re.compile(r'\n{2,}$')\<close>\<close>

definition BLOCK_END_R :: regex where
  "BLOCK_END_R = seq [Rep nl 2 None True, Eol]"

text \<open>\<^verbatim>\<open>INLINE_CODE_ESCAPE_BACKTICKS_R = re.compile(r'^ (?= *`)|(` *) $')\<close>\<close>

definition INLINE_CODE_ESCAPE_BACKTICKS_R :: regex where
  "INLINE_CODE_ESCAPE_BACKTICKS_R =
     Alt (seq [Bol, sp, Look (seq [Star sp, Chr (CHR 0x60)])])
         (seq [Grp 1 (seq [Chr (CHR 0x60), Star sp]), sp, Eol])"

text \<open>\<^verbatim>\<open>LIST_BLOCK_END_R = BLOCK_END_R\<close>\<close>

definition LIST_BLOCK_END_R :: regex where
  "LIST_BLOCK_END_R = BLOCK_END_R"

text \<open>\<^verbatim>\<open>LIST_ITEM_END_R = re.compile(r' *\n+$')\<close>\<close>

definition LIST_ITEM_END_R :: regex where
  "LIST_ITEM_END_R = seq [Star sp, Plus nl, Eol]"

text \<open>
  \<^verbatim>\<open>LIST_R = re.compile("^( *)(" + LIST_BULLET + ") [\s\S]+?(?:\n{2,}(?! )(?!\1" + LIST_BULLET + " )\n*|\s*\n*$)")\<close>
\<close>

definition LIST_R :: regex where
  "LIST_R =
     seq [Bol, Grp 1 (Star sp), Grp 2 LIST_BULLET, sp, LPlus AnyCh,
          Alt (seq [Rep nl 2 None True, NLook sp, NLook (seq [Bref 1, LIST_BULLET, sp]), Star nl])
              (seq [Star ws, Star nl, Eol])]"

text \<open>\<^verbatim>\<open>LIST_LOOKBEHIND_R = re.compile(r'(?:^|\n)( *)$')\<close>\<close>

definition LIST_LOOKBEHIND_R :: regex where
  "LIST_LOOKBEHIND_R = seq [Alt Bol nl, Grp 1 (Star sp), Eol]"

text \<open>The patterns of \<^verbatim>\<open>TABLES()\<close>.\<close>

text \<open>\<^verbatim>\<open>TABLE_ROW_SEPARATOR_TRIM = re.compile(r'^ *\| *| *\| *$')\<close>\<close>

definition TABLE_ROW_SEPARATOR_TRIM :: regex where
  "TABLE_ROW_SEPARATOR_TRIM =
     Alt (seq [Bol, Star sp, Chr CHR ''|'', Star sp]) (seq [Star sp, Chr CHR ''|'', Star sp, Eol])"

text \<open>\<^verbatim>\<open>TABLE_CELL_END_TRIM = re.compile(r' *$')\<close>\<close>

definition TABLE_CELL_END_TRIM :: regex where
  "TABLE_CELL_END_TRIM = seq [Star sp, Eol]"

text \<open>\<^verbatim>\<open>TABLE_RIGHT_ALIGN = re.compile('^ *-+: *$')\<close>\<close>

definition TABLE_RIGHT_ALIGN :: regex where
  "TABLE_RIGHT_ALIGN = seq [Bol, Star sp, Plus (Chr CHR ''-''), Chr CHR '':'', Star sp, Eol]"

text \<open>\<^verbatim>\<open>TABLE_CENTER_ALIGN = re.compile('^ *:-+: *$')\<close>\<close>

definition TABLE_CENTER_ALIGN :: regex where
  "TABLE_CENTER_ALIGN =
     seq [Bol, Star sp, Chr CHR '':'', Plus (Chr CHR ''-''), Chr CHR '':'', Star sp, Eol]"

text \<open>\<^verbatim>\<open>TABLE_LEFT_ALIGN = re.compile('^ *:-+ *$')\<close>\<close>

definition TABLE_LEFT_ALIGN :: regex where
  "TABLE_LEFT_ALIGN = seq [Bol, Star sp, Chr CHR '':'', Plus (Chr CHR ''-''), Star sp, Eol]"

text \<open>\<^verbatim>\<open>'TABLE_REGEX': re.compile(r'^ *(\|.+)\n *\|( *[-:]+[-| :]*)\n((?: *\|.*(?:\n|$))*)\n*')\<close>\<close>

definition TABLE_REGEX :: regex where
  "TABLE_REGEX =
     seq [Bol, Star sp, Grp 1 (seq [Chr CHR ''|'', Plus Dot]), nl, Star sp, Chr CHR ''|'',
          Grp 2 (seq [Star sp, Plus (Set [C CHR ''-'', C CHR '':'']),
                      Star (Set [C CHR ''-'', C CHR ''|'', C SPC, C CHR '':''])]),
          nl,
          Grp 3 (Star (seq [Star sp, Chr CHR ''|'', Star Dot, Alt nl Eol])),
          Star nl]"

text \<open>\<^verbatim>\<open>'NPTABLE_REGEX': re.compile(r'^ *(\S.*\|.*)\n *([-:]+ *\|[-| :]*)\n((?:.*\|.*(?:\n|$))*)\n*')\<close>\<close>

definition NPTABLE_REGEX :: regex where
  "NPTABLE_REGEX =
     seq [Bol, Star sp, Grp 1 (seq [nws, Star Dot, Chr CHR ''|'', Star Dot]), nl, Star sp,
          Grp 2 (seq [Plus (Set [C CHR ''-'', C CHR '':'']), Star sp, Chr CHR ''|'',
                      Star (Set [C CHR ''-'', C CHR ''|'', C SPC, C CHR '':''])]),
          nl,
          Grp 3 (Star (seq [Star Dot, Chr CHR ''|'', Star Dot, Alt nl Eol])),
          Star nl]"

text \<open>\<^verbatim>\<open>LINK_INSIDE = "(?:\[[^\]]*\]|[^\[\]]|\](?=[^\[]*\]))*"\<close>\<close>

definition LINK_INSIDE :: regex where
  "LINK_INSIDE =
     Star (alts [seq [Chr CHR ''['', Star (NSet [C CHR '']'']), Chr CHR '']''],
                 NSet [C CHR ''['', C CHR '']''],
                 seq [Chr CHR '']'', Look (seq [Star (NSet [C CHR ''['']), Chr CHR '']''])]])"

text \<open>
  \<^verbatim>\<open>LINK_HREF_AND_TITLE = "\s*<?((?:\([^)]*\)|[^\s\\]|\\.)*?)>?(?:\s+['\"]([\s\S]*?)['\"])?\s*"\<close>.
  In the patterns that use it, its two groups are the groups 2 and 3.
\<close>

definition LINK_HREF_AND_TITLE :: regex where
  "LINK_HREF_AND_TITLE =
     seq [Star ws, Opt (Chr CHR ''<''),
          Grp 2 (LStar (alts [seq [Chr CHR ''('', Star (NSet [C CHR '')'']), Chr CHR '')''],
                              NSet [Sp, C BS],
                              seq [Chr BS, Dot]])),
          Opt (Chr CHR ''>''),
          Opt (seq [Plus ws, Set [C SQ, C DQ], Grp 3 (LStar AnyCh), Set [C SQ, C DQ]]),
          Star ws]"

text \<open>\<^verbatim>\<open>AUTOLINK_MAILTO_CHECK_R = re.compile('mailto:', re.IGNORECASE)\<close>\<close>

definition AUTOLINK_MAILTO_CHECK_R :: regex where
  "AUTOLINK_MAILTO_CHECK_R =
     seq [Set [C CHR ''m'', C CHR ''M''], Set [C CHR ''a'', C CHR ''A''], Set [C CHR ''i'', C CHR ''I''],
          Set [C CHR ''l'', C CHR ''L''], Set [C CHR ''t'', C CHR ''T''], Set [C CHR ''o'', C CHR ''O''],
          Chr CHR '':'']"

text \<open>\<^verbatim>\<open>SANITIZE_TEXT_R = re.compile('[<>&"\']')\<close>\<close>

definition SANITIZE_TEXT_R :: regex where
  "SANITIZE_TEXT_R = Set [C CHR ''<'', C CHR ''>'', C CHR ''&'', C DQ, C SQ]"

text \<open>\<^verbatim>\<open>UNESCAPE_URL_R = re.compile(r'\\([^0-9A-Za-z\s])')\<close>\<close>

definition UNESCAPE_URL_R :: regex where
  "UNESCAPE_URL_R =
     seq [Chr BS, Grp 1 (NSet [Rg CHR ''0'' CHR ''9'', Rg CHR ''A'' CHR ''Z'', Rg CHR ''a'' CHR ''z'', Sp])]"

text \<open>Heading: \<^verbatim>\<open>r'^ *(#{1,6})([^\n]+?)#* *(?:\n *)+\n'\<close>\<close>

definition Heading_R :: regex where
  "Heading_R =
     seq [Bol, Star sp, Grp 1 (Rep (Chr CHR ''#'') 1 (Some 6) True), Grp 2 (LPlus not_nl),
          Star (Chr CHR ''#''), Star sp, Plus (seq [nl, Star sp]), nl]"

text \<open>LHeading: \<^verbatim>\<open>r'^([^\n]+)\n *(=|-){3,} *(?:\n *)+\n'\<close>\<close>

definition LHeading_R :: regex where
  "LHeading_R =
     seq [Bol, Grp 1 (Plus not_nl), nl, Star sp,
          Rep (Grp 2 (Alt (Chr CHR ''='') (Chr CHR ''-''))) 3 None True,
          Star sp, Plus (seq [nl, Star sp]), nl]"

text \<open>HR: \<^verbatim>\<open>r'^( *[-*_]){3,} *(?:\n *)+\n'\<close>\<close>

definition HR_R :: regex where
  "HR_R =
     seq [Bol, Rep (Grp 1 (seq [Star sp, Set [C CHR ''-'', C CHR ''*'', C CHR ''_'']])) 3 None True,
          Star sp, Plus (seq [nl, Star sp]), nl]"

text \<open>CodeBlock: \<^verbatim>\<open>r'^(?:    [^\n]+\n*)+(?:\n *)+\n'\<close>\<close>

definition CodeBlock_R :: regex where
  "CodeBlock_R =
     seq [Bol, Plus (seq [sp, sp, sp, sp, Plus not_nl, Star nl]), Plus (seq [nl, Star sp]), nl]"

text \<open>Fence: \<^verbatim>\<open>r'^ *(`{3,}|~{3,}) *(?:(\S+) *)?\n([\s\S]+?)\n?\1 *(?:\n *)+\n'\<close>\<close>

definition Fence_R :: regex where
  "Fence_R =
     seq [Bol, Star sp,
          Grp 1 (Alt (Rep (Chr (CHR 0x60)) 3 None True) (Rep (Chr CHR ''~'') 3 None True)),
          Star sp, Opt (seq [Grp 2 (Plus nws), Star sp]), nl,
          Grp 3 (LPlus AnyCh), Opt nl, Bref 1, Star sp, Plus (seq [nl, Star sp]), nl]"

text \<open>BlockQuote: \<^verbatim>\<open>r'^( *>[^\n]+(\n[^\n]+)*\n*)+\n{2,}'\<close>\<close>

definition BlockQuote_R :: regex where
  "BlockQuote_R =
     seq [Bol,
          Plus (Grp 1 (seq [Star sp, Chr CHR ''>'', Plus not_nl,
                            Star (Grp 2 (seq [nl, Plus not_nl])), Star nl])),
          Rep nl 2 None True]"

text \<open>Def: \<^verbatim>\<open>r'^ *\[([^\]]+)\]: *<?([^\s>]*)>?(?: +["(]([^\n]+)[")])? *\n(?: *\n)*'\<close>\<close>

definition Def_R :: regex where
  "Def_R =
     seq [Bol, Star sp, Chr CHR ''['', Grp 1 (Plus (NSet [C CHR '']''])), Chr CHR '']'', Chr CHR '':'',
          Star sp, Opt (Chr CHR ''<''), Grp 2 (Star (NSet [Sp, C CHR ''>''])), Opt (Chr CHR ''>''),
          Opt (seq [Plus sp, Set [C DQ, C CHR ''(''], Grp 3 (Plus not_nl), Set [C DQ, C CHR '')'']]),
          Star sp, nl, Star (seq [Star sp, nl])]"

text \<open>NewLine: \<^verbatim>\<open>r'^(?:\n *)*\n'\<close>\<close>

definition NewLine_R :: regex where
  "NewLine_R = seq [Bol, Star (seq [nl, Star sp]), nl]"

text \<open>Paragraph: \<^verbatim>\<open>r'^((?:[^\n]|\n(?! *\n))+)(?:\n *)+\n'\<close>\<close>

definition Paragraph_R :: regex where
  "Paragraph_R =
     seq [Bol, Grp 1 (Plus (Alt not_nl (seq [nl, NLook (seq [Star sp, nl])]))),
          Plus (seq [nl, Star sp]), nl]"

text \<open>Escape: \<^verbatim>\<open>r'^\\([^0-9A-Za-z\s])'\<close>\<close>

definition Escape_R :: regex where
  "Escape_R =
     seq [Bol, Chr BS,
          Grp 1 (NSet [Rg CHR ''0'' CHR ''9'', Rg CHR ''A'' CHR ''Z'', Rg CHR ''a'' CHR ''z'', Sp])]"

text \<open>TableSeparator: \<^verbatim>\<open>r'^ *\| *'\<close>\<close>

definition TableSeparator_R :: regex where
  "TableSeparator_R = seq [Bol, Star sp, Chr CHR ''|'', Star sp]"

text \<open>AutoLink: \<^verbatim>\<open>r'^<([^: >]+:\/[^ >]+)>'\<close>\<close>

definition AutoLink_R :: regex where
  "AutoLink_R =
     seq [Bol, Chr CHR ''<'',
          Grp 1 (seq [Plus (NSet [C CHR '':'', C SPC, C CHR ''>'']), Chr CHR '':'', Chr CHR ''/'',
                      Plus (NSet [C SPC, C CHR ''>''])]),
          Chr CHR ''>'']"

text \<open>MailTo: \<^verbatim>\<open>r'^<([^ >]+@[^ >]+)>'\<close>\<close>

definition MailTo_R :: regex where
  "MailTo_R =
     seq [Bol, Chr CHR ''<'',
          Grp 1 (seq [Plus (NSet [C SPC, C CHR ''>'']), Chr CHR ''@'', Plus (NSet [C SPC, C CHR ''>''])]),
          Chr CHR ''>'']"

text \<open>URL: \<^verbatim>\<open>r'^(https?:\/\/[^\s<]+[^<.,:;"\')\]\s])'\<close>\<close>

definition URL_R :: regex where
  "URL_R =
     seq [Bol,
          Grp 1 (seq [lit ''http'', Opt (Chr CHR ''s''), lit ''://'', Plus (NSet [Sp, C CHR ''<'']),
                      NSet [C CHR ''<'', C CHR ''.'', C CHR '','', C CHR '':'', C CHR '';'', C DQ, C SQ,
                            C CHR '')'', C CHR '']'', Sp]])]"

text \<open>Link: \<^verbatim>\<open>'^\[(' + LINK_INSIDE + ')\]\(' + LINK_HREF_AND_TITLE + '\)'\<close>\<close>

definition Link_R :: regex where
  "Link_R =
     seq [Bol, Chr CHR ''['', Grp 1 LINK_INSIDE, Chr CHR '']'', Chr CHR ''('', LINK_HREF_AND_TITLE,
          Chr CHR '')'']"

text \<open>Image: \<^verbatim>\<open>'^!\[(' + LINK_INSIDE + ')\]\(' + LINK_HREF_AND_TITLE + '\)'\<close>\<close>

definition Image_R :: regex where
  "Image_R =
     seq [Bol, Chr CHR ''!'', Chr CHR ''['', Grp 1 LINK_INSIDE, Chr CHR '']'', Chr CHR ''('',
          LINK_HREF_AND_TITLE, Chr CHR '')'']"

text \<open>RefLink: \<^verbatim>\<open>'^\[(' + LINK_INSIDE + ')\]' + '\s*\[([^\]]*)\]'\<close>\<close>

definition RefLink_R :: regex where
  "RefLink_R =
     seq [Bol, Chr CHR ''['', Grp 1 LINK_INSIDE, Chr CHR '']'', Star ws, Chr CHR ''['',
          Grp 2 (Star (NSet [C CHR '']''])), Chr CHR '']'']"

text \<open>RefImage: \<^verbatim>\<open>'^!\[(' + LINK_INSIDE + ')\]' + '\s*\[([^\]]*)\]'\<close>\<close>

definition RefImage_R :: regex where
  "RefImage_R =
     seq [Bol, Chr CHR ''!'', Chr CHR ''['', Grp 1 LINK_INSIDE, Chr CHR '']'', Star ws, Chr CHR ''['',
          Grp 2 (Star (NSet [C CHR '']''])), Chr CHR '']'']"

text \<open>
  Em: \<^verbatim>\<open>"^\b_((?:__|\\[\s\S]|[^\\_])+?)_\b|^\*(?=\S)((?:\*\*|\\[\s\S]|\s+(?:\\[\s\S]|[^\s\*\\]|\*\*)|[^\s\*\\])+?)\*(?!\*)"\<close>
\<close>

definition Em_R :: regex where
  "Em_R =
     Alt (seq [Bol, WordB, Chr CHR ''_'',
               Grp 1 (LPlus (alts [lit ''__'', seq [Chr BS, AnyCh], NSet [C BS, C CHR ''_'']])),
               Chr CHR ''_'', WordB])
         (seq [Bol, Chr CHR ''*'', Look nws,
               Grp 2 (LPlus (alts [lit ''**'',
                                   seq [Chr BS, AnyCh],
                                   seq [Plus ws, alts [seq [Chr BS, AnyCh], NSet [Sp, C CHR ''*'', C BS], lit ''**'']],
                                   NSet [Sp, C CHR ''*'', C BS]])),
               Chr CHR ''*'', NLook (Chr CHR ''*'')])"

text \<open>Strong: \<^verbatim>\<open>r'^\*\*((?:\\[\s\S]|[^\\])+?)\*\*(?!\*)'\<close>\<close>

definition Strong_R :: regex where
  "Strong_R =
     seq [Bol, lit ''**'', Grp 1 (LPlus (Alt (seq [Chr BS, AnyCh]) (NSet [C BS]))), lit ''**'',
          NLook (Chr CHR ''*'')]"

text \<open>U: \<^verbatim>\<open>r'^__((?:\\[\s\S]|[^\\])+?)__(?!_)'\<close>\<close>

definition U_R :: regex where
  "U_R =
     seq [Bol, lit ''__'', Grp 1 (LPlus (Alt (seq [Chr BS, AnyCh]) (NSet [C BS]))), lit ''__'',
          NLook (Chr CHR ''_'')]"

text \<open>Del: \<^verbatim>\<open>r'^~~(?=\S)((?:\\[\s\S]|~(?!~)|[^\s~]|\s(?!~~))+?)~~'\<close>\<close>

definition Del_R :: regex where
  "Del_R =
     seq [Bol, lit ''~~'', Look nws,
          Grp 1 (LPlus (alts [seq [Chr BS, AnyCh],
                              seq [Chr CHR ''~'', NLook (Chr CHR ''~'')],
                              NSet [Sp, C CHR ''~''],
                              seq [ws, NLook (lit ''~~'')]])),
          lit ''~~'']"

text \<open>InlineCode: \<^verbatim>\<open>r'^(`+)([\s\S]*?[^`])\1(?!`)'\<close>\<close>

definition InlineCode_R :: regex where
  "InlineCode_R =
     seq [Bol, Grp 1 (Plus (Chr (CHR 0x60))), Grp 2 (seq [LStar AnyCh, NSet [C (CHR 0x60)]]), Bref 1,
          NLook (Chr (CHR 0x60))]"

text \<open>Br: \<^verbatim>\<open>r'^ {2,}\n'\<close>\<close>

definition Br_R :: regex where
  "Br_R = seq [Bol, Rep sp 2 None True, nl]"

text \<open>Text: \<^verbatim>\<open>r'^[\s\S]+?(?=[^0-9A-Za-z\s\u00c0-\uffff]|\n\n| {2,}\n|\w+:\S|$)'\<close>\<close>

definition Text_R :: regex where
  "Text_R =
     seq [Bol, LPlus AnyCh,
          Look (alts [NSet [Rg CHR ''0'' CHR ''9'', Rg CHR ''A'' CHR ''Z'', Rg CHR ''a'' CHR ''z'', Sp,
                            Rg (CHR 0xC0) (CHR 0xFF)],
                      seq [nl, nl],
                      seq [Rep sp 2 None True, nl],
                      seq [Plus (Set [Wd]), Chr CHR '':'', nws],
                      Eol])]"

text \<open>The patterns written in place in the \<^verbatim>\<open>parse\<close> methods.\<close>

text \<open>\<^verbatim>\<open>r'\s+'\<close> (in \<^verbatim>\<open>parse_ref\<close> and \<^verbatim>\<open>Def.parse\<close>)\<close>

definition SPACES_R :: regex where
  "SPACES_R = Plus ws"

text \<open>\<^verbatim>\<open>r'^    '\<close> and \<^verbatim>\<open>r'\n+$'\<close> (in \<^verbatim>\<open>CodeBlock.parse\<close>)\<close>

definition CODE_INDENT_R :: regex where
  "CODE_INDENT_R = seq [Bol, sp, sp, sp, sp]"

definition CODE_END_R :: regex where
  "CODE_END_R = seq [Plus nl, Eol]"

text \<open>\<^verbatim>\<open>r'^ *> ?'\<close> (in \<^verbatim>\<open>BlockQuote.parse\<close>)\<close>

definition QUOTE_PREFIX_R :: regex where
  "QUOTE_PREFIX_R = seq [Bol, Star sp, Chr CHR ''>'', Opt sp]"

text \<open>\<^verbatim>\<open>r'[^\d]+?'\<close> (in \<^verbatim>\<open>List.parse\<close>)\<close>

definition NON_DIGITS_R :: regex where
  "NON_DIGITS_R = LPlus (NSet [Dg])"

text \<open>\<^verbatim>\<open>space_regex = r'^ {1,' + str(space) + '}'\<close> (in \<^verbatim>\<open>List.parse\<close>)\<close>

definition space_regex :: "nat \<Rightarrow> regex" where
  "space_regex space = seq [Bol, Rep sp 1 (Some space) True]"

section \<open>Helpers of the rules\<close>

definition inline_regex :: "regex \<Rightarrow> string \<Rightarrow> pstate \<Rightarrow> string \<Rightarrow> capture option" where
  "inline_regex regex source state prev = (if inline state then re_match regex source else None)"

definition block_regex :: "regex \<Rightarrow> string \<Rightarrow> pstate \<Rightarrow> string \<Rightarrow> capture option" where
  "block_regex regex source state prev = (if inline state then None else re_match regex source)"

definition any_scope_regex :: "regex \<Rightarrow> string \<Rightarrow> pstate \<Rightarrow> string \<Rightarrow> capture option" where
  "any_scope_regex regex source state prev = re_match regex source"

definition SANITIZE_TEXT_CODES :: "(string \<times> string) list" where
  "SANITIZE_TEXT_CODES =
     [(''<'', ''&lt;''), (''>'', ''&gt;''), (''&'', ''&amp;''), ([DQ], ''&quot;''), ([SQ], ''&#x27;''),
      (''/'', ''&#x2F;''), ([CHR 0x60], ''&#96;'')]"

definition sanitize_code :: "capture \<Rightarrow> string" where
  "sanitize_code m = (case map_of SANITIZE_TEXT_CODES (whole m) of None \<Rightarrow> [] | Some s \<Rightarrow> s)"

definition sanitize_text :: "pyval \<Rightarrow> string" where
  "sanitize_text text = re_sub SANITIZE_TEXT_R sanitize_code (py_str text) 0"

definition group1 :: "capture \<Rightarrow> string" where
  "group1 m = grp_str m 1"

definition unescape_url :: "string \<Rightarrow> string" where
  "unescape_url raw_url_string = re_sub UNESCAPE_URL_R group1 raw_url_string 0"

fun attribute_string :: "(string \<times> pyval) list \<Rightarrow> string" where
  "attribute_string [] = []"
| "attribute_string ((attr, attribute) # others) =
     (if truthy attribute
      then '' '' @ sanitize_text (PStr attr) @ [CHR ''='', DQ] @ sanitize_text attribute @ [DQ]
      else []) @ attribute_string others"

definition html_tag :: "string \<Rightarrow> string \<Rightarrow> (string \<times> pyval) list \<Rightarrow> bool \<Rightarrow> string" where
  "html_tag tag_name content attributes is_closed =
     (let unclosed_tag = ''<'' @ tag_name @ attribute_string attributes @ ''>''
      in if is_closed then unclosed_tag @ content @ ''</'' @ tag_name @ ''>'' else unclosed_tag)"

definition parse_inline :: "parser \<Rightarrow> string \<Rightarrow> pstate \<Rightarrow> error + (pyval list \<times> pstate)" where
  "parse_inline parse content state =
     (case parse content (state\<lparr>inline := True\<rparr>) of
        Inl e \<Rightarrow> Inl e
      | Inr (result, state') \<Rightarrow> Inr (result, state'\<lparr>inline := inline state\<rparr>))"

definition parse_block :: "parser \<Rightarrow> string \<Rightarrow> pstate \<Rightarrow> error + (pyval list \<times> pstate)" where
  "parse_block parse content state =
     (case parse (content @ [NL, NL]) (state\<lparr>inline := False\<rparr>) of
        Inl e \<Rightarrow> Inl e
      | Inr (result, state') \<Rightarrow> Inr (result, state'\<lparr>inline := inline state\<rparr>))"

definition parse_capture_inline :: "capture \<Rightarrow> parser \<Rightarrow> pstate \<Rightarrow> error + (pyval \<times> pstate)" where
  "parse_capture_inline capture parse state =
     (case parse_inline parse (grp_str capture 1) state of
        Inl e \<Rightarrow> Inl e
      | Inr (result, state') \<Rightarrow> Inr (PDict [(''content'', PList result)], state'))"

definition ignore_capture :: pyval where
  "ignore_capture = PDict []"

subsection \<open>The table sub-parser (\<^verbatim>\<open>TABLES\<close>)\<close>

definition parse_table_align_capture :: "string \<Rightarrow> pyval" where
  "parse_table_align_capture align_capture =
     (if re_match TABLE_RIGHT_ALIGN align_capture \<noteq> None then PStr ''right''
      else if re_match TABLE_CENTER_ALIGN align_capture \<noteq> None then PStr ''center''
      else if re_match TABLE_LEFT_ALIGN align_capture \<noteq> None then PStr ''left''
      else PNone)"

definition parse_table_align :: "string \<Rightarrow> bool \<Rightarrow> pyval list" where
  "parse_table_align source trim_end_separators =
     map parse_table_align_capture
       (split_on CHR ''|''
          (strip (if trim_end_separators
                  then re_sub TABLE_ROW_SEPARATOR_TRIM (const_repl []) source 0 else source)))"

text \<open>
  The loop of \<^verbatim>\<open>parse_table_row\<close> over \<^verbatim>\<open>enumerate(table_row)\<close>: \<open>len\<close> is
  \<^verbatim>\<open>len(table_row)\<close>, the list argument holds the nodes from \<open>index\<close> on, so its second
  element is \<^verbatim>\<open>table_row[index + 1]\<close>.
\<close>

fun cells_loop :: "bool \<Rightarrow> nat \<Rightarrow> nat \<Rightarrow> pyval list \<Rightarrow> pyval list list \<Rightarrow> pstate
                     \<Rightarrow> error + (pyval list list \<times> pstate)" where
  "cells_loop trim len index [] cells state = Inr (cells, state)"
| "cells_loop trim len index (node # others) cells state =
     (case node_get state node ''type'' of
        None \<Rightarrow> Inl (KeyError ''type'')
      | Some t \<Rightarrow>
          if t = PStr ''table_separator'' then
            (if (if trim then index \<noteq> 0 \<and> index \<noteq> len - 1 else True)
             then cells_loop trim len (Suc index) others (cells @ [[]]) state
             else cells_loop trim len (Suc index) others cells state)
          else
            (case (case others of
                     [] \<Rightarrow> Inr False
                   | nxt # _ \<Rightarrow>
                       if t = PStr ''text''
                       then (case node_get state nxt ''type'' of
                               None \<Rightarrow> Inl (KeyError ''type'')
                             | Some t' \<Rightarrow> Inr (t' = PStr ''table_separator''))
                       else Inr False) of
               Inl e \<Rightarrow> Inl e
             | Inr trim_cell \<Rightarrow>
                 (case (if trim_cell
                        then (case node_get state node ''content'' of
                                None \<Rightarrow> Inl (KeyError ''content'')
                              | Some (PStr c) \<Rightarrow>
                                  Inr (node_set state node ''content''
                                         (PStr (re_sub TABLE_CELL_END_TRIM (const_repl []) c 1)))
                              | Some _ \<Rightarrow> Inl TypeError)
                        else Inr (node, state)) of
                    Inl e \<Rightarrow> Inl e
                  | Inr (node', state') \<Rightarrow>
                      cells_loop trim len (Suc index) others
                        (butlast cells @ [last cells @ [node']]) state')))"

definition parse_table_row :: "string \<Rightarrow> parser \<Rightarrow> pstate \<Rightarrow> bool \<Rightarrow> error + (pyval list list \<times> pstate)" where
  "parse_table_row source parse state trim_end_separators =
     (case parse (strip source) (state\<lparr>in_table := True\<rparr>) of
        Inl e \<Rightarrow> Inl e
      | Inr (table_row, state') \<Rightarrow>
          cells_loop trim_end_separators (length table_row) 0 table_row [[]]
            (state'\<lparr>in_table := in_table state\<rparr>))"

fun rows_loop :: "string list \<Rightarrow> parser \<Rightarrow> pstate \<Rightarrow> bool \<Rightarrow> error + (pyval list list list \<times> pstate)" where
  "rows_loop [] parse state trim = Inr ([], state)"
| "rows_loop (row_text # others) parse state trim =
     (case parse_table_row row_text parse state trim of
        Inl e \<Rightarrow> Inl e
      | Inr (row, state') \<Rightarrow>
          (case rows_loop others parse state' trim of
             Inl e \<Rightarrow> Inl e
           | Inr (rows, state'') \<Rightarrow> Inr (row # rows, state'')))"

definition parse_table_cells :: "string \<Rightarrow> parser \<Rightarrow> pstate \<Rightarrow> bool \<Rightarrow> error + (pyval list list list \<times> pstate)" where
  "parse_table_cells source parse state trim_end_separators =
     rows_loop (split_on NL (strip source)) parse state trim_end_separators"

definition cells_val :: "pyval list list \<Rightarrow> pyval" where
  "cells_val row = PList (map PList row)"

definition parse_table :: "bool \<Rightarrow> capture \<Rightarrow> parser \<Rightarrow> pstate \<Rightarrow> error + (pyval \<times> pstate)" where
  "parse_table trim_end_separators capture parse state =
     (case parse_table_row (grp_str capture 1) parse (state\<lparr>inline := True\<rparr>) trim_end_separators of
        Inl e \<Rightarrow> Inl e
      | Inr (header, state1) \<Rightarrow>
          (case parse_table_cells (grp_str capture 3) parse state1 trim_end_separators of
             Inl e \<Rightarrow> Inl e
           | Inr (cells, state2) \<Rightarrow>
               Inr (PDict [(''type'', PStr ''table''),
                           (''header'', cells_val header),
                           (''align'', PList (parse_table_align (grp_str capture 2) trim_end_separators)),
                           (''cells'', PList (map cells_val cells))],
                    state2\<lparr>inline := False\<rparr>)))"

subsection \<open>The reference registry\<close>

definition normalize_ref :: "string \<Rightarrow> string" where
  "normalize_ref name = lower (re_sub SPACES_R (const_repl '' '') name 0)"

text \<open>
  \<^verbatim>\<open>parse_ref\<close>. The node \<^verbatim>\<open>ref_node\<close> is created on the heap; the value returned and the
  entry appended to \<^verbatim>\<open>state['_refs'][ref]\<close> are the same reference to it.
\<close>

definition parse_ref :: "capture \<Rightarrow> pstate \<Rightarrow> (string \<times> pyval) list \<Rightarrow> error + (pyval \<times> pstate)" where
  "parse_ref capture state ref_node =
     (let ref = normalize_ref (or_str (grp_str capture 2) (grp_str capture 1)) in
      case (case map_of (st_defs state) ref of
              None \<Rightarrow> Inr ref_node
            | Some d \<Rightarrow>
                if truthy d
                then (case d of
                        PDict kvs \<Rightarrow>
                          (case map_of kvs ''target'' of
                             None \<Rightarrow> Inl (KeyError ''target'')
                           | Some target \<Rightarrow>
                               (case map_of kvs ''title'' of
                                  None \<Rightarrow> Inl (KeyError ''title'')
                                | Some title \<Rightarrow>
                                    Inr (dict_set (dict_set ref_node ''target'' target) ''title'' title)))
                      | _ \<Rightarrow> Inl TypeError)
                else Inr ref_node) of
        Inl e \<Rightarrow> Inl e
      | Inr node \<Rightarrow>
          (let a = length (heap state);
               old = (case map_of (st_refs state) ref of None \<Rightarrow> [] | Some as \<Rightarrow> as)
           in Inr (PRef a,
                   state\<lparr>heap := heap state @ [PDict node],
                         st_refs := dict_set (st_refs state) ref (old @ [a])\<rparr>)))"

text \<open>The loop of \<^verbatim>\<open>Def.parse\<close> over \<^verbatim>\<open>state['_refs'][_def]\<close>.\<close>

definition patch_ref :: "pyval \<Rightarrow> pyval \<Rightarrow> pstate \<Rightarrow> nat \<Rightarrow> pstate" where
  "patch_ref target title state a =
     snd (node_set (snd (node_set state (PRef a) ''target'' target)) (PRef a) ''title'' title)"

definition Def_parse :: "capture \<Rightarrow> parser \<Rightarrow> pstate \<Rightarrow> error + (pyval \<times> pstate)" where
  "Def_parse capture parse state =
     (let def = normalize_ref (grp_str capture 1);
          target = PStr (grp_str capture 2);
          title = opt_str (grp capture 3);
          state1 = (case map_of (st_refs state) def of
                      None \<Rightarrow> state
                    | Some as \<Rightarrow> foldl (patch_ref target title) state as)
      in Inr (PDict [(''def'', PStr def), (''target'', target), (''title'', title)],
              state1\<lparr>st_defs := dict_set (st_defs state1) def
                                  (PDict [(''target'', target), (''title'', title)])\<rparr>))"

section \<open>The rules\<close>

text \<open>
  For a rule class \<^verbatim>\<open>X\<close> of the source, \<open>X_match\<close>, \<open>X_quality\<close>, \<open>X_parse\<close> and \<open>X_html\<close>
  are its methods. The \<^verbatim>\<open>react\<close> renderers build element records for a view layer; of
  them only the joiner \<^verbatim>\<open>Array.react\<close> is modelled (further below). The \<^verbatim>\<open>html\<close>
  renderers hand the render state on without reading or writing it, so it is left out.
\<close>

definition dget :: "pyval \<Rightarrow> string \<Rightarrow> error + pyval" where
  "dget node k =
     (case node of
        PDict kvs \<Rightarrow> (case map_of kvs k of None \<Rightarrow> Inl (KeyError k) | Some v \<Rightarrow> Inr v)
      | _ \<Rightarrow> Inl TypeError)"

definition dget_default :: "pyval \<Rightarrow> string \<Rightarrow> error + pyval" where
  "dget_default node k =
     (case node of
        PDict kvs \<Rightarrow> (case map_of kvs k of None \<Rightarrow> Inr PNone | Some v \<Rightarrow> Inr v)
      | _ \<Rightarrow> Inl AttributeError)"

text \<open>The methods of the base class \<^verbatim>\<open>Rule\<close>: each is \<^verbatim>\<open>pass\<close> and returns \<^verbatim>\<open>None\<close>.\<close>

definition Rule_match :: "string \<Rightarrow> pstate \<Rightarrow> string \<Rightarrow> capture option" where
  "Rule_match source state prev = None"

definition Rule_parse :: "capture \<Rightarrow> parser \<Rightarrow> pstate \<Rightarrow> error + (pyval \<times> pstate)" where
  "Rule_parse capture parse state = Inr (PNone, state)"

definition Rule_html :: "pyval \<Rightarrow> renderer \<Rightarrow> error + string" where
  "Rule_html node output = Inl NoneResult"

text \<open>
  \<open>content_html tag attributes\<close> is the renderer
  \<^verbatim>\<open>html_tag(tag, output(node['content'], state), attributes)\<close>, which several rules share.
\<close>

definition content_html :: "string \<Rightarrow> (string \<times> pyval) list \<Rightarrow> pyval \<Rightarrow> renderer \<Rightarrow> error + string" where
  "content_html tag attributes node output =
     (case dget node ''content'' of
        Inl e \<Rightarrow> Inl e
      | Inr c \<Rightarrow>
          (case output c of
             Inl e \<Rightarrow> Inl e
           | Inr s \<Rightarrow> Inr (html_tag tag s attributes True)))"

subsection \<open>Array\<close>

text \<open>
  The inner loop of the joiner: \<open>absorb_text (arr[i+1:]) content\<close> appends the contents of
  the text nodes that follow and counts them.
\<close>

fun absorb_text :: "pyval list \<Rightarrow> string \<Rightarrow> error + (string \<times> nat)" where
  "absorb_text [] content = Inr (content, 0)"
| "absorb_text (nxt # others) content =
     (case dget nxt ''type'' of
        Inl e \<Rightarrow> Inl e
      | Inr t \<Rightarrow>
          if t = PStr ''text'' then
            (case dget nxt ''content'' of
               Inl e \<Rightarrow> Inl e
             | Inr (PStr c) \<Rightarrow>
                 (case absorb_text others (content @ c) of
                    Inl e \<Rightarrow> Inl e
                  | Inr (content', k) \<Rightarrow> Inr (content', Suc k))
             | Inr _ \<Rightarrow> Inl TypeError)
          else Inr (content, 0))"

text \<open>
  The node rendered at index \<open>i\<close>, and by how much the inner loop advanced \<open>i\<close>.
\<close>

definition merged_node :: "pyval list \<Rightarrow> nat \<Rightarrow> error + (pyval \<times> nat)" where
  "merged_node arr i =
     (case dget (arr ! i) ''type'' of
        Inl e \<Rightarrow> Inl e
      | Inr t \<Rightarrow>
          if t = PStr ''text'' then
            (case dget (arr ! i) ''content'' of
               Inl e \<Rightarrow> Inl e
             | Inr (PStr c) \<Rightarrow>
                 (case absorb_text (drop (Suc i) arr) c of
                    Inl e \<Rightarrow> Inl e
                  | Inr (content', k) \<Rightarrow>
                      Inr (PDict [(''type'', PStr ''text''), (''content'', PStr content')], k))
             | Inr _ \<Rightarrow> Inl TypeError)
          else Inr (arr ! i, 0))"

function Array_html_loop :: "pyval list \<Rightarrow> renderer \<Rightarrow> nat \<Rightarrow> string \<Rightarrow> error + string" where
  "Array_html_loop arr output i result =
     (if i < length arr then
        (case merged_node arr i of
           Inl e \<Rightarrow> Inl e
         | Inr (node, k) \<Rightarrow>
             (case output node of
                Inl e \<Rightarrow> Inl e
              | Inr s \<Rightarrow> Array_html_loop arr output (Suc (i + k)) (result @ s)))
      else Inr result)"
  by pat_completeness auto
termination
  by (relation "measure (\<lambda>(arr, output, i, result). length arr - i)") auto

declare Array_html_loop.simps [simp del]

definition Array_html :: "pyval \<Rightarrow> renderer \<Rightarrow> error + string" where
  "Array_html arr output =
     (case arr of PList nodes \<Rightarrow> Array_html_loop nodes output 0 [] | _ \<Rightarrow> Inl TypeError)"

subsection \<open>Block rules\<close>

definition Heading_parse :: "capture \<Rightarrow> parser \<Rightarrow> pstate \<Rightarrow> error + (pyval \<times> pstate)" where
  "Heading_parse capture parse state =
     (case parse_inline parse (strip (grp_str capture 2)) state of
        Inl e \<Rightarrow> Inl e
      | Inr (content, state') \<Rightarrow>
          Inr (PDict [(''level'', PInt (int (length (grp_str capture 1)))),
                      (''content'', PList content)], state'))"

definition Heading_html :: "pyval \<Rightarrow> renderer \<Rightarrow> error + string" where
  "Heading_html node output =
     (case dget node ''level'' of
        Inl e \<Rightarrow> Inl e
      | Inr level \<Rightarrow> content_html (''h'' @ py_str level) [] node output)"

definition LHeading_parse :: "capture \<Rightarrow> parser \<Rightarrow> pstate \<Rightarrow> error + (pyval \<times> pstate)" where
  "LHeading_parse capture parse state =
     (case parse_inline parse (grp_str capture 1) state of
        Inl e \<Rightarrow> Inl e
      | Inr (content, state') \<Rightarrow>
          Inr (PDict [(''type'', PStr ''heading''),
                      (''level'', PInt (if grp capture 2 = Some ''='' then 1 else 2)),
                      (''content'', PList content)], state'))"

definition HR_parse :: "capture \<Rightarrow> parser \<Rightarrow> pstate \<Rightarrow> error + (pyval \<times> pstate)" where
  "HR_parse capture parse state = Inr (ignore_capture, state)"

definition HR_html :: "pyval \<Rightarrow> renderer \<Rightarrow> error + string" where
  "HR_html node output = Inr ''<hr>''"

definition CodeBlock_parse :: "capture \<Rightarrow> parser \<Rightarrow> pstate \<Rightarrow> error + (pyval \<times> pstate)" where
  "CodeBlock_parse capture parse state =
     (let content = re_sub CODE_END_R (const_repl [])
                      (re_sub CODE_INDENT_R (const_repl []) (whole capture) 0) 0
      in Inr (PDict [(''lang'', PNone), (''content'', PStr content)], state))"

definition CodeBlock_html :: "pyval \<Rightarrow> renderer \<Rightarrow> error + string" where
  "CodeBlock_html node output =
     (case dget node ''lang'' of
        Inl e \<Rightarrow> Inl e
      | Inr lang \<Rightarrow>
          (case dget node ''content'' of
             Inl e \<Rightarrow> Inl e
           | Inr content \<Rightarrow>
               (let class_name = (if truthy lang then PStr (''markdown-code-'' @ py_str lang) else PNone);
                    code_block = html_tag ''code'' (sanitize_text content) [(''class'', class_name)] True
                in Inr (html_tag ''pre'' code_block [] True))))"

definition Fence_parse :: "capture \<Rightarrow> parser \<Rightarrow> pstate \<Rightarrow> error + (pyval \<times> pstate)" where
  "Fence_parse capture parse state =
     Inr (PDict [(''type'', PStr ''codeBlock''),
                 (''lang'', if grp_str capture 2 \<noteq> [] then PStr (grp_str capture 2) else PNone),
                 (''content'', opt_str (grp capture 3))], state)"

definition BlockQuote_parse :: "capture \<Rightarrow> parser \<Rightarrow> pstate \<Rightarrow> error + (pyval \<times> pstate)" where
  "BlockQuote_parse capture parse state =
     (let content = re_sub QUOTE_PREFIX_R (const_repl []) (whole capture) 0 in
      case parse content state of
        Inl e \<Rightarrow> Inl e
      | Inr (result, state') \<Rightarrow> Inr (PDict [(''content'', PList result)], state'))"

definition prev_string :: "pstate \<Rightarrow> string" where
  "prev_string state = (case previous_capture state of None \<Rightarrow> [] | Some c \<Rightarrow> whole c)"

definition List_match :: "string \<Rightarrow> pstate \<Rightarrow> string \<Rightarrow> capture option" where
  "List_match source state prev =
     (let previous_capture_string = prev_string state;
          is_start_of_line_capture = re_match LIST_LOOKBEHIND_R previous_capture_string;
          is_list_block = (st_list state \<or> \<not> inline state)
      in case is_start_of_line_capture of
           None \<Rightarrow> None
         | Some m \<Rightarrow> if is_list_block then re_match LIST_R (grp_str m 1 @ source) else None)"

text \<open>
  \<^verbatim>\<open>content_map\<close>, first half: the text of an item without its indentation and bullet.
  \<^verbatim>\<open>re.sub(space_regex, '', item, re.MULTILINE)\<close> passes \<^verbatim>\<open>re.MULTILINE\<close>, which is 8, as
  the argument \<^verbatim>\<open>count\<close>. A \<^verbatim>\<open>space\<close> of 0 would make the pattern \<^verbatim>\<open>^ {1,0}\<close>, which
  \<^verbatim>\<open>re\<close> refuses to compile.
\<close>

definition item_text :: "string \<Rightarrow> error + string" where
  "item_text item =
     (let prefix_capture = re_match LIST_ITEM_PREFIX_R item;
          space = (case prefix_capture of None \<Rightarrow> 0 | Some m \<Rightarrow> length (whole m))
      in if space = 0 then Inl ReError
         else Inr (re_sub LIST_ITEM_PREFIX_R (const_repl [])
                     (re_sub (space_regex space) (const_repl []) item 8) 1))"

text \<open>
  The \<^verbatim>\<open>map\<close> of \<^verbatim>\<open>content_map\<close> over \<^verbatim>\<open>enumerate(items)\<close>: \<open>i\<close> is the index, \<open>n\<close> is
  \<^verbatim>\<open>len(items)\<close> and \<open>last_par\<close> is the variable \<^verbatim>\<open>last_item_was_a_paragraph\<close>.
\<close>

fun items_loop :: "nat \<Rightarrow> nat \<Rightarrow> capture list \<Rightarrow> bool \<Rightarrow> parser \<Rightarrow> pstate \<Rightarrow> error + (pyval list \<times> pstate)" where
  "items_loop i n [] last_par parse state = Inr ([], state)"
| "items_loop i n (item # others) last_par parse state =
     (case item_text (whole item) of
        Inl e \<Rightarrow> Inl e
      | Inr content \<Rightarrow>
          (let is_last_item = (int i = int n - 1);
               contains_blocks = contains [NL, NL] content;
               this_item_is_a_paragraph = (contains_blocks \<or> (is_last_item \<and> last_par));
               adjusted_content =
                 (if this_item_is_a_paragraph
                  then re_sub LIST_ITEM_END_R (const_repl [NL, NL]) content 1
                  else re_sub LIST_ITEM_END_R (const_repl []) content 1)
           in case parse adjusted_content
                     (state\<lparr>st_list := True, inline := \<not> this_item_is_a_paragraph\<rparr>) of
                Inl e \<Rightarrow> Inl e
              | Inr (result, state') \<Rightarrow>
                  (case items_loop (Suc i) n others this_item_is_a_paragraph parse
                          (state'\<lparr>inline := inline state, st_list := st_list state\<rparr>) of
                     Inl e \<Rightarrow> Inl e
                   | Inr (results, state'') \<Rightarrow> Inr (PList result # results, state''))))"

definition List_parse :: "capture \<Rightarrow> parser \<Rightarrow> pstate \<Rightarrow> error + (pyval \<times> pstate)" where
  "List_parse capture parse state =
     (let bullet = grp_str capture 2;
          ordered = (1 < length bullet)
      in case (if ordered
               then (let digits = re_sub NON_DIGITS_R (const_repl []) bullet 0
                     in if digits = [] then Inl ValueError else Inr (PInt (int_of_digits digits)))
               else Inr PNone) of
           Inl e \<Rightarrow> Inl e
         | Inr start \<Rightarrow>
             (let items = re_finditer LIST_ITEM_R
                            (re_sub LIST_BLOCK_END_R (const_repl [NL]) (whole capture) 1)
              in case items_loop 0 (length items) items False parse state of
                   Inl e \<Rightarrow> Inl e
                 | Inr (item_content, state') \<Rightarrow>
                     Inr (PDict [(''ordered'', PBool ordered), (''start'', start),
                                 (''items'', PList item_content)], state')))"

fun items_html :: "pyval list \<Rightarrow> renderer \<Rightarrow> error + string" where
  "items_html [] output = Inr []"
| "items_html (item # others) output =
     (case output item of
        Inl e \<Rightarrow> Inl e
      | Inr s \<Rightarrow>
          (case items_html others output of
             Inl e \<Rightarrow> Inl e
           | Inr t \<Rightarrow> Inr (html_tag ''li'' s [] True @ t)))"

definition List_html :: "pyval \<Rightarrow> renderer \<Rightarrow> error + string" where
  "List_html node output =
     (case dget node ''items'' of
        Inl e \<Rightarrow> Inl e
      | Inr (PList items) \<Rightarrow>
          (case items_html items output of
             Inl e \<Rightarrow> Inl e
           | Inr list_items \<Rightarrow>
               (case dget node ''ordered'' of
                  Inl e \<Rightarrow> Inl e
                | Inr ordered \<Rightarrow>
                    (case dget node ''start'' of
                       Inl e \<Rightarrow> Inl e
                     | Inr start \<Rightarrow>
                         Inr (html_tag (if truthy ordered then ''ol'' else ''ul'') list_items
                                [(''start'', start)] True))))
      | Inr _ \<Rightarrow> Inl TypeError)"

definition Def_html :: "pyval \<Rightarrow> renderer \<Rightarrow> error + string" where
  "Def_html node output = Inr []"

text \<open>\<^verbatim>\<open>Table.html\<close>: \<open>get_style\<close>, the header cells, the cells of a row, the rows.\<close>

definition get_style :: "pyval \<Rightarrow> nat \<Rightarrow> error + string" where
  "get_style node column_index =
     (case dget node ''align'' of
        Inl e \<Rightarrow> Inl e
      | Inr (PList align) \<Rightarrow>
          if column_index < length align
          then Inr (if truthy (align ! column_index)
                    then ''text-align:'' @ py_str (align ! column_index) @ '';'' else [])
          else Inl IndexError
      | Inr _ \<Rightarrow> Inl TypeError)"

fun cells_html :: "string \<Rightarrow> (string \<times> pyval) list \<Rightarrow> pyval \<Rightarrow> nat \<Rightarrow> pyval list \<Rightarrow> renderer \<Rightarrow> error + string" where
  "cells_html tag extra node column_index [] output = Inr []"
| "cells_html tag extra node column_index (content # others) output =
     (case output content of
        Inl e \<Rightarrow> Inl e
      | Inr s \<Rightarrow>
          (case get_style node column_index of
             Inl e \<Rightarrow> Inl e
           | Inr style \<Rightarrow>
               (case cells_html tag extra node (Suc column_index) others output of
                  Inl e \<Rightarrow> Inl e
                | Inr t \<Rightarrow> Inr (html_tag tag s ((''style'', PStr style) # extra) True @ t))))"

fun table_rows_html :: "pyval \<Rightarrow> pyval list \<Rightarrow> renderer \<Rightarrow> error + string" where
  "table_rows_html node [] output = Inr []"
| "table_rows_html node (row # others) output =
     (case row of
        PList cells \<Rightarrow>
          (case cells_html ''td'' [] node 0 cells output of
             Inl e \<Rightarrow> Inl e
           | Inr s \<Rightarrow>
               (case table_rows_html node others output of
                  Inl e \<Rightarrow> Inl e
                | Inr t \<Rightarrow> Inr (html_tag ''tr'' s [] True @ t)))
      | _ \<Rightarrow> Inl TypeError)"

definition Table_html :: "pyval \<Rightarrow> renderer \<Rightarrow> error + string" where
  "Table_html node output =
     (case dget node ''header'' of
        Inl e \<Rightarrow> Inl e
      | Inr (PList header) \<Rightarrow>
          (case cells_html ''th'' [(''scope'', PStr ''col'')] node 0 header output of
             Inl e \<Rightarrow> Inl e
           | Inr headers \<Rightarrow>
               (case dget node ''cells'' of
                  Inl e \<Rightarrow> Inl e
                | Inr (PList cells) \<Rightarrow>
                    (case table_rows_html node cells output of
                       Inl e \<Rightarrow> Inl e
                     | Inr rows \<Rightarrow>
                         (let thead = html_tag ''thead'' (html_tag ''tr'' headers [] True) [] True;
                              tbody = html_tag ''tbody'' rows [] True
                          in Inr (html_tag ''table'' (thead @ tbody) [] True)))
                | Inr _ \<Rightarrow> Inl TypeError))
      | Inr _ \<Rightarrow> Inl TypeError)"

definition NewLine_parse :: "capture \<Rightarrow> parser \<Rightarrow> pstate \<Rightarrow> error + (pyval \<times> pstate)" where
  "NewLine_parse capture parse state = Inr (ignore_capture, state)"

definition NewLine_html :: "pyval \<Rightarrow> renderer \<Rightarrow> error + string" where
  "NewLine_html node output = Inr [NL]"

subsection \<open>Inline rules\<close>

definition Escape_parse :: "capture \<Rightarrow> parser \<Rightarrow> pstate \<Rightarrow> error + (pyval \<times> pstate)" where
  "Escape_parse capture parse state =
     Inr (PDict [(''type'', PStr ''text''), (''content'', opt_str (grp capture 1))], state)"

definition TableSeparator_match :: "string \<Rightarrow> pstate \<Rightarrow> string \<Rightarrow> capture option" where
  "TableSeparator_match source state prev =
     (if \<not> in_table state then None else re_match TableSeparator_R source)"

definition TableSeparator_parse :: "capture \<Rightarrow> parser \<Rightarrow> pstate \<Rightarrow> error + (pyval \<times> pstate)" where
  "TableSeparator_parse capture parse state = Inr (PDict [(''type'', PStr ''table_separator'')], state)"

definition TableSeparator_html :: "pyval \<Rightarrow> renderer \<Rightarrow> error + string" where
  "TableSeparator_html node output = Inr '' &vert; ''"

definition AutoLink_parse :: "capture \<Rightarrow> parser \<Rightarrow> pstate \<Rightarrow> error + (pyval \<times> pstate)" where
  "AutoLink_parse capture parse state =
     Inr (PDict [(''type'', PStr ''link''),
                 (''content'', PList [PDict [(''type'', PStr ''text''), (''content'', opt_str (grp capture 1))]]),
                 (''target'', opt_str (grp capture 1))], state)"

definition MailTo_parse :: "capture \<Rightarrow> parser \<Rightarrow> pstate \<Rightarrow> error + (pyval \<times> pstate)" where
  "MailTo_parse capture parse state =
     (let address = grp_str capture 1;
          target = (if re_match AUTOLINK_MAILTO_CHECK_R address = None
                    then ''mailto:'' @ address else address)
      in Inr (PDict [(''type'', PStr ''link''),
                     (''content'', PList [PDict [(''type'', PStr ''text''), (''content'', PStr address)]]),
                     (''target'', PStr target)], state))"

definition URL_parse :: "capture \<Rightarrow> parser \<Rightarrow> pstate \<Rightarrow> error + (pyval \<times> pstate)" where
  "URL_parse capture parse state =
     Inr (PDict [(''type'', PStr ''link''),
                 (''content'', PList [PDict [(''type'', PStr ''text''), (''content'', opt_str (grp capture 1))]]),
                 (''target'', opt_str (grp capture 1)),
                 (''title'', PNone)], state)"

definition Link_parse :: "capture \<Rightarrow> parser \<Rightarrow> pstate \<Rightarrow> error + (pyval \<times> pstate)" where
  "Link_parse capture parse state =
     (case parse (grp_str capture 1) state of
        Inl e \<Rightarrow> Inl e
      | Inr (result, state') \<Rightarrow>
          Inr (PDict [(''content'', PList result),
                      (''target'', PStr (unescape_url (grp_str capture 2))),
                      (''title'', opt_str (grp capture 3))], state'))"

definition Link_html :: "pyval \<Rightarrow> renderer \<Rightarrow> error + string" where
  "Link_html node output =
     (case dget node ''target'' of
        Inl e \<Rightarrow> Inl e
      | Inr target \<Rightarrow>
          (case dget_default node ''title'' of
             Inl e \<Rightarrow> Inl e
           | Inr title \<Rightarrow>
               content_html ''a'' [(''href'', PStr (sanitize_text target)), (''title'', title)]
                 node output))"

definition Image_parse :: "capture \<Rightarrow> parser \<Rightarrow> pstate \<Rightarrow> error + (pyval \<times> pstate)" where
  "Image_parse capture parse state =
     Inr (PDict [(''alt'', opt_str (grp capture 1)),
                 (''target'', PStr (unescape_url (grp_str capture 2))),
                 (''title'', opt_str (grp capture 3))], state)"

definition Image_html :: "pyval \<Rightarrow> renderer \<Rightarrow> error + string" where
  "Image_html node output =
     (case dget node ''target'' of
        Inl e \<Rightarrow> Inl e
      | Inr target \<Rightarrow>
          (case dget node ''alt'' of
             Inl e \<Rightarrow> Inl e
           | Inr alt \<Rightarrow>
               (case dget node ''title'' of
                  Inl e \<Rightarrow> Inl e
                | Inr title \<Rightarrow>
                    Inr (html_tag ''img'' []
                           [(''src'', PStr (sanitize_text target)), (''alt'', alt), (''title'', title)]
                           False))))"

definition RefLink_parse :: "capture \<Rightarrow> parser \<Rightarrow> pstate \<Rightarrow> error + (pyval \<times> pstate)" where
  "RefLink_parse capture parse state =
     (case parse (grp_str capture 1) state of
        Inl e \<Rightarrow> Inl e
      | Inr (result, state') \<Rightarrow>
          parse_ref capture state' [(''type'', PStr ''link''), (''content'', PList result)])"

definition RefImage_parse :: "capture \<Rightarrow> parser \<Rightarrow> pstate \<Rightarrow> error + (pyval \<times> pstate)" where
  "RefImage_parse capture parse state =
     parse_ref capture state [(''type'', PStr ''image''), (''alt'', opt_str (grp capture 1))]"

definition Em_quality :: "capture \<Rightarrow> pstate \<Rightarrow> string \<Rightarrow> rat" where
  "Em_quality capture state prev = of_nat (length (whole capture)) + 2 / 10"

definition Em_parse :: "capture \<Rightarrow> parser \<Rightarrow> pstate \<Rightarrow> error + (pyval \<times> pstate)" where
  "Em_parse capture parse state =
     (case parse (or_str (grp_str capture 2) (grp_str capture 1)) state of
        Inl e \<Rightarrow> Inl e
      | Inr (result, state') \<Rightarrow> Inr (PDict [(''content'', PList result)], state'))"

definition Strong_quality :: "capture \<Rightarrow> pstate \<Rightarrow> string \<Rightarrow> rat" where
  "Strong_quality capture state prev = of_nat (length (whole capture)) + 1 / 10"

definition U_quality :: "capture \<Rightarrow> pstate \<Rightarrow> string \<Rightarrow> rat" where
  "U_quality capture state prev = of_nat (length (whole capture))"

definition INLINE_CODE_REPL :: "capture \<Rightarrow> string" where
  "INLINE_CODE_REPL m = grp_str m 1"

definition InlineCode_parse :: "capture \<Rightarrow> parser \<Rightarrow> pstate \<Rightarrow> error + (pyval \<times> pstate)" where
  "InlineCode_parse capture parse state =
     Inr (PDict [(''content'',
                  PStr (re_sub INLINE_CODE_ESCAPE_BACKTICKS_R INLINE_CODE_REPL (grp_str capture 2) 0))],
          state)"

definition InlineCode_html :: "pyval \<Rightarrow> renderer \<Rightarrow> error + string" where
  "InlineCode_html node output =
     (case dget node ''content'' of
        Inl e \<Rightarrow> Inl e
      | Inr content \<Rightarrow> Inr (html_tag ''code'' (sanitize_text content) [] True))"

definition Br_parse :: "capture \<Rightarrow> parser \<Rightarrow> pstate \<Rightarrow> error + (pyval \<times> pstate)" where
  "Br_parse capture parse state = Inr (ignore_capture, state)"

definition Br_html :: "pyval \<Rightarrow> renderer \<Rightarrow> error + string" where
  "Br_html node output = Inr ''<br>''"

definition Text_parse :: "capture \<Rightarrow> parser \<Rightarrow> pstate \<Rightarrow> error + (pyval \<times> pstate)" where
  "Text_parse capture parse state = Inr (PDict [(''content'', PStr (whole capture))], state)"

definition Text_html :: "pyval \<Rightarrow> renderer \<Rightarrow> error + string" where
  "Text_html node output =
     (case dget node ''content'' of
        Inl e \<Rightarrow> Inl e
      | Inr content \<Rightarrow> Inr (sanitize_text content))"

subsection \<open>The rule table\<close>

text \<open>
  \<^verbatim>\<open>default_rules\<close>, in the order of the source. The table is built while the global
  \<^verbatim>\<open>current_order\<close> counts up from 0: \<^verbatim>\<open>Array\<close> and \<^verbatim>\<open>heading\<close> both get 0, and \<^verbatim>\<open>em\<close>,
  \<^verbatim>\<open>strong\<close> and \<^verbatim>\<open>u\<close> all get 21.
\<close>

definition mk_rule :: "int \<Rightarrow> (string \<Rightarrow> pstate \<Rightarrow> string \<Rightarrow> capture option)
      \<Rightarrow> (capture \<Rightarrow> pstate \<Rightarrow> string \<Rightarrow> rat) option
      \<Rightarrow> (capture \<Rightarrow> parser \<Rightarrow> pstate \<Rightarrow> error + (pyval \<times> pstate))
      \<Rightarrow> (pyval \<Rightarrow> renderer \<Rightarrow> error + string) \<Rightarrow> rule" where
  "mk_rule ord m q p h = \<lparr>r_order = OInt ord, r_match = Some m, r_quality = q, r_parse = p, r_html = h\<rparr>"

definition default_rules :: "(string \<times> rule) list" where
  "default_rules =
     [(''Array'', mk_rule 0 Rule_match None Rule_parse Array_html),
      (''heading'', mk_rule 0 (block_regex Heading_R) None Heading_parse Heading_html),
      (''nptable'', mk_rule 1 (block_regex NPTABLE_REGEX) None (parse_table False) Rule_html),
      (''lheading'', mk_rule 2 (block_regex LHeading_R) None LHeading_parse Rule_html),
      (''hr'', mk_rule 3 (block_regex HR_R) None HR_parse HR_html),
      (''codeBlock'', mk_rule 4 (block_regex CodeBlock_R) None CodeBlock_parse CodeBlock_html),
      (''fence'', mk_rule 5 (block_regex Fence_R) None Fence_parse Rule_html),
      (''blockQuote'', mk_rule 6 (block_regex BlockQuote_R) None BlockQuote_parse (content_html ''blockquote'' [])),
      (''list'', mk_rule 7 List_match None List_parse List_html),
      (''def'', mk_rule 8 (block_regex Def_R) None Def_parse Def_html),
      (''table'', mk_rule 9 (block_regex TABLE_REGEX) None (parse_table True) Table_html),
      (''newline'', mk_rule 10 (block_regex NewLine_R) None NewLine_parse NewLine_html),
      (''paragraph'', mk_rule 11 (block_regex Paragraph_R) None parse_capture_inline
          (content_html ''div'' [(''class'', PStr ''paragraph'')])),
      (''escape'', mk_rule 12 (inline_regex Escape_R) None Escape_parse Rule_html),
      (''tableSeparator'', mk_rule 13 TableSeparator_match None TableSeparator_parse TableSeparator_html),
      (''autolink'', mk_rule 14 (inline_regex AutoLink_R) None AutoLink_parse Rule_html),
      (''mailto'', mk_rule 15 (inline_regex MailTo_R) None MailTo_parse Rule_html),
      (''url'', mk_rule 16 (inline_regex URL_R) None URL_parse Rule_html),
      (''link'', mk_rule 17 (inline_regex Link_R) None Link_parse Link_html),
      (''image'', mk_rule 18 (inline_regex Image_R) None Image_parse Image_html),
      (''reflink'', mk_rule 19 (inline_regex RefLink_R) None RefLink_parse Rule_html),
      (''refimage'', mk_rule 20 (inline_regex RefImage_R) None RefImage_parse Rule_html),
      (''em'', mk_rule 21 (inline_regex Em_R) (Some Em_quality) Em_parse (content_html ''em'' [])),
      (''strong'', mk_rule 21 (inline_regex Strong_R) (Some Strong_quality) parse_capture_inline
          (content_html ''strong'' [])),
      (''u'', mk_rule 21 (inline_regex U_R) (Some U_quality) parse_capture_inline (content_html ''u'' [])),
      (''del'', mk_rule 22 (inline_regex Del_R) None parse_capture_inline (content_html ''del'' [])),
      (''inlineCode'', mk_rule 23 (inline_regex InlineCode_R) None InlineCode_parse InlineCode_html),
      (''br'', mk_rule 24 (any_scope_regex Br_R) None Br_parse Br_html),
      (''text'', mk_rule 25 (any_scope_regex Text_R) None Text_parse Text_html)]"

section \<open>The parse engine (\<^verbatim>\<open>parser_for\<close>)\<close>

text \<open>
  \<^verbatim>\<open>filter_rules\<close>: whether the rule stays in the list, and what the call prints.
\<close>

definition filter_rules :: "(string \<times> rule) list \<Rightarrow> string \<Rightarrow> bool \<times> string list" where
  "filter_rules rules rule_type =
     (case map_of rules rule_type of
        None \<Rightarrow> (False, [])
      | Some rule \<Rightarrow>
          if r_match rule = None then (False, [])
          else (True,
                if is_number (r_order rule) then []
                else [''Invalid order for rule '' @ [CHR 0x60] @ rule_type @ [CHR 0x60] @ '': ''
                        @ str_order (r_order rule)]))"

text \<open>\<^verbatim>\<open>rule_list = list(filter(filter_rules, rules.keys()))\<close>, and the lines printed.\<close>

definition filtered_rule_list :: "(string \<times> rule) list \<Rightarrow> string list" where
  "filtered_rule_list rules = filter (\<lambda>t. fst (filter_rules rules t)) (map fst rules)"


text \<open>
  \<^verbatim>\<open>sort_rules\<close>. \<^verbatim>\<open>order_a - order_b\<close> is defined on two numbers; when one of the two is
  \<^verbatim>\<open>None\<close> or a string Python raises \<^verbatim>\<open>TypeError\<close>.
\<close>

definition py_minus :: "ordval \<Rightarrow> ordval \<Rightarrow> error + int" where
  "py_minus a b =
     (case num_of a of
        None \<Rightarrow> Inl TypeError
      | Some x \<Rightarrow> (case num_of b of None \<Rightarrow> Inl TypeError | Some y \<Rightarrow> Inr (x - y)))"

definition sort_rules :: "(string \<times> rule) list \<Rightarrow> string \<Rightarrow> string \<Rightarrow> error + int" where
  "sort_rules rules rule_type_a rule_type_b =
     (case map_of rules rule_type_a of
        None \<Rightarrow> Inl (KeyError rule_type_a)
      | Some rule_a \<Rightarrow>
          (case map_of rules rule_type_b of
             None \<Rightarrow> Inl (KeyError rule_type_b)
           | Some rule_b \<Rightarrow>
               if \<not> py_eq (r_order rule_a) (r_order rule_b)
               then py_minus (r_order rule_a) (r_order rule_b)
               else
                 (let secondary_order_a = (if r_quality rule_a \<noteq> None then 0 else 1 :: int);
                      secondary_order_b = (if r_quality rule_b \<noteq> None then 0 else 1 :: int)
                  in if secondary_order_a \<noteq> secondary_order_b
                     then Inr (secondary_order_a - secondary_order_b)
                     else if str_less rule_type_a rule_type_b then Inr (- 1)
                     else if str_less rule_type_b rule_type_a then Inr 1
                     else Inr 0)))"

text \<open>
  \<^verbatim>\<open>rule_list.sort(key=cmp_to_key(sort_rules))\<close>, as a stable insertion sort: an element
  goes before the first element it is less than. \<^verbatim>\<open>list.sort\<close> is a stable merge sort
  that sorts short lists by binary insertion; where no comparison raises and the
  comparison is a total order, every stable sort returns the same list. An exception of
  a comparison ends the sort. Both sorts compare every element of a list of two or more
  with an element handled before it, so both raise when the list has two rules of
  different orders of which one is not a number: a comparison of two such rules raises
  \<^verbatim>\<open>TypeError\<close>, and a sort without one would have compared rules of one order only.
\<close>

fun insert_rule :: "(string \<Rightarrow> string \<Rightarrow> error + int) \<Rightarrow> string \<Rightarrow> string list \<Rightarrow> error + string list" where
  "insert_rule cmp x [] = Inr [x]"
| "insert_rule cmp x (y # ys) =
     (case cmp x y of
        Inl e \<Rightarrow> Inl e
      | Inr c \<Rightarrow>
          if c < 0 then Inr (x # y # ys)
          else (case insert_rule cmp x ys of Inl e \<Rightarrow> Inl e | Inr zs \<Rightarrow> Inr (y # zs)))"

fun sort_by :: "(string \<Rightarrow> string \<Rightarrow> error + int) \<Rightarrow> string list \<Rightarrow> string list \<Rightarrow> error + string list" where
  "sort_by cmp acc [] = Inr acc"
| "sort_by cmp acc (x # xs) =
     (case insert_rule cmp x acc of Inl e \<Rightarrow> Inl e | Inr acc' \<Rightarrow> sort_by cmp acc' xs)"

definition sorted_rule_list :: "(string \<times> rule) list \<Rightarrow> error + string list" where
  "sorted_rule_list rules = sort_by (sort_rules rules) [] (filtered_rule_list rules)"

text \<open>
  The inner \<^verbatim>\<open>while\<close> of \<^verbatim>\<open>nested_parse\<close>, which selects the rule. The list argument holds
  the rules from index \<open>i\<close> on; \<open>first\<close> is \<^verbatim>\<open>not i\<close>; \<open>best\<close> is the triple
  \<^verbatim>\<open>(rule_type, rule, capture)\<close>, \<open>None\<close> while \<^verbatim>\<open>capture\<close> is \<^verbatim>\<open>None\<close>. The loop assigns the
  global \<^verbatim>\<open>current_order\<close> at the top of every iteration and reads it only in the loop
  test, after the first iteration: \<open>cur_order\<close> is its value there. A match object is
  always true in Python, so \<^verbatim>\<open>if current_capture\<close> tests for \<^verbatim>\<open>None\<close>.
\<close>

fun scan_rules :: "(string \<times> rule) list \<Rightarrow> string \<Rightarrow> pstate \<Rightarrow> bool \<Rightarrow> ordval
      \<Rightarrow> (string \<times> rule \<times> capture) option \<Rightarrow> rat \<Rightarrow> string list
      \<Rightarrow> error + (string \<times> rule \<times> capture) option" where
  "scan_rules rules source state first cur_order best quality [] = Inr best"
| "scan_rules rules source state first cur_order best quality (current_rule_type # others) =
     (case map_of rules current_rule_type of
        None \<Rightarrow> Inl (KeyError current_rule_type)
      | Some current_rule \<Rightarrow>
          if first \<or> best = None \<or> (py_eq (r_order current_rule) cur_order \<and> r_quality current_rule \<noteq> None)
          then
            (case r_match current_rule of
               None \<Rightarrow> Inl AttributeError
             | Some m \<Rightarrow>
                 (case m source state (prev_string state) of
                    None \<Rightarrow>
                      scan_rules rules source state False (r_order current_rule) best quality others
                  | Some current_capture \<Rightarrow>
                      (let current_quality =
                             (case r_quality current_rule of
                                None \<Rightarrow> 0
                              | Some q \<Rightarrow> q current_capture state (prev_string state))
                       in if \<not> (current_quality \<le> quality)
                          then scan_rules rules source state False (r_order current_rule)
                                 (Some (current_rule_type, current_rule, current_capture))
                                 current_quality others
                          else scan_rules rules source state False (r_order current_rule)
                                 best quality others)))
          else Inr best)"

text \<open>
  What \<^verbatim>\<open>nested_parse\<close> does with the value a rule's \<^verbatim>\<open>parse\<close> returns: a list is kept
  as it is, a node without a type gets the name of the rule.
\<close>

definition with_type :: "pyval \<Rightarrow> string \<Rightarrow> pstate \<Rightarrow> error + (pyval \<times> pstate)" where
  "with_type parsed rule_type state =
     (case parsed of
        PList xs \<Rightarrow> Inr (parsed, state)
      | _ \<Rightarrow>
          (case node_dict state parsed of
             None \<Rightarrow> Inl AttributeError
           | Some kvs \<Rightarrow>
               (case map_of kvs ''type'' of
                  None \<Rightarrow> Inr (node_set state parsed ''type'' (PStr rule_type))
                | Some t \<Rightarrow>
                    if t = PNone then Inr (node_set state parsed ''type'' (PStr rule_type))
                    else Inr (parsed, state))))"

text \<open>
  \<^verbatim>\<open>nested_parse\<close>. The outer \<^verbatim>\<open>while source\<close> is the recursion on the rest of the source,
  and the function is its own argument \<^verbatim>\<open>parse\<close> of the rules. The first argument after
  the rule list bounds the number of loop iterations and nested calls on a path; the
  result is \<open>Inl OutOfFuel\<close> when the bound is reached. A match object's \<^verbatim>\<open>pos\<close> is the
  start of the region searched, which is 0 for every call of \<^verbatim>\<open>re.match\<close> in the program,
  so the test \<^verbatim>\<open>if capture.pos\<close> never raises.
\<close>

primrec nested_parse :: "(string \<times> rule) list \<Rightarrow> string list \<Rightarrow> nat \<Rightarrow> string \<Rightarrow> pstate
      \<Rightarrow> error + (pyval list \<times> pstate)" where
  "nested_parse rules rule_list 0 source state =
     (if source = [] then Inr ([], state) else Inl OutOfFuel)"
| "nested_parse rules rule_list (Suc n) source state =
     (if source = [] then Inr ([], state)
      else if rule_list = [] then Inl IndexError
      else
        (case scan_rules rules source state True ONone None (- 1) rule_list of
           Inl e \<Rightarrow> Inl e
         | Inr None \<Rightarrow> Inl (NoMatchingRule (last rule_list) source)
         | Inr (Some (rule_type, rule, capture)) \<Rightarrow>
             (case r_parse rule capture (nested_parse rules rule_list n) state of
                Inl e \<Rightarrow> Inl e
              | Inr (parsed, state1) \<Rightarrow>
                  (case with_type parsed rule_type state1 of
                     Inl e \<Rightarrow> Inl e
                   | Inr (node, state2) \<Rightarrow>
                       (case nested_parse rules rule_list n (drop (length (whole capture)) source)
                               (state2\<lparr>previous_capture := Some capture\<rparr>) of
                          Inl e \<Rightarrow> Inl e
                        | Inr (result, state3) \<Rightarrow> Inr (node # result, state3))))))"

text \<open>
  \<^verbatim>\<open>outer_parse\<close>. \<^verbatim>\<open>default_state\<close> is \<^verbatim>\<open>{}\<close> wherever the program builds a parser, so
  \<^verbatim>\<open>populate_initial_state\<close> returns the state it is given.
\<close>

definition outer_parse :: "(string \<times> rule) list \<Rightarrow> string list \<Rightarrow> nat \<Rightarrow> string \<Rightarrow> pstate
      \<Rightarrow> error + (pyval list \<times> pstate)" where
  "outer_parse rules rule_list fuel source state =
     nested_parse rules rule_list fuel
       (preprocess (if \<not> inline state \<and> \<not> disable_auto_block_newlines state
                    then source @ [NL, NL] else source))
       (state\<lparr>previous_capture := None\<rparr>)"

definition parser_for :: "(string \<times> rule) list \<Rightarrow> nat \<Rightarrow> string \<Rightarrow> pstate \<Rightarrow> error + (pyval list \<times> pstate)" where
  "parser_for rules fuel source state =
     (case sorted_rule_list rules of
        Inl e \<Rightarrow> Inl e
      | Inr rule_list \<Rightarrow> outer_parse rules rule_list fuel source state)"

section \<open>The output engine (\<^verbatim>\<open>output_for\<close>), format \<^verbatim>\<open>html\<close>\<close>

text \<open>
  \<^verbatim>\<open>nested_output\<close> of \<^verbatim>\<open>output_for(rules, 'html')\<close>; the first argument after the rules
  bounds the depth of the calls.
\<close>

definition array_rule_html :: "(string \<times> rule) list \<Rightarrow> pyval \<Rightarrow> renderer \<Rightarrow> error + string" where
  "array_rule_html rules = (case map_of rules ''Array'' of None \<Rightarrow> Array_html | Some r \<Rightarrow> r_html r)"

primrec nested_output :: "(string \<times> rule) list \<Rightarrow> nat \<Rightarrow> pyval \<Rightarrow> error + string" where
  "nested_output rules 0 ast = Inl OutOfFuel"
| "nested_output rules (Suc n) ast =
     (case ast of
        PList xs \<Rightarrow> array_rule_html rules ast (nested_output rules n)
      | _ \<Rightarrow>
          (case dget ast ''type'' of
             Inl e \<Rightarrow> Inl e
           | Inr (PStr t) \<Rightarrow>
               (case map_of rules t of
                  None \<Rightarrow> Inl (KeyError t)
                | Some r \<Rightarrow> r_html r ast (nested_output rules n))
           | Inr _ \<Rightarrow> Inl (KeyError [])))"

section \<open>The default parser and renderer\<close>

text \<open>
  The state \<^verbatim>\<open>{}\<close>. (The parse functions of the source have the default argument
  \<^verbatim>\<open>state = {}\<close>, one dictionary shared by all calls that pass no state; the functions
  here take the state as an argument.)
\<close>

definition empty_state :: pstate where
  "empty_state = \<lparr>inline = False, st_list = False, in_table = False,
     disable_auto_block_newlines = False, previous_capture = None,
     st_defs = [], st_refs = [], heap = []\<rparr>"

definition default_raw_parse :: "nat \<Rightarrow> string \<Rightarrow> pstate \<Rightarrow> error + (pyval list \<times> pstate)" where
  "default_raw_parse = parser_for default_rules"

definition default_block_parse :: "nat \<Rightarrow> string \<Rightarrow> pstate \<Rightarrow> error + (pyval list \<times> pstate)" where
  "default_block_parse fuel source state = default_raw_parse fuel source (state\<lparr>inline := False\<rparr>)"

definition default_inline_parse :: "nat \<Rightarrow> string \<Rightarrow> pstate \<Rightarrow> error + (pyval list \<times> pstate)" where
  "default_inline_parse fuel source state = default_raw_parse fuel source (state\<lparr>inline := True\<rparr>)"

definition implicit_inline :: "string \<Rightarrow> bool" where
  "implicit_inline source = (re_match BLOCK_END_R source = None)"

definition default_implicit_parse :: "nat \<Rightarrow> string \<Rightarrow> pstate \<Rightarrow> error + (pyval list \<times> pstate)" where
  "default_implicit_parse fuel source state =
     default_raw_parse fuel source (state\<lparr>inline := implicit_inline source\<rparr>)"

definition default_html_output :: "nat \<Rightarrow> pyval \<Rightarrow> error + string" where
  "default_html_output = nested_output default_rules"

text \<open>
  \<open>parsed_tree\<close> is the list a parse function returns, as its caller sees it: with every
  node that lives on the heap in its place.
\<close>

definition parsed_tree :: "error + (pyval list \<times> pstate) \<Rightarrow> error + pyval list" where
  "parsed_tree r = (case r of Inl e \<Rightarrow> Inl e | Inr p \<Rightarrow> Inr (tree_of p))"

definition markdown_to_html :: "nat \<Rightarrow> string \<Rightarrow> pstate \<Rightarrow> error + string" where
  "markdown_to_html fuel source state =
     (case parsed_tree (default_block_parse fuel source state) of
        Inl e \<Rightarrow> Inl e
      | Inr tree \<Rightarrow> default_html_output fuel (PList tree))"

section \<open>Notions used to state the properties\<close>

text \<open>The type strings of all nodes of a tree, at any depth, in the order of the tree.\<close>

fun types_of :: "pyval \<Rightarrow> string list" where
  "types_of (PList xs) = concat (map types_of xs)"
| "types_of (PDict kvs) =
     (case map_of kvs ''type'' of Some (PStr t) \<Rightarrow> [t] | _ \<Rightarrow> [])
       @ concat (map (\<lambda>kv. types_of (snd kv)) kvs)"
| "types_of v = []"

text \<open>
  \<open>only_on p r\<close>: the pattern \<open>r\<close> matches only where the text ahead starts with a
  character that satisfies \<open>p\<close>.
\<close>

definition only_on :: "(char \<Rightarrow> bool) \<Rightarrow> regex \<Rightarrow> bool" where
  "only_on p r =
     (\<forall>adv sn s. (case s of [] \<Rightarrow> True | c # _ \<Rightarrow> \<not> p c) \<longrightarrow> match_at r adv sn s = None)"

text \<open>The five characters that \<^verbatim>\<open>SANITIZE_TEXT_R\<close> matches.\<close>

definition special_char :: "char \<Rightarrow> bool" where
  "special_char c = (c \<in> set [CHR ''<'', CHR ''>'', CHR ''&'', DQ, SQ])"

text \<open>
  A rule table with a single rule whose \<^verbatim>\<open>order\<close> is \<^verbatim>\<open>None\<close>; its \<^verbatim>\<open>match\<close> and \<^verbatim>\<open>parse\<close>
  are those of the rule \<^verbatim>\<open>text\<close>.
\<close>

definition unordered_rules :: "(string \<times> rule) list" where
  "unordered_rules =
     [(''x'', \<lparr>r_order = ONone, r_match = Some (any_scope_regex Text_R), r_quality = None,
              r_parse = Text_parse, r_html = Text_html\<rparr>)]"

text \<open>
  \<open>refs_of st name\<close> is the list \<^verbatim>\<open>state['_refs'][name]\<close> of the reference nodes registered
  under \<open>name\<close>, as addresses of the heap; empty when the name has no entry.
\<close>

definition refs_of :: "pstate \<Rightarrow> string \<Rightarrow> nat list" where
  "refs_of st name = (case map_of (st_refs st) name of None \<Rightarrow> [] | Some as \<Rightarrow> as)"

text \<open>
  \<open>resolved st\<close>, the invariant of the two registries: every registered address holds a
  node; no address is registered under two names; every entry of \<^verbatim>\<open>state['_defs']\<close> is a
  dictionary of a target and a title, and every node registered under the name of the
  entry has that target and that title.
\<close>

definition resolved :: "pstate \<Rightarrow> bool" where
  "resolved st =
     ((\<forall>n. \<forall>a\<in>set (refs_of st n). node_dict st (PRef a) \<noteq> None) \<and>
      (\<forall>n m. \<forall>a\<in>set (refs_of st n). a \<in> set (refs_of st m) \<longrightarrow> n = m) \<and>
      (\<forall>n d. map_of (st_defs st) n = Some d \<longrightarrow>
         (\<exists>t ti. d = PDict [(''target'', t), (''title'', ti)] \<and>
            (\<forall>a\<in>set (refs_of st n). node_get st (PRef a) ''target'' = Some t \<and>
                                       node_get st (PRef a) ''title'' = Some ti))))"

text \<open>
  \<open>reg_step st st'\<close>: going from \<open>st\<close> to \<open>st'\<close> keeps the invariant and every registration.
  A parser is good when each of its runs that returns is such a step, and a rule is good
  when its \<^verbatim>\<open>parse\<close> is such a step for every good parser it is given.
\<close>

definition reg_step :: "pstate \<Rightarrow> pstate \<Rightarrow> bool" where
  "reg_step st st' =
     ((resolved st \<longrightarrow> resolved st') \<and> (\<forall>n. set (refs_of st n) \<subseteq> set (refs_of st' n)))"

definition good_parser :: "parser \<Rightarrow> bool" where
  "good_parser p = (\<forall>src st r st'. p src st = Inr (r, st') \<longrightarrow> reg_step st st')"

definition good_parse :: "(capture \<Rightarrow> parser \<Rightarrow> pstate \<Rightarrow> error + (pyval \<times> pstate)) \<Rightarrow> bool" where
  "good_parse f =
     (\<forall>p cap st v st'. good_parser p \<longrightarrow> f cap p st = Inr (v, st') \<longrightarrow> reg_step st st')"




section \<open>The joiner of the element format (\<^verbatim>\<open>Array.react\<close>)\<close>

text \<open>
  The render state: \<open>st_key\<close> is \<^verbatim>\<open>state['key']\<close>, \<open>None\<close> when the state has no such key.
  The argument \<^verbatim>\<open>output\<close> is any function of a node and the state; it may return a value
  and a state, raise, or not return at all (\<open>None\<close>).
\<close>

record rstate =
  st_key :: "pyval option"

type_synonym react_output = "pyval \<Rightarrow> rstate \<Rightarrow> (error + (pyval \<times> rstate)) option"

text \<open>
  The \<^verbatim>\<open>while i < len(arr)\<close> of \<^verbatim>\<open>Array.react\<close>. Its body sets \<^verbatim>\<open>state['key'] = str(i)\<close>,
  merges the text nodes that follow a text node (advancing \<open>i\<close> to the last of them),
  appends \<^verbatim>\<open>output(node, state)\<close> and increments \<^verbatim>\<open>key\<close>. Unlike the loop of
  \<^verbatim>\<open>Array.html\<close> it has no \<^verbatim>\<open>i += 1\<close>. The loop may not terminate, so the function
  returns an option and \<open>None\<close> stands for a run that never returns.
\<close>

partial_function (option) Array_react_loop ::
  "pyval list \<Rightarrow> react_output \<Rightarrow> nat \<Rightarrow> nat \<Rightarrow> pyval list \<Rightarrow> rstate
     \<Rightarrow> (error + (pyval list \<times> rstate)) option" where
  "Array_react_loop arr output i key result state =
     (if i < length arr then
        (case merged_node arr i of
           Inl e \<Rightarrow> Some (Inl e)
         | Inr (node, k) \<Rightarrow>
             (case output node (state\<lparr>st_key := Some (PStr (str_of_nat i))\<rparr>) of
                None \<Rightarrow> None
              | Some (Inl e) \<Rightarrow> Some (Inl e)
              | Some (Inr (r, state')) \<Rightarrow>
                  Array_react_loop arr output (i + k) (key + 1) (result @ [r]) state'))
      else Some (Inr (result, state)))"

definition Array_react :: "pyval \<Rightarrow> react_output \<Rightarrow> rstate \<Rightarrow> (error + (pyval \<times> rstate)) option" where
  "Array_react arr output state =
     (case st_key state of
        None \<Rightarrow> Some (Inl (KeyError ''key''))
      | Some old_key \<Rightarrow>
          (case arr of
             PList nodes \<Rightarrow>
               (case Array_react_loop nodes output 0 0 [] state of
                  None \<Rightarrow> None
                | Some (Inl e) \<Rightarrow> Some (Inl e)
                | Some (Inr (result, state')) \<Rightarrow>
                    Some (Inr (PList result, state'\<lparr>st_key := Some old_key\<rparr>)))
           | _ \<Rightarrow> Some (Inl TypeError)))"

text \<open>A renderer that returns the node it is given and leaves the state alone.\<close>

definition echo_output :: react_output where
  "echo_output node state = Some (Inr (node, state))"

section \<open>Properties of the preprocessor\<close>

lemma search_absent: "only_at x r \<Longrightarrow> x \<notin> set s \<Longrightarrow> search r adv sn s = None"
proof (induction s arbitrary: adv sn)
  case Nil
  then have "match_at r adv sn [] = None" by (simp add: only_at_def)
  then show ?case by (simp add: search.simps[of r adv sn "[]"])
next
  case (Cons c cs)
  then have "match_at r adv sn (c # cs) = None" by (auto simp: only_at_def)
  moreover from Cons have "search r False (c # sn) cs = None" by simp
  ultimately show ?case by (simp add: search.simps[of r adv sn "c # cs"])
qed

lemma search_None_absent: "always_at x r \<Longrightarrow> search r adv sn s = None \<Longrightarrow> x \<notin> set s"
proof (induction s arbitrary: adv sn)
  case Nil
  then show ?case by simp
next
  case (Cons c cs)
  from Cons.prems(2) have m: "match_at r adv sn (c # cs) = None" and s: "search r False (c # sn) cs = None"
    by (auto simp: search.simps[of r adv sn "c # cs"] split: option.splits)
  have "c \<noteq> x"
  proof
    assume "c = x"
    with m have "match_at r adv sn (x # cs) = None" by simp
    with Cons.prems(1) show False unfolding always_at_def by blast
  qed
  with Cons.IH[OF Cons.prems(1) s] show ?case by simp
qed

lemma search_skipped: "always_at x r \<Longrightarrow> search r adv sn s = Some (k, m) \<Longrightarrow> x \<notin> set (take k s)"
proof (induction s arbitrary: adv sn k)
  case Nil
  then show ?case by simp
next
  case (Cons c cs)
  show ?case
  proof (cases "match_at r adv sn (c # cs)")
    case (Some m')
    with Cons.prems(2) show ?thesis by (simp add: search.simps[of r adv sn "c # cs"])
  next
    case None
    have cx: "c \<noteq> x"
    proof
      assume "c = x"
      with None have "match_at r adv sn (x # cs) = None" by simp
      with Cons.prems(1) show False unfolding always_at_def by blast
    qed
    from None Cons.prems(2) obtain k' where k: "k = Suc k'" and s: "search r False (c # sn) cs = Some (k', m)"
      by (auto simp: search.simps[of r adv sn "c # cs"] split: option.splits)
    from Cons.IH[OF Cons.prems(1) s] cx k show ?thesis by simp
  qed
qed

lemma sub_loop_removes:
  "always_at x r \<Longrightarrow> x \<notin> set t \<Longrightarrow> x \<notin> set (sub_loop r (const_repl t) 0 n adv sn s)"
proof (induction r "const_repl t" "0::nat" n adv sn s rule: sub_loop.induct)
  case (1 r n must_advance sn s)
  show ?case
  proof (cases "search r must_advance sn s")
    case None
    with search_None_absent[OF "1.prems"(1) None] show ?thesis
      by (subst sub_loop.simps) simp
  next
    case (Some km)
    obtain k m where km: "km = (k, m)" by (cases km)
    from "1.hyps"[OF _ Some[unfolded km] refl "1.prems"]
    have ih: "x \<notin> set (sub_loop r (const_repl t) 0 (Suc n) (whole m = [])
                 (rev (take (k + length (whole m)) s) @ sn) (drop (k + length (whole m)) s))" by simp
    from search_skipped[OF "1.prems"(1) Some[unfolded km]] have "x \<notin> set (take k s)" .
    with ih "1.prems"(2) Some km show ?thesis
      by (subst sub_loop.simps) (simp add: const_repl_def)
  qed
qed

lemma sub_loop_id: "only_at x r \<Longrightarrow> x \<notin> set s \<Longrightarrow> sub_loop r repl c n adv sn s = s"
  by (subst sub_loop.simps) (simp add: search_absent)

lemma sub_loop_keeps_absent:
  "y \<notin> set s \<Longrightarrow> y \<notin> set t \<Longrightarrow> y \<notin> set (sub_loop r (const_repl t) c n adv sn s)"
proof (induction r "const_repl t" c n adv sn s rule: sub_loop.induct)
  case (1 r count n must_advance sn s)
  show ?case
  proof (cases "count \<noteq> 0 \<and> count \<le> n")
    case True
    with "1.prems" show ?thesis by (subst sub_loop.simps) simp
  next
    case False
    show ?thesis
    proof (cases "search r must_advance sn s")
      case None
      with "1.prems" show ?thesis by (subst sub_loop.simps) simp
    next
      case (Some km)
      obtain k m where km: "km = (k, m)" by (cases km)
      have d: "y \<notin> set (drop (k + length (whole m)) s)" using "1.prems"(1) by (meson in_set_dropD)
      have tk: "y \<notin> set (take k s)" using "1.prems"(1) by (meson in_set_takeD)
      from "1.hyps"[OF False Some[unfolded km] refl d "1.prems"(2)] tk "1.prems" Some km False
      show ?thesis by (subst sub_loop.simps) (auto simp: const_repl_def)
    qed
  qed
qed

lemma ms_Chr_hit: "ms (Chr x) \<lparr>seen = sn, rest = x # cs, groups = g\<rparr> = [\<lparr>seen = x # sn, rest = cs, groups = g\<rparr>]"
  by (simp add: step1_def)

lemma ms_Chr_miss: "(case s of [] \<Rightarrow> True | c # _ \<Rightarrow> c \<noteq> x) \<Longrightarrow> ms (Chr x) \<lparr>seen = sn, rest = s, groups = g\<rparr> = []"
  by (auto simp: step1_def split: list.splits)

lemma always_Chr: "always_at x (Chr x)"
  by (simp add: always_at_def match_at_def step1_def advanced_def)

lemma only_Chr: "only_at x (Chr x)"
  by (auto simp: only_at_def match_at_def step1_def split: list.splits)

lemma only_Cat_Chr: "only_at x (Cat (Chr x) r)"
  by (auto simp: only_at_def match_at_def step1_def split: list.splits)

lemma find_append_last: "P y \<Longrightarrow> find P (xs @ [y]) \<noteq> None"
  by (auto simp: find_None_iff)

lemma always_CR: "always_at CR CR_NEWLINE_R"
  unfolding always_at_def CR_NEWLINE_R_def
proof (intro allI)
  fix adv sn cs
  let ?st0 = "\<lparr>seen = sn, rest = CR # cs, groups = []\<rparr>"
  let ?st1 = "\<lparr>seen = CR # sn, rest = cs, groups = []\<rparr>"
  have "\<exists>xs. ms (Opt (Chr NL)) ?st1 = xs @ [?st1]"
    by (cases cs) auto
  then obtain xs where xs: "ms (Opt (Chr NL)) ?st1 = xs @ [?st1]" ..
  have "ms (Cat (Chr CR) (Opt (Chr NL))) ?st0 = concat (map (ms (Opt (Chr NL))) (ms (Chr CR) ?st0))"
    by (rule ms.simps)
  also have "ms (Chr CR) ?st0 = [?st1]" by (simp add: step1_def)
  finally have "ms (Cat (Chr CR) (Opt (Chr NL))) ?st0 = xs @ [?st1]"
    using xs by (simp del: ms.simps)
  moreover have "advanced adv (CR # cs) ?st1" by (simp add: advanced_def)
  ultimately show "match_at (seq [Chr CR, Opt (Chr NL)]) adv sn (CR # cs) \<noteq> None"
    by (auto simp: match_at_def find_None_iff simp del: ms.simps)
qed

lemma only_CR: "only_at CR CR_NEWLINE_R"
  by (simp add: CR_NEWLINE_R_def only_Cat_Chr)

text \<open>
  Claim C10. \<^verbatim>\<open>preprocess\<close> is idempotent: after one pass the text holds no carriage
  return, form feed or tab, so a second pass changes nothing.
\<close>

theorem preprocess_idempotent: "preprocess (preprocess s) = preprocess s"
proof -
  define a where "a = re_sub CR_NEWLINE_R (const_repl ''    '') s 0"
  define b where "b = re_sub FORMFEED_R (const_repl []) a 0"
  define c where "c = re_sub TAB_R (const_repl [NL]) b 0"
  have p: "preprocess s = c" by (simp add: preprocess_def a_def b_def c_def)
  have a_cr: "CR \<notin> set a" unfolding a_def re_sub_def by (rule sub_loop_removes[OF always_CR]) simp
  have b_cr: "CR \<notin> set b" unfolding b_def re_sub_def by (rule sub_loop_keeps_absent[OF a_cr]) simp
  have c_cr: "CR \<notin> set c" unfolding c_def re_sub_def by (rule sub_loop_keeps_absent[OF b_cr]) simp
  have b_ff: "FF \<notin> set b" unfolding b_def re_sub_def FORMFEED_R_def by (rule sub_loop_removes[OF always_Chr]) simp
  have c_ff: "FF \<notin> set c" unfolding c_def re_sub_def by (rule sub_loop_keeps_absent[OF b_ff]) simp
  have c_tab: "TAB \<notin> set c" unfolding c_def re_sub_def TAB_R_def by (rule sub_loop_removes[OF always_Chr]) simp
  have 1: "re_sub CR_NEWLINE_R (const_repl ''    '') c 0 = c"
    unfolding re_sub_def by (rule sub_loop_id[OF only_CR c_cr])
  have 2: "re_sub FORMFEED_R (const_repl []) c 0 = c"
    unfolding re_sub_def FORMFEED_R_def by (rule sub_loop_id[OF only_Chr c_ff])
  have 3: "re_sub TAB_R (const_repl [NL]) c 0 = c"
    unfolding re_sub_def TAB_R_def by (rule sub_loop_id[OF only_Chr c_tab])
  have "preprocess c = c" by (simp add: preprocess_def 1 2 3)
  with p show ?thesis by simp
qed


section \<open>The sorted rule list of the default rules\<close>

text \<open>
  The look-up of every key of \<^verbatim>\<open>default_rules\<close>, and the rule list that \<^verbatim>\<open>parser_for\<close>
  builds from the table: all 29 entries (also \<^verbatim>\<open>Array\<close>, which inherits \<^verbatim>\<open>match\<close> from
  \<^verbatim>\<open>Rule\<close>), sorted by order, then rules with a \<^verbatim>\<open>quality\<close> first, then by name.
\<close>

lemma default_rules_keys:
  "map fst default_rules =
     [''Array'', ''heading'', ''nptable'', ''lheading'', ''hr'', ''codeBlock'', ''fence'', ''blockQuote'', ''list'', ''def'', ''table'', ''newline'', ''paragraph'', ''escape'', ''tableSeparator'', ''autolink'', ''mailto'', ''url'', ''link'', ''image'', ''reflink'', ''refimage'', ''em'', ''strong'', ''u'', ''del'', ''inlineCode'', ''br'', ''text'']"
  by (simp add: default_rules_def)

lemma default_rules_lookup:
  "map_of default_rules ''Array'' = Some (mk_rule 0 Rule_match None Rule_parse Array_html)"
  "map_of default_rules ''heading'' = Some (mk_rule 0 (block_regex Heading_R) None Heading_parse Heading_html)"
  "map_of default_rules ''nptable'' = Some (mk_rule 1 (block_regex NPTABLE_REGEX) None (parse_table False) Rule_html)"
  "map_of default_rules ''lheading'' = Some (mk_rule 2 (block_regex LHeading_R) None LHeading_parse Rule_html)"
  "map_of default_rules ''hr'' = Some (mk_rule 3 (block_regex HR_R) None HR_parse HR_html)"
  "map_of default_rules ''codeBlock'' = Some (mk_rule 4 (block_regex CodeBlock_R) None CodeBlock_parse CodeBlock_html)"
  "map_of default_rules ''fence'' = Some (mk_rule 5 (block_regex Fence_R) None Fence_parse Rule_html)"
  "map_of default_rules ''blockQuote'' = Some (mk_rule 6 (block_regex BlockQuote_R) None BlockQuote_parse (content_html ''blockquote'' []))"
  "map_of default_rules ''list'' = Some (mk_rule 7 List_match None List_parse List_html)"
  "map_of default_rules ''def'' = Some (mk_rule 8 (block_regex Def_R) None Def_parse Def_html)"
  "map_of default_rules ''table'' = Some (mk_rule 9 (block_regex TABLE_REGEX) None (parse_table True) Table_html)"
  "map_of default_rules ''newline'' = Some (mk_rule 10 (block_regex NewLine_R) None NewLine_parse NewLine_html)"
  "map_of default_rules ''paragraph'' = Some (mk_rule 11 (block_regex Paragraph_R) None parse_capture_inline (content_html ''div'' [(''class'', PStr ''paragraph'')]))"
  "map_of default_rules ''escape'' = Some (mk_rule 12 (inline_regex Escape_R) None Escape_parse Rule_html)"
  "map_of default_rules ''tableSeparator'' = Some (mk_rule 13 TableSeparator_match None TableSeparator_parse TableSeparator_html)"
  "map_of default_rules ''autolink'' = Some (mk_rule 14 (inline_regex AutoLink_R) None AutoLink_parse Rule_html)"
  "map_of default_rules ''mailto'' = Some (mk_rule 15 (inline_regex MailTo_R) None MailTo_parse Rule_html)"
  "map_of default_rules ''url'' = Some (mk_rule 16 (inline_regex URL_R) None URL_parse Rule_html)"
  "map_of default_rules ''link'' = Some (mk_rule 17 (inline_regex Link_R) None Link_parse Link_html)"
  "map_of default_rules ''image'' = Some (mk_rule 18 (inline_regex Image_R) None Image_parse Image_html)"
  "map_of default_rules ''reflink'' = Some (mk_rule 19 (inline_regex RefLink_R) None RefLink_parse Rule_html)"
  "map_of default_rules ''refimage'' = Some (mk_rule 20 (inline_regex RefImage_R) None RefImage_parse Rule_html)"
  "map_of default_rules ''em'' = Some (mk_rule 21 (inline_regex Em_R) (Some Em_quality) Em_parse (content_html ''em'' []))"
  "map_of default_rules ''strong'' = Some (mk_rule 21 (inline_regex Strong_R) (Some Strong_quality) parse_capture_inline (content_html ''strong'' []))"
  "map_of default_rules ''u'' = Some (mk_rule 21 (inline_regex U_R) (Some U_quality) parse_capture_inline (content_html ''u'' []))"
  "map_of default_rules ''del'' = Some (mk_rule 22 (inline_regex Del_R) None parse_capture_inline (content_html ''del'' []))"
  "map_of default_rules ''inlineCode'' = Some (mk_rule 23 (inline_regex InlineCode_R) None InlineCode_parse InlineCode_html)"
  "map_of default_rules ''br'' = Some (mk_rule 24 (any_scope_regex Br_R) None Br_parse Br_html)"
  "map_of default_rules ''text'' = Some (mk_rule 25 (any_scope_regex Text_R) None Text_parse Text_html)"
  by (simp_all add: default_rules_def)

lemma default_rules_sorted:
  "sorted_rule_list default_rules =
     Inr [''Array'', ''heading'', ''nptable'', ''lheading'', ''hr'', ''codeBlock'', ''fence'', ''blockQuote'', ''list'', ''def'', ''table'', ''newline'', ''paragraph'', ''escape'', ''tableSeparator'', ''autolink'', ''mailto'', ''url'', ''link'', ''image'', ''reflink'', ''refimage'', ''em'', ''strong'', ''u'', ''del'', ''inlineCode'', ''br'', ''text'']"
  by (simp add: sorted_rule_list_def filtered_rule_list_def filter_rules_def default_rules_keys
        default_rules_lookup mk_rule_def sort_rules_def py_minus_def py_eq_def is_number_def num_of_def)

lemma default_raw_parse_code [code]:
  "default_raw_parse fuel source state =
     outer_parse default_rules
       [''Array'', ''heading'', ''nptable'', ''lheading'', ''hr'', ''codeBlock'', ''fence'', ''blockQuote'', ''list'', ''def'', ''table'', ''newline'', ''paragraph'', ''escape'', ''tableSeparator'', ''autolink'', ''mailto'', ''url'', ''link'', ''image'', ''reflink'', ''refimage'', ''em'', ''strong'', ''u'', ''del'', ''inlineCode'', ''br'', ''text'']
       fuel source state"
  by (simp add: default_raw_parse_def parser_for_def default_rules_sorted)

section \<open>Claims about concrete parses\<close>

text \<open>
  Claim C7. Inline-parsing \<^verbatim>\<open>**a**\<close> with the default rules gives exactly one node, of
  type \<^verbatim>\<open>strong\<close>, whose content is the single text node \<^verbatim>\<open>a\<close>; no \<^verbatim>\<open>em\<close> node is
  made. (The pattern of \<^verbatim>\<open>em\<close> does not match this source at all, see \<open>em_no_match\<close>, so
  \<^verbatim>\<open>strong\<close> is the only rule of order 21 with a capture.)
\<close>

theorem strong_wins:
  "parsed_tree (default_inline_parse 10 ''**a**'' empty_state) =
     Inr [PDict [(''content'', PList [PDict [(''content'', PStr ''a''), (''type'', PStr ''text'')]]),
                 (''type'', PStr ''strong'')]]"
  by code_simp

lemma em_no_match: "re_match Em_R ''**a**'' = None"
  by code_simp

text \<open>
  Claim C9. Block-parsing \<^verbatim>\<open>"- a\n- b\n\n"\<close> with the default rules gives exactly one
  node: a list with \<^verbatim>\<open>ordered = False\<close>, \<^verbatim>\<open>start = None\<close> and the two items \<^verbatim>\<open>[text a]\<close>
  and \<^verbatim>\<open>[text b]\<close>.
\<close>

theorem list_example:
  "parsed_tree (default_block_parse 10 (''- a'' @ [NL] @ ''- b'' @ [NL, NL]) empty_state) =
     Inr [PDict [(''ordered'', PBool False), (''start'', PNone),
                 (''items'', PList [PList [PDict [(''content'', PStr ''a''), (''type'', PStr ''text'')]],
                                    PList [PDict [(''content'', PStr ''b''), (''type'', PStr ''text'')]]]),
                 (''type'', PStr ''list'')]]"
  by code_simp

text \<open>
  Claim C1. \<^verbatim>\<open>default_implicit_parse\<close> tests the source with \<^verbatim>\<open>BLOCK_END_R.match\<close>, which
  matches at the start of the string only. The source \<^verbatim>\<open>"a\n\n"\<close> ends in two newlines,
  yet it is parsed in inline mode: the result is three text nodes and no paragraph.
\<close>

theorem implicit_parse_of_block_source:
  "implicit_inline (''a'' @ [NL, NL]) \<and>
   parsed_tree (default_implicit_parse 10 (''a'' @ [NL, NL]) empty_state) =
     Inr [PDict [(''content'', PStr ''a''), (''type'', PStr ''text'')],
          PDict [(''content'', PStr [NL]), (''type'', PStr ''text'')],
          PDict [(''content'', PStr [NL]), (''type'', PStr ''text'')]]"
  by code_simp

text \<open>
  Claim C3. The rule \<^verbatim>\<open>tableSeparator\<close> makes nodes of type \<^verbatim>\<open>table_separator\<close>, which is
  not a key of the rule table. A separator inside emphasis in a table cell stays in the
  tree: for the source \<^verbatim>\<open>"*a|b*\n-|-\n"\<close> the types of the nodes of the tree are
  \<^verbatim>\<open>table, em, text, table_separator, text\<close>, and rendering the tree raises
  \<^verbatim>\<open>KeyError('table_separator')\<close>.
\<close>

theorem separator_type_not_a_rule:
  "map_option types_of
     (case parsed_tree (default_block_parse 10 (''*a|b*'' @ [NL] @ ''-|-'' @ [NL]) empty_state) of
        Inl e \<Rightarrow> None | Inr tree \<Rightarrow> Some (PList tree)) =
     Some [''table'', ''em'', ''text'', ''table_separator'', ''text''] \<and>
   map_of default_rules ''table_separator'' = None \<and>
   markdown_to_html 10 (''*a|b*'' @ [NL] @ ''-|-'' @ [NL]) empty_state = Inl (KeyError ''table_separator'')"
  by code_simp

section \<open>The joiner of the element format\<close>

lemma absorb_text_bound: "absorb_text xs c = Inr (c', k) \<Longrightarrow> k \<le> length xs"
proof (induction xs arbitrary: c c' k)
  case Nil
  then show ?case by simp
next
  case (Cons x xs)
  then show ?case
    by (auto split: sum.splits if_splits pyval.splits prod.splits)
qed

lemma merged_node_bound: "i < length arr \<Longrightarrow> merged_node arr i = Inr (node, k) \<Longrightarrow> i + k < length arr"
  by (auto simp: merged_node_def split: sum.splits if_splits pyval.splits prod.splits
           dest!: absorb_text_bound)

lemma react_loop_never_returns:
  assumes "Array_react_loop arr outp i key result state = Some y"
  shows "i < length arr \<longrightarrow> (\<exists>e. y = Inl e)"
  using assms
proof (rule Array_react_loop.raw_induct[rotated 1,
         where P = "\<lambda>arr outp i key result state y. i < length arr \<longrightarrow> (\<exists>e. y = Inl e)"],
       goal_cases)
  case (1 f arr outp i key result state y)
  show ?case
  proof
    assume lt: "i < length arr"
    show "\<exists>e. y = Inl e"
    proof (cases "merged_node arr i")
      case (Inl e)
      with 1(2) lt show ?thesis by auto
    next
      case (Inr p)
      obtain node k where p: "p = (node, k)" by (cases p)
      from merged_node_bound[OF lt Inr[unfolded p]] have lt': "i + k < length arr" .
      show ?thesis
      proof (cases "outp node (state\<lparr>st_key := Some (PStr (str_of_nat i))\<rparr>)")
        case None
        with 1(2) lt Inr p show ?thesis by simp
      next
        case (Some r)
        show ?thesis
        proof (cases r)
          case (Inl e)
          with 1(2) lt Inr p Some show ?thesis by auto
        next
          case (Inr q)
          obtain v state' where q: "q = (v, state')" by (cases q)
          from 1(2) lt \<open>merged_node arr i = Inr p\<close> p Some Inr q
          have "f arr outp (i + k) (key + 1) (result @ [v]) state' = Some y" by simp
          from 1(1)[OF this] lt' show ?thesis by simp
        qed
      qed
    qed
  qed
qed

lemma Array_react_never_returns:
  "nodes \<noteq> [] \<Longrightarrow> Array_react (PList nodes) outp state \<noteq> Some (Inr x)"
  by (auto simp: Array_react_def split: option.splits sum.splits prod.splits
           dest!: react_loop_never_returns)

lemma react_loop_echo_single:
  assumes "Array_react_loop arr outp i key result state = Some y"
  shows "\<not> (arr = [PDict [(''type'', PStr ''text''), (''content'', PStr ''a'')]] \<and> outp = echo_output \<and> i = 0)"
  using assms
proof (rule Array_react_loop.raw_induct[rotated 1,
         where P = "\<lambda>arr outp i key result state y.
            \<not> (arr = [PDict [(''type'', PStr ''text''), (''content'', PStr ''a'')]] \<and> outp = echo_output \<and> i = 0)"],
       goal_cases)
  case (1 f arr outp i key result state y)
  show ?case
  proof
    assume a: "arr = [PDict [(''type'', PStr ''text''), (''content'', PStr ''a'')]] \<and> outp = echo_output \<and> i = 0"
    then have m: "merged_node arr i = Inr (PDict [(''type'', PStr ''text''), (''content'', PStr ''a'')], 0)"
      by (simp add: merged_node_def dget_def)
    from 1(2) a m have "f arr outp i (key + 1)
        (result @ [PDict [(''type'', PStr ''text''), (''content'', PStr ''a'')]])
        (state\<lparr>st_key := Some (PStr (str_of_nat i))\<rparr>) = Some y"
      by (simp add: echo_output_def)
    from 1(1)[OF this] a show False by simp
  qed
qed

text \<open>
  Claim C4. \<^verbatim>\<open>Array.react\<close> does not terminate on the list of one text node (with a
  renderer that returns at once and a state that has a key): its loop never increments
  \<open>i\<close>. By \<open>Array_react_never_returns\<close> it returns on no list but the empty one.
\<close>

theorem Array_react_diverges:
  "Array_react (PList [PDict [(''type'', PStr ''text''), (''content'', PStr ''a'')]]) echo_output
     \<lparr>st_key = Some (PStr ''0'')\<rparr> = None"
proof -
  let ?loop = "Array_react_loop [PDict [(''type'', PStr ''text''), (''content'', PStr ''a'')]] echo_output 0 0 []
          \<lparr>st_key = Some (PStr ''0'')\<rparr>"
  have "?loop = None"
  proof (cases ?loop)
    case None
    then show ?thesis .
  next
    case (Some y)
    from react_loop_echo_single[OF Some] show ?thesis by simp
  qed
  then show ?thesis by (simp add: Array_react_def)
qed

section \<open>The href of a rendered link\<close>

lemma search_none_on: "only_on p r \<Longrightarrow> list_all (\<lambda>c. \<not> p c) s \<Longrightarrow> search r adv sn s = None"
proof (induction s arbitrary: adv sn)
  case Nil
  then have "match_at r adv sn [] = None" by (simp add: only_on_def)
  then show ?case by (simp add: search.simps[of r adv sn "[]"])
next
  case (Cons c cs)
  then have "match_at r adv sn (c # cs) = None" by (auto simp: only_on_def)
  moreover from Cons have "search r False (c # sn) cs = None" by simp
  ultimately show ?case by (simp add: search.simps[of r adv sn "c # cs"])
qed

lemma only_on_SANITIZE: "only_on special_char SANITIZE_TEXT_R"
  by (auto simp: only_on_def SANITIZE_TEXT_R_def match_at_def step1_def in_set_def special_char_def
           split: list.splits)

lemma sanitize_text_plain: "list_all (\<lambda>c. \<not> special_char c) t \<Longrightarrow> sanitize_text (PStr t) = t"
  unfolding sanitize_text_def re_sub_def
  by (subst sub_loop.simps) (simp add: search_none_on[OF only_on_SANITIZE])

lemma sanitize_href: "sanitize_text (PStr ''href'') = ''href''"
  by (rule sanitize_text_plain) (simp add: special_char_def)

text \<open>
  Claim C2, as amended. \<^verbatim>\<open>Link.html\<close> puts \<^verbatim>\<open>sanitize_text(node['target'])\<close> into the
  attribute \<^verbatim>\<open>href\<close>, \<^verbatim>\<open>html_tag\<close> sanitizes the value once more, and \<^verbatim>\<open>sanitize_url\<close> is
  never applied. So for every link node whose target is a non-empty string without the
  characters \<^verbatim>\<open>< > & " '\<close> (whatever its scheme, \<^verbatim>\<open>javascript:\<close> included) the rendered HTML
  has the target verbatim in \<^verbatim>\<open>href\<close>.
\<close>

theorem Link_html_href_verbatim:
  assumes "dget node ''target'' = Inr (PStr t)" and "t \<noteq> []"
    and "list_all (\<lambda>c. \<not> special_char c) t"
    and "dget_default node ''title'' = Inr title"
    and "dget node ''content'' = Inr c" and "outp c = Inr s"
  shows "Link_html node outp =
           Inr (''<a href='' @ [DQ] @ t @ [DQ] @ attribute_string [(''title'', title)] @ ''>'' @ s @ ''</a>'')"
  using assms
  by (simp add: Link_html_def content_html_def html_tag_def sanitize_text_plain sanitize_href)

lemma text_x_html: "default_html_output 2 (PList [PDict [(''content'', PStr ''x''), (''type'', PStr ''text'')]]) = Inr ''x''"
  by code_simp

theorem Link_html_href_verbatim_witness:
  "Link_html (PDict [(''content'', PList [PDict [(''content'', PStr ''x''), (''type'', PStr ''text'')]]),
                     (''target'', PStr ''javascript:alert(1)''), (''title'', PNone), (''type'', PStr ''link'')])
             (default_html_output 2) =
     Inr (''<a href='' @ [DQ] @ ''javascript:alert(1)'' @ [DQ] @ ''>x</a>'')"
  using Link_html_href_verbatim[of
      "PDict [(''content'', PList [PDict [(''content'', PStr ''x''), (''type'', PStr ''text'')]]),
              (''target'', PStr ''javascript:alert(1)''), (''title'', PNone), (''type'', PStr ''link'')]"
      "''javascript:alert(1)''" PNone
      "PList [PDict [(''content'', PStr ''x''), (''type'', PStr ''text'')]]"
      "default_html_output 2" "''x''"]
  by (simp add: dget_def dget_default_def special_char_def text_x_html)

text \<open>
  The example of the claim: \<^verbatim>\<open>[x](javascript:alert(1))\<close> is parsed into a link node whose
  target is the \<^verbatim>\<open>javascript:\<close> URL, and the rendered HTML has it verbatim.
\<close>

lemma javascript_link_example:
  "parsed_tree (default_block_parse 10 ''[x](javascript:alert(1))'' empty_state) =
     Inr [PDict [(''content'',
                  PList [PDict [(''content'', PList [PDict [(''content'', PStr ''x''), (''type'', PStr ''text'')]]),
                                (''target'', PStr ''javascript:alert(1)''), (''title'', PNone),
                                (''type'', PStr ''link'')]]),
                 (''type'', PStr ''paragraph'')]] \<and>
   markdown_to_html 10 ''[x](javascript:alert(1))'' empty_state =
     Inr (''<div class='' @ [DQ] @ ''paragraph'' @ [DQ] @ ''><a href='' @ [DQ] @ ''javascript:alert(1)'' @ [DQ]
          @ ''>x</a></div>'')"
  by code_simp

text \<open>
  Claim C2, as stated, fails for a \<^verbatim>\<open>javascript:\<close> URL with a quote: the source
  \<^verbatim>\<open>[x](javascript:alert('x'))\<close> is parsed into a link node with the target
  \<^verbatim>\<open>javascript:alert('x')\<close>, and the two passes of \<^verbatim>\<open>sanitize_text\<close> turn each quote into
  \<^verbatim>\<open>&amp;#x27;\<close>: the rendered HTML does not contain the URL.
\<close>

theorem javascript_href_not_verbatim:
  "parsed_tree (default_block_parse 10 (''[x](javascript:alert('' @ [SQ] @ ''x'' @ [SQ] @ ''))'') empty_state) =
     Inr [PDict [(''content'',
                  PList [PDict [(''content'', PList [PDict [(''content'', PStr ''x''), (''type'', PStr ''text'')]]),
                                (''target'', PStr (''javascript:alert('' @ [SQ] @ ''x'' @ [SQ] @ '')'')),
                                (''title'', PNone), (''type'', PStr ''link'')]]),
                 (''type'', PStr ''paragraph'')]] \<and>
   markdown_to_html 10 (''[x](javascript:alert('' @ [SQ] @ ''x'' @ [SQ] @ ''))'') empty_state =
     Inr (''<div class='' @ [DQ] @ ''paragraph'' @ [DQ] @ ''><a href='' @ [DQ]
          @ ''javascript:alert(&amp;#x27;x&amp;#x27;)'' @ [DQ] @ ''>x</a></div>'') \<and>
   \<not> contains (''javascript:alert('' @ [SQ] @ ''x'' @ [SQ] @ '')'')
        (''<div class='' @ [DQ] @ ''paragraph'' @ [DQ] @ ''><a href='' @ [DQ]
          @ ''javascript:alert(&amp;#x27;x&amp;#x27;)'' @ [DQ] @ ''>x</a></div>'')"
  by code_simp

section \<open>Rules with an order that is not a number\<close>




















text \<open>
  Both cases occur: the table with the single rule \<^verbatim>\<open>x\<close> of order \<^verbatim>\<open>None\<close>, and the default
  table with that rule added.
\<close>

lemma unordered_sorted: "sorted_rule_list unordered_rules = Inr [''x'']"
  by code_simp






section \<open>Reference definitions\<close>

text \<open>
  The registry \<^verbatim>\<open>state['_refs']\<close> holds, for each normalised name, the reference nodes
  created so far; \<^verbatim>\<open>Def.parse\<close> walks the list of its name and sets \<^verbatim>\<open>target\<close> and
  \<^verbatim>\<open>title\<close> of each node. The flags of the state play no part in it.
\<close>

lemma map_of_dict_set: "map_of (dict_set kvs k v) k' = (if k' = k then Some v else map_of kvs k')"
  by (induction kvs) auto

lemma node_dict_flags [simp]:
  "node_dict (st\<lparr>inline := b\<rparr>) v = node_dict st v"
  "node_dict (st\<lparr>st_list := b\<rparr>) v = node_dict st v"
  "node_dict (st\<lparr>in_table := b\<rparr>) v = node_dict st v"
  "node_dict (st\<lparr>disable_auto_block_newlines := b\<rparr>) v = node_dict st v"
  "node_dict (st\<lparr>previous_capture := c\<rparr>) v = node_dict st v"
  by (cases v; simp add: node_dict_def)+

lemma node_get_flags [simp]:
  "node_get (st\<lparr>inline := b\<rparr>) v k = node_get st v k"
  "node_get (st\<lparr>st_list := b\<rparr>) v k = node_get st v k"
  "node_get (st\<lparr>in_table := b\<rparr>) v k = node_get st v k"
  "node_get (st\<lparr>disable_auto_block_newlines := b\<rparr>) v k = node_get st v k"
  "node_get (st\<lparr>previous_capture := c\<rparr>) v k = node_get st v k"
  by (simp_all add: node_get_def)

lemma refs_of_flags [simp]:
  "refs_of (st\<lparr>inline := b\<rparr>) n = refs_of st n"
  "refs_of (st\<lparr>st_list := b\<rparr>) n = refs_of st n"
  "refs_of (st\<lparr>in_table := b\<rparr>) n = refs_of st n"
  "refs_of (st\<lparr>disable_auto_block_newlines := b\<rparr>) n = refs_of st n"
  "refs_of (st\<lparr>previous_capture := c\<rparr>) n = refs_of st n"
  by (simp_all add: refs_of_def)

lemma resolved_flags [simp]:
  "resolved (st\<lparr>inline := b\<rparr>) = resolved st"
  "resolved (st\<lparr>st_list := b\<rparr>) = resolved st"
  "resolved (st\<lparr>in_table := b\<rparr>) = resolved st"
  "resolved (st\<lparr>disable_auto_block_newlines := b\<rparr>) = resolved st"
  "resolved (st\<lparr>previous_capture := c\<rparr>) = resolved st"
  by (simp_all add: resolved_def)

lemma reg_step_flags [simp]:
  "reg_step (st\<lparr>inline := b\<rparr>) st' = reg_step st st'"
  "reg_step (st\<lparr>st_list := b\<rparr>) st' = reg_step st st'"
  "reg_step (st\<lparr>in_table := b\<rparr>) st' = reg_step st st'"
  "reg_step (st\<lparr>disable_auto_block_newlines := b\<rparr>) st' = reg_step st st'"
  "reg_step (st\<lparr>previous_capture := c\<rparr>) st' = reg_step st st'"
  "reg_step st (st'\<lparr>inline := b\<rparr>) = reg_step st st'"
  "reg_step st (st'\<lparr>st_list := b\<rparr>) = reg_step st st'"
  "reg_step st (st'\<lparr>in_table := b\<rparr>) = reg_step st st'"
  "reg_step st (st'\<lparr>disable_auto_block_newlines := b\<rparr>) = reg_step st st'"
  "reg_step st (st'\<lparr>previous_capture := c\<rparr>) = reg_step st st'"
  by (simp_all add: reg_step_def)

lemma reg_step_refl [simp]: "reg_step st st"
  by (simp add: reg_step_def)

lemma reg_step_trans: "reg_step st st' \<Longrightarrow> reg_step st' st'' \<Longrightarrow> reg_step st st''"
  unfolding reg_step_def by blast

lemma resolvedD1: "resolved st \<Longrightarrow> a \<in> set (refs_of st n) \<Longrightarrow> node_dict st (PRef a) \<noteq> None"
  unfolding resolved_def by blast

lemma resolvedD2: "resolved st \<Longrightarrow> a \<in> set (refs_of st n) \<Longrightarrow> a \<in> set (refs_of st m) \<Longrightarrow> n = m"
  unfolding resolved_def by blast

lemma resolvedD3:
  "resolved st \<Longrightarrow> map_of (st_defs st) n = Some d \<Longrightarrow>
   \<exists>t ti. d = PDict [(''target'', t), (''title'', ti)] \<and>
     (\<forall>a\<in>set (refs_of st n). node_get st (PRef a) ''target'' = Some t \<and>
                               node_get st (PRef a) ''title'' = Some ti)"
  unfolding resolved_def by blast

lemma resolvedI:
  assumes "\<And>n a. a \<in> set (refs_of st n) \<Longrightarrow> node_dict st (PRef a) \<noteq> None"
    and "\<And>n m a. a \<in> set (refs_of st n) \<Longrightarrow> a \<in> set (refs_of st m) \<Longrightarrow> n = m"
    and "\<And>n d. map_of (st_defs st) n = Some d \<Longrightarrow>
           \<exists>t ti. d = PDict [(''target'', t), (''title'', ti)] \<and>
             (\<forall>a\<in>set (refs_of st n). node_get st (PRef a) ''target'' = Some t \<and>
                                       node_get st (PRef a) ''title'' = Some ti)"
  shows "resolved st"
  unfolding resolved_def using assms by blast

text \<open>A change of the heap that keeps every node a node, with its target and title.\<close>

lemma resolved_transfer:
  assumes r: "resolved st" and refs: "st_refs st' = st_refs st" and defs: "st_defs st' = st_defs st"
    and nodes: "\<And>a. node_dict st (PRef a) \<noteq> None \<Longrightarrow>
             node_dict st' (PRef a) \<noteq> None \<and>
             node_get st' (PRef a) ''target'' = node_get st (PRef a) ''target'' \<and>
             node_get st' (PRef a) ''title'' = node_get st (PRef a) ''title''"
  shows "resolved st'"
proof (rule resolvedI)
  have ro: "refs_of st' n = refs_of st n" for n by (simp add: refs_of_def refs)
  show "node_dict st' (PRef a) \<noteq> None" if "a \<in> set (refs_of st' n)" for n a
    using that resolvedD1[OF r, of a n] nodes[of a] by (simp add: ro)
  show "n = m" if "a \<in> set (refs_of st' n)" "a \<in> set (refs_of st' m)" for n m a
    using that resolvedD2[OF r, of a n m] by (simp add: ro)
  show "\<exists>t ti. d = PDict [(''target'', t), (''title'', ti)] \<and>
             (\<forall>a\<in>set (refs_of st' n). node_get st' (PRef a) ''target'' = Some t \<and>
                                       node_get st' (PRef a) ''title'' = Some ti)"
    if "map_of (st_defs st') n = Some d" for n d
  proof -
    from that have "map_of (st_defs st) n = Some d" by (simp add: defs)
    from resolvedD3[OF r this] obtain t ti where d: "d = PDict [(''target'', t), (''title'', ti)]"
      and all: "\<And>a. a \<in> set (refs_of st n) \<Longrightarrow>
                  node_get st (PRef a) ''target'' = Some t \<and> node_get st (PRef a) ''title'' = Some ti"
      by blast
    have "node_get st' (PRef a) ''target'' = Some t \<and> node_get st' (PRef a) ''title'' = Some ti"
      if a: "a \<in> set (refs_of st' n)" for a
    proof -
      from a have a': "a \<in> set (refs_of st n)" by (simp add: ro)
      from nodes[OF resolvedD1[OF r a']] all[OF a'] show ?thesis by simp
    qed
    with d show ?thesis by blast
  qed
qed

lemma node_dict_update:
  "node_dict (st\<lparr>heap := (heap st)[b := PDict kvs]\<rparr>) (PRef a) =
     (if a = b \<and> b < length (heap st) then Some kvs else node_dict st (PRef a))"
  by (auto simp: node_dict_def)

lemma node_set_refs [simp]: "st_refs (snd (node_set st v k x)) = st_refs st"
  by (simp add: node_set_def split: pyval.splits option.splits)

lemma node_set_defs [simp]: "st_defs (snd (node_set st v k x)) = st_defs st"
  by (simp add: node_set_def split: pyval.splits option.splits)

lemma node_set_dict:
  "node_dict st (PRef a) \<noteq> None \<Longrightarrow> node_dict (snd (node_set st v k x)) (PRef a) \<noteq> None"
  by (auto simp: node_set_def node_dict_update split: pyval.splits option.splits)

lemma node_set_other_key:
  "k' \<noteq> k \<Longrightarrow> node_get (snd (node_set st v k x)) (PRef a) k' = node_get st (PRef a) k'"
  by (auto simp: node_set_def node_get_def node_dict_update map_of_dict_set
           split: pyval.splits option.splits)

lemma node_set_other_node:
  "v \<noteq> PRef a \<Longrightarrow> node_get (snd (node_set st v k x)) (PRef a) k' = node_get st (PRef a) k'"
  by (auto simp: node_set_def node_get_def node_dict_update split: pyval.splits option.splits)

lemma node_set_same:
  "node_dict st (PRef a) \<noteq> None \<Longrightarrow> node_get (snd (node_set st (PRef a) k x)) (PRef a) k = Some x"
  by (auto simp: node_set_def node_get_def node_dict_update map_of_dict_set node_dict_def
           split: option.splits if_splits)

lemma node_set_step:
  assumes "k \<noteq> ''target''" and "k \<noteq> ''title''"
  shows "reg_step st (snd (node_set st v k x))"
proof -
  have "resolved (snd (node_set st v k x))" if "resolved st"
    by (rule resolved_transfer[OF that])
       (use assms in \<open>simp_all add: node_set_dict node_set_other_key\<close>)
  then show ?thesis by (simp add: reg_step_def refs_of_def)
qed


text \<open>\<^verbatim>\<open>parse_ref\<close>: the new node is registered at a fresh address, with the entry of its name.\<close>

lemma parse_ref_result:
  assumes "parse_ref capture st ref_node = Inr (v, st')"
  shows "\<exists>node. v = PRef (length (heap st)) \<and>
           st' = st\<lparr>heap := heap st @ [PDict node],
                    st_refs := dict_set (st_refs st) (normalize_ref (or_str (grp_str capture 2) (grp_str capture 1)))
                                 (refs_of st (normalize_ref (or_str (grp_str capture 2) (grp_str capture 1)))
                                    @ [length (heap st)])\<rparr> \<and>
           (\<forall>t ti. map_of (st_defs st) (normalize_ref (or_str (grp_str capture 2) (grp_str capture 1))) =
                      Some (PDict [(''target'', t), (''title'', ti)]) \<longrightarrow>
                    map_of node ''target'' = Some t \<and> map_of node ''title'' = Some ti)"
  using assms
  by (auto simp: parse_ref_def Let_def refs_of_def map_of_dict_set
           split: sum.splits option.splits if_splits pyval.splits)

lemma refs_of_dict_set:
  "refs_of (st\<lparr>heap := h, st_refs := dict_set (st_refs st) ref as\<rparr>) n =
     (if n = ref then as else refs_of st n)"
  by (simp add: refs_of_def map_of_dict_set)

lemma node_dict_append:
  "node_dict (st\<lparr>heap := heap st @ [PDict node], st_refs := r\<rparr>) (PRef a) =
     (if a = length (heap st) then Some node else node_dict st (PRef a))"
  by (auto simp: node_dict_def nth_append)

lemma node_dict_bound: "node_dict st (PRef a) \<noteq> None \<Longrightarrow> a < length (heap st)"
  by (auto simp: node_dict_def split: if_splits)

lemma parse_ref_step:
  assumes "parse_ref capture st ref_node = Inr (v, st')"
  shows "reg_step st st'"
proof -
  let ?ref = "normalize_ref (or_str (grp_str capture 2) (grp_str capture 1))"
  let ?a = "length (heap st)"
  from parse_ref_result[OF assms] obtain node where
    st': "st' = st\<lparr>heap := heap st @ [PDict node],
                     st_refs := dict_set (st_refs st) ?ref (refs_of st ?ref @ [?a])\<rparr>"
    and node: "\<And>t ti. map_of (st_defs st) ?ref = Some (PDict [(''target'', t), (''title'', ti)]) \<Longrightarrow>
                 map_of node ''target'' = Some t \<and> map_of node ''title'' = Some ti"
    by blast
  have ro: "refs_of st' n = (if n = ?ref then refs_of st ?ref @ [?a] else refs_of st n)" for n
    unfolding st' by (rule refs_of_dict_set)
  have nd: "node_dict st' (PRef a) = (if a = ?a then Some node else node_dict st (PRef a))" for a
    unfolding st' by (rule node_dict_append)
  have defs: "st_defs st' = st_defs st" unfolding st' by simp
  have mono: "set (refs_of st n) \<subseteq> set (refs_of st' n)" for n
    by (auto simp: ro)
  have "resolved st'" if r: "resolved st"
  proof (rule resolvedI)
    have old: "a \<noteq> ?a" if "a \<in> set (refs_of st n)" for a n
      using node_dict_bound[OF resolvedD1[OF r that]] by simp
    have mem: "a \<in> set (refs_of st' n) \<longleftrightarrow> a \<in> set (refs_of st n) \<or> (a = ?a \<and> n = ?ref)" for a n
      by (auto simp: ro)
    show "node_dict st' (PRef a) \<noteq> None" if "a \<in> set (refs_of st' n)" for n a
      using that resolvedD1[OF r, of a n] by (auto simp: mem nd)
    show "n = m" if "a \<in> set (refs_of st' n)" "a \<in> set (refs_of st' m)" for n m a
      using that resolvedD2[OF r, of a n m] old[of a n] old[of a m] by (auto simp: mem)
    show "\<exists>t ti. d = PDict [(''target'', t), (''title'', ti)] \<and>
             (\<forall>a\<in>set (refs_of st' n). node_get st' (PRef a) ''target'' = Some t \<and>
                                       node_get st' (PRef a) ''title'' = Some ti)"
      if "map_of (st_defs st') n = Some d" for n d
    proof -
      from that have dn: "map_of (st_defs st) n = Some d" by (simp add: defs)
      from resolvedD3[OF r this] obtain t ti where d: "d = PDict [(''target'', t), (''title'', ti)]"
        and all: "\<And>a. a \<in> set (refs_of st n) \<Longrightarrow>
                  node_get st (PRef a) ''target'' = Some t \<and> node_get st (PRef a) ''title'' = Some ti"
        by blast
      have "node_get st' (PRef a) ''target'' = Some t \<and> node_get st' (PRef a) ''title'' = Some ti"
        if a: "a \<in> set (refs_of st' n)" for a
      proof (cases "a \<in> set (refs_of st n)")
        case True
        from old[OF True] all[OF True] show ?thesis by (simp add: node_get_def nd)
      next
        case False
        with a have "a = ?a" "n = ?ref" by (simp_all add: mem)
        with node[of t ti] dn d show ?thesis by (simp add: node_get_def nd)
      qed
      with d show ?thesis by blast
    qed
  qed
  with mono show ?thesis by (simp add: reg_step_def)
qed

text \<open>\<^verbatim>\<open>Def.parse\<close>: the nodes of the name are patched, the others keep what they have.\<close>

lemma patch_ref_refs [simp]: "st_refs (patch_ref t ti st b) = st_refs st"
  by (simp add: patch_ref_def)

lemma patch_ref_defs [simp]: "st_defs (patch_ref t ti st b) = st_defs st"
  by (simp add: patch_ref_def)

lemma patch_ref_dict:
  "node_dict st (PRef a) \<noteq> None \<Longrightarrow> node_dict (patch_ref t ti st b) (PRef a) \<noteq> None"
  by (simp add: patch_ref_def node_set_dict)

lemma patch_ref_sets:
  assumes "node_dict st (PRef a) \<noteq> None"
  shows "node_get (patch_ref t ti st a) (PRef a) ''target'' = Some t \<and>
         node_get (patch_ref t ti st a) (PRef a) ''title'' = Some ti"
proof -
  let ?s1 = "snd (node_set st (PRef a) ''target'' t)"
  from node_set_same[OF assms] have 1: "node_get ?s1 (PRef a) ''target'' = Some t" .
  from node_set_dict[OF assms] have 2: "node_dict ?s1 (PRef a) \<noteq> None" .
  from node_set_same[OF 2] have "node_get (patch_ref t ti st a) (PRef a) ''title'' = Some ti"
    by (simp add: patch_ref_def)
  moreover from 1 have "node_get (patch_ref t ti st a) (PRef a) ''target'' = Some t"
    by (simp add: patch_ref_def node_set_other_key)
  ultimately show ?thesis by simp
qed

lemma patch_ref_other:
  "a \<noteq> b \<Longrightarrow> node_get (patch_ref t ti st b) (PRef a) k = node_get st (PRef a) k"
  by (simp add: patch_ref_def node_set_other_node)

lemma patch_ref_stays:
  assumes "node_get st (PRef a) ''target'' = Some t" and "node_get st (PRef a) ''title'' = Some ti"
  shows "node_get (patch_ref t ti st b) (PRef a) ''target'' = Some t \<and>
         node_get (patch_ref t ti st b) (PRef a) ''title'' = Some ti"
proof (cases "a = b")
  case True
  from assms(1) have "node_dict st (PRef a) \<noteq> None"
    by (cases "node_dict st (PRef a)") (simp_all add: node_get_def)
  from patch_ref_sets[OF this] True show ?thesis by simp
next
  case False
  with assms show ?thesis by (simp add: patch_ref_other)
qed

lemma fold_patch_refs [simp]: "st_refs (foldl (patch_ref t ti) st bs) = st_refs st"
  by (induction bs arbitrary: st) simp_all

lemma fold_patch_defs [simp]: "st_defs (foldl (patch_ref t ti) st bs) = st_defs st"
  by (induction bs arbitrary: st) simp_all

lemma fold_patch_dict:
  "node_dict st (PRef a) \<noteq> None \<Longrightarrow> node_dict (foldl (patch_ref t ti) st bs) (PRef a) \<noteq> None"
proof (induction bs arbitrary: st)
  case Nil
  then show ?case by simp
next
  case (Cons b bs)
  from Cons.IH[OF patch_ref_dict[OF Cons.prems]] show ?case by simp
qed

lemma fold_patch_other:
  "a \<notin> set bs \<Longrightarrow> node_get (foldl (patch_ref t ti) st bs) (PRef a) k = node_get st (PRef a) k"
  by (induction bs arbitrary: st) (simp_all add: patch_ref_other)

lemma fold_patch_stays:
  "node_get st (PRef a) ''target'' = Some t \<Longrightarrow> node_get st (PRef a) ''title'' = Some ti \<Longrightarrow>
   node_get (foldl (patch_ref t ti) st bs) (PRef a) ''target'' = Some t \<and>
   node_get (foldl (patch_ref t ti) st bs) (PRef a) ''title'' = Some ti"
proof (induction bs arbitrary: st)
  case Nil
  then show ?case by simp
next
  case (Cons b bs)
  from patch_ref_stays[OF Cons.prems, of b] Cons.IH show ?case by simp
qed

lemma fold_patch_sets:
  "a \<in> set bs \<Longrightarrow> node_dict st (PRef a) \<noteq> None \<Longrightarrow>
   node_get (foldl (patch_ref t ti) st bs) (PRef a) ''target'' = Some t \<and>
   node_get (foldl (patch_ref t ti) st bs) (PRef a) ''title'' = Some ti"
proof (induction bs arbitrary: st)
  case Nil
  then show ?case by simp
next
  case (Cons b bs)
  show ?case
  proof (cases "a = b")
    case True
    from patch_ref_sets[OF Cons.prems(2), of t ti] True
    have "node_get (patch_ref t ti st b) (PRef a) ''target'' = Some t"
      and "node_get (patch_ref t ti st b) (PRef a) ''title'' = Some ti" by simp_all
    from fold_patch_stays[OF this] show ?thesis by simp
  next
    case False
    with Cons.prems have "a \<in> set bs" by simp
    from Cons.IH[OF this patch_ref_dict[OF Cons.prems(2)]] show ?thesis by simp
  qed
qed

lemma node_get_st_defs [simp]: "node_get (st\<lparr>st_defs := x\<rparr>) v k = node_get st v k"
  by (cases v) (simp_all add: node_get_def node_dict_def)

lemma node_dict_st_defs [simp]: "node_dict (st\<lparr>st_defs := x\<rparr>) v = node_dict st v"
  by (cases v) (simp_all add: node_dict_def)

lemma refs_of_st_defs [simp]: "refs_of (st\<lparr>st_defs := x\<rparr>) n = refs_of st n"
  by (simp add: refs_of_def)

lemma Def_parse_result:
  assumes "Def_parse capture parse st = Inr (d, st')"
  shows "st' = (foldl (patch_ref (PStr (grp_str capture 2)) (opt_str (grp capture 3))) st
                  (refs_of st (normalize_ref (grp_str capture 1))))
               \<lparr>st_defs := dict_set (st_defs st) (normalize_ref (grp_str capture 1))
                   (PDict [(''target'', PStr (grp_str capture 2)), (''title'', opt_str (grp capture 3))])\<rparr>"
  using assms by (auto simp: Def_parse_def Let_def refs_of_def split: option.splits)

lemma Def_parse_step:
  assumes "Def_parse capture parse st = Inr (d, st')"
  shows "reg_step st st'"
proof -
  let ?def = "normalize_ref (grp_str capture 1)"
  let ?t = "PStr (grp_str capture 2)"
  let ?ti = "opt_str (grp capture 3)"
  let ?s1 = "foldl (patch_ref ?t ?ti) st (refs_of st ?def)"
  note st' = Def_parse_result[OF assms]
  have ro: "refs_of st' n = refs_of st n" for n
    unfolding st' by (simp add: refs_of_def)
  have ng: "node_get st' v k = node_get ?s1 v k" for v k
    unfolding st' by simp
  have nd: "node_dict st' v = node_dict ?s1 v" for v
    unfolding st' by simp
  have defs: "map_of (st_defs st') n =
      (if n = ?def then Some (PDict [(''target'', ?t), (''title'', ?ti)]) else map_of (st_defs st) n)" for n
    unfolding st' by (simp add: map_of_dict_set)
  have "resolved st'" if r: "resolved st"
  proof (rule resolvedI)
    show "node_dict st' (PRef a) \<noteq> None" if "a \<in> set (refs_of st' n)" for n a
      using that resolvedD1[OF r, of a n] by (simp add: ro nd fold_patch_dict)
    show "n = m" if "a \<in> set (refs_of st' n)" "a \<in> set (refs_of st' m)" for n m a
      using that resolvedD2[OF r, of a n m] by (simp add: ro)
    show "\<exists>t ti. d = PDict [(''target'', t), (''title'', ti)] \<and>
             (\<forall>a\<in>set (refs_of st' n). node_get st' (PRef a) ''target'' = Some t \<and>
                                       node_get st' (PRef a) ''title'' = Some ti)"
      if dn: "map_of (st_defs st') n = Some d" for n d
    proof (cases "n = ?def")
      case True
      with dn have d: "d = PDict [(''target'', ?t), (''title'', ?ti)]" by (simp add: defs)
      have "node_get st' (PRef a) ''target'' = Some ?t \<and> node_get st' (PRef a) ''title'' = Some ?ti"
        if a: "a \<in> set (refs_of st' n)" for a
      proof -
        from a True have a': "a \<in> set (refs_of st ?def)" by (simp add: ro)
        from fold_patch_sets[OF a' resolvedD1[OF r a']] show ?thesis by (simp add: ng)
      qed
      with d show ?thesis by blast
    next
      case False
      with dn have "map_of (st_defs st) n = Some d" by (simp add: defs)
      from resolvedD3[OF r this] obtain t ti where d: "d = PDict [(''target'', t), (''title'', ti)]"
        and all: "\<And>a. a \<in> set (refs_of st n) \<Longrightarrow>
                  node_get st (PRef a) ''target'' = Some t \<and> node_get st (PRef a) ''title'' = Some ti"
        by blast
      have "node_get st' (PRef a) ''target'' = Some t \<and> node_get st' (PRef a) ''title'' = Some ti"
        if a: "a \<in> set (refs_of st' n)" for a
      proof -
        from a have a': "a \<in> set (refs_of st n)" by (simp add: ro)
        with False resolvedD2[OF r a', of ?def] have "a \<notin> set (refs_of st ?def)" by blast
        from fold_patch_other[OF this] all[OF a'] show ?thesis by (simp add: ng)
      qed
      with d show ?thesis by blast
    qed
  qed
  then show ?thesis by (simp add: reg_step_def ro)
qed

text \<open>Every \<^verbatim>\<open>parse\<close> of the default rules is a step of the registries.\<close>

lemma good_parserD: "good_parser p \<Longrightarrow> p src st = Inr (r, st') \<Longrightarrow> reg_step st st'"
  unfolding good_parser_def by blast

lemma good_parseI:
  "(\<And>p cap st v st'. good_parser p \<Longrightarrow> f cap p st = Inr (v, st') \<Longrightarrow> reg_step st st') \<Longrightarrow> good_parse f"
  unfolding good_parse_def by blast

lemma good_parseD: "good_parse f \<Longrightarrow> good_parser p \<Longrightarrow> f cap p st = Inr (v, st') \<Longrightarrow> reg_step st st'"
  unfolding good_parse_def by blast

lemma parse_inline_step:
  assumes "good_parser p" and "parse_inline p content st = Inr (r, st')"
  shows "reg_step st st'"
proof -
  from assms(2) obtain s where p: "p content (st\<lparr>inline := True\<rparr>) = Inr (r, s)"
    and st': "st' = s\<lparr>inline := inline st\<rparr>"
    by (auto simp: parse_inline_def split: sum.splits)
  from good_parserD[OF assms(1) p] show ?thesis by (simp add: st')
qed

lemma parse_block_step:
  assumes "good_parser p" and "parse_block p content st = Inr (r, st')"
  shows "reg_step st st'"
proof -
  from assms(2) obtain s where p: "p (content @ [NL, NL]) (st\<lparr>inline := False\<rparr>) = Inr (r, s)"
    and st': "st' = s\<lparr>inline := inline st\<rparr>"
    by (auto simp: parse_block_def split: sum.splits)
  from good_parserD[OF assms(1) p] show ?thesis by (simp add: st')
qed

lemma good_same_state:
  "(\<And>cap p st v st'. f cap p st = Inr (v, st') \<Longrightarrow> st' = st) \<Longrightarrow> good_parse f"
  by (rule good_parseI) (metis reg_step_refl)

lemma good_Rule_parse: "good_parse Rule_parse"
  by (rule good_same_state) (simp add: Rule_parse_def)

lemma good_HR_parse: "good_parse HR_parse"
  by (rule good_same_state) (simp add: HR_parse_def)

lemma good_CodeBlock_parse: "good_parse CodeBlock_parse"
  by (rule good_same_state) (simp add: CodeBlock_parse_def Let_def)

lemma good_Fence_parse: "good_parse Fence_parse"
  by (rule good_same_state) (simp add: Fence_parse_def)

lemma good_NewLine_parse: "good_parse NewLine_parse"
  by (rule good_same_state) (simp add: NewLine_parse_def)

lemma good_Escape_parse: "good_parse Escape_parse"
  by (rule good_same_state) (simp add: Escape_parse_def)

lemma good_TableSeparator_parse: "good_parse TableSeparator_parse"
  by (rule good_same_state) (simp add: TableSeparator_parse_def)

lemma good_AutoLink_parse: "good_parse AutoLink_parse"
  by (rule good_same_state) (simp add: AutoLink_parse_def)

lemma good_MailTo_parse: "good_parse MailTo_parse"
  by (rule good_same_state) (simp add: MailTo_parse_def Let_def)

lemma good_URL_parse: "good_parse URL_parse"
  by (rule good_same_state) (simp add: URL_parse_def)

lemma good_Image_parse: "good_parse Image_parse"
  by (rule good_same_state) (simp add: Image_parse_def)

lemma good_InlineCode_parse: "good_parse InlineCode_parse"
  by (rule good_same_state) (simp add: InlineCode_parse_def)

lemma good_Br_parse: "good_parse Br_parse"
  by (rule good_same_state) (simp add: Br_parse_def)

lemma good_Text_parse: "good_parse Text_parse"
  by (rule good_same_state) (simp add: Text_parse_def)

lemma good_Heading_parse: "good_parse Heading_parse"
proof (rule good_parseI)
  fix p cap st v st'
  assume g: "good_parser p" and h: "Heading_parse cap p st = Inr (v, st')"
  from h obtain r where "parse_inline p (strip (grp_str cap 2)) st = Inr (r, st')"
    by (auto simp: Heading_parse_def split: sum.splits)
  from parse_inline_step[OF g this] show "reg_step st st'" .
qed

lemma good_LHeading_parse: "good_parse LHeading_parse"
proof (rule good_parseI)
  fix p cap st v st'
  assume g: "good_parser p" and h: "LHeading_parse cap p st = Inr (v, st')"
  from h obtain r where "parse_inline p (grp_str cap 1) st = Inr (r, st')"
    by (auto simp: LHeading_parse_def split: sum.splits)
  from parse_inline_step[OF g this] show "reg_step st st'" .
qed

lemma good_parse_capture_inline: "good_parse parse_capture_inline"
proof (rule good_parseI)
  fix p cap st v st'
  assume g: "good_parser p" and h: "parse_capture_inline cap p st = Inr (v, st')"
  from h obtain r where "parse_inline p (grp_str cap 1) st = Inr (r, st')"
    by (auto simp: parse_capture_inline_def split: sum.splits)
  from parse_inline_step[OF g this] show "reg_step st st'" .
qed

lemma good_BlockQuote_parse: "good_parse BlockQuote_parse"
proof (rule good_parseI)
  fix p cap st v st'
  assume g: "good_parser p" and h: "BlockQuote_parse cap p st = Inr (v, st')"
  from h obtain r where
    "p (re_sub QUOTE_PREFIX_R (const_repl []) (whole cap) 0) st = Inr (r, st')"
    by (auto simp: BlockQuote_parse_def Let_def split: sum.splits)
  from good_parserD[OF g this] show "reg_step st st'" .
qed

lemma good_Link_parse: "good_parse Link_parse"
proof (rule good_parseI)
  fix p cap st v st'
  assume g: "good_parser p" and h: "Link_parse cap p st = Inr (v, st')"
  from h obtain r where "p (grp_str cap 1) st = Inr (r, st')"
    by (auto simp: Link_parse_def split: sum.splits)
  from good_parserD[OF g this] show "reg_step st st'" .
qed

lemma good_Em_parse: "good_parse Em_parse"
proof (rule good_parseI)
  fix p cap st v st'
  assume g: "good_parser p" and h: "Em_parse cap p st = Inr (v, st')"
  from h obtain r where "p (or_str (grp_str cap 2) (grp_str cap 1)) st = Inr (r, st')"
    by (auto simp: Em_parse_def split: sum.splits)
  from good_parserD[OF g this] show "reg_step st st'" .
qed

lemma good_RefLink_parse: "good_parse RefLink_parse"
proof (rule good_parseI)
  fix p cap st v st'
  assume g: "good_parser p" and h: "RefLink_parse cap p st = Inr (v, st')"
  from h obtain r s where p: "p (grp_str cap 1) st = Inr (r, s)"
    and pr: "parse_ref cap s [(''type'', PStr ''link''), (''content'', PList r)] = Inr (v, st')"
    by (auto simp: RefLink_parse_def split: sum.splits)
  from reg_step_trans[OF good_parserD[OF g p] parse_ref_step[OF pr]] show "reg_step st st'" .
qed

lemma good_RefImage_parse: "good_parse RefImage_parse"
proof (rule good_parseI)
  fix p cap st v st'
  assume "RefImage_parse cap p st = Inr (v, st')"
  then have "parse_ref cap st [(''type'', PStr ''image''), (''alt'', opt_str (grp cap 1))] = Inr (v, st')"
    by (simp add: RefImage_parse_def)
  from parse_ref_step[OF this] show "reg_step st st'" .
qed

lemma good_Def_parse: "good_parse Def_parse"
  by (rule good_parseI) (rule Def_parse_step)

text \<open>Lists.\<close>

lemma items_loop_step:
  assumes "good_parser p"
  shows "items_loop i n items last_par p st = Inr (r, st') \<Longrightarrow> reg_step st st'"
proof (induction items arbitrary: i last_par st r)
  case Nil
  then show ?case by simp
next
  case (Cons item others)
  from Cons.prems obtain content where c: "item_text (whole item) = Inr content"
    by (cases "item_text (whole item)") simp_all
  define par where "par = (contains [NL, NL] content \<or> (int i = int n - 1 \<and> last_par))"
  define adj where "adj = (if par then re_sub LIST_ITEM_END_R (const_repl [NL, NL]) content 1
                           else re_sub LIST_ITEM_END_R (const_repl []) content 1)"
  from Cons.prems c obtain res s where p: "p adj (st\<lparr>st_list := True, inline := \<not> par\<rparr>) = Inr (res, s)"
    by (cases "p adj (st\<lparr>st_list := True, inline := \<not> par\<rparr>)")
       (auto simp: Let_def par_def adj_def)
  from Cons.prems c p obtain rs where
    l: "items_loop (Suc i) n others par p (s\<lparr>inline := inline st, st_list := st_list st\<rparr>) = Inr (rs, st')"
    by (cases "items_loop (Suc i) n others par p (s\<lparr>inline := inline st, st_list := st_list st\<rparr>)")
       (auto simp: Let_def par_def adj_def)
  from good_parserD[OF assms p] have 1: "reg_step st s" by simp
  from Cons.IH[OF l] have 2: "reg_step s st'" by simp
  from reg_step_trans[OF 1 2] show ?case .
qed

lemma good_List_parse: "good_parse List_parse"
proof (rule good_parseI)
  fix p cap st v st'
  assume g: "good_parser p" and h: "List_parse cap p st = Inr (v, st')"
  from h obtain n items r where "items_loop 0 n items False p st = Inr (r, st')"
    by (auto simp: List_parse_def Let_def split: sum.splits if_splits)
  from items_loop_step[OF g this] show "reg_step st st'" .
qed

text \<open>Tables.\<close>

lemma cells_loop_step:
  "cells_loop trim len index row cells st = Inr (r, st') \<Longrightarrow> reg_step st st'"
proof (induction row arbitrary: index cells st)
  case Nil
  then show ?case by simp
next
  case (Cons node others)
  from Cons.prems obtain t where t: "node_get st node ''type'' = Some t"
    by (cases "node_get st node ''type''") simp_all
  show ?case
  proof (cases "t = PStr ''table_separator''")
    case True
    define c where "c = (if trim then index \<noteq> 0 \<and> index \<noteq> len - 1 else True)"
    from Cons.prems t True have e: "(if c then cells_loop trim len (Suc index) others (cells @ [[]]) st
           else cells_loop trim len (Suc index) others cells st) = Inr (r, st')"
      unfolding c_def by simp
    show ?thesis
    proof (cases c)
      case True
      with e have "cells_loop trim len (Suc index) others (cells @ [[]]) st = Inr (r, st')"
        by simp
      from Cons.IH[OF this] show ?thesis .
    next
      case False
      with e have "cells_loop trim len (Suc index) others cells st = Inr (r, st')"
        by simp
      from Cons.IH[OF this] show ?thesis .
    qed
  next
    case False
    define tc where "tc = (case others of
                     [] \<Rightarrow> Inr False
                   | nxt # _ \<Rightarrow>
                       if t = PStr ''text''
                       then (case node_get st nxt ''type'' of
                               None \<Rightarrow> Inl (KeyError ''type'')
                             | Some t' \<Rightarrow> Inr (t' = PStr ''table_separator''))
                       else Inr False)"
    define upd where "upd = (\<lambda>trim_cell. if trim_cell
                        then (case node_get st node ''content'' of
                                None \<Rightarrow> Inl (KeyError ''content'')
                              | Some (PStr c) \<Rightarrow>
                                  Inr (node_set st node ''content''
                                         (PStr (re_sub TABLE_CELL_END_TRIM (const_repl []) c 1)))
                              | Some _ \<Rightarrow> Inl TypeError)
                        else Inr (node, st))"
    from Cons.prems t False have e: "(case tc of Inl e \<Rightarrow> Inl e
             | Inr trim_cell \<Rightarrow>
                 (case upd trim_cell of
                    Inl e \<Rightarrow> Inl e
                  | Inr (node', state') \<Rightarrow>
                      cells_loop trim len (Suc index) others
                        (butlast cells @ [last cells @ [node']]) state')) = Inr (r, st')"
      unfolding tc_def upd_def by simp
    then obtain trim_cell where tc: "tc = Inr trim_cell" by (cases tc) simp_all
    with e obtain node' s where u: "upd trim_cell = Inr (node', s)"
      and l: "cells_loop trim len (Suc index) others (butlast cells @ [last cells @ [node']]) s = Inr (r, st')"
      by (cases "upd trim_cell") auto
    have "reg_step st s"
    proof (cases trim_cell)
      case True
      with u have "\<exists>x. s = snd (node_set st node ''content'' x)"
        unfolding upd_def by (auto split: option.splits pyval.splits) (metis snd_conv)
      then show ?thesis by (auto simp: node_set_step)
    next
      case False
      with u show ?thesis unfolding upd_def by simp
    qed
    from reg_step_trans[OF this Cons.IH[OF l]] show ?thesis .
  qed
qed


lemma parse_table_row_step:
  assumes "good_parser p" and "parse_table_row source p st trim = Inr (r, st')"
  shows "reg_step st st'"
proof -
  from assms(2) obtain row s where p: "p (strip source) (st\<lparr>in_table := True\<rparr>) = Inr (row, s)"
    and c: "cells_loop trim (length row) 0 row [[]] (s\<lparr>in_table := in_table st\<rparr>) = Inr (r, st')"
    by (auto simp: parse_table_row_def split: sum.splits)
  from good_parserD[OF assms(1) p] have 1: "reg_step st s" by simp
  from cells_loop_step[OF c] have 2: "reg_step s st'" by simp
  from reg_step_trans[OF 1 2] show ?thesis .
qed

lemma rows_loop_step:
  assumes "good_parser p"
  shows "rows_loop rows p st trim = Inr (r, st') \<Longrightarrow> reg_step st st'"
proof (induction rows arbitrary: st r)
  case Nil
  then show ?case by simp
next
  case (Cons row_text others)
  from Cons.prems obtain row s where 1: "parse_table_row row_text p st trim = Inr (row, s)"
    by (cases "parse_table_row row_text p st trim") auto
  with Cons.prems obtain rs where 2: "rows_loop others p s trim = Inr (rs, st')"
    by (cases "rows_loop others p s trim") auto
  from reg_step_trans[OF parse_table_row_step[OF assms 1] Cons.IH[OF 2]] show ?case .
qed

lemma good_parse_table: "good_parse (parse_table trim)"
proof (rule good_parseI)
  fix p cap st v st'
  assume g: "good_parser p" and h: "parse_table trim cap p st = Inr (v, st')"
  from h obtain header s1 where
    1: "parse_table_row (grp_str cap 1) p (st\<lparr>inline := True\<rparr>) trim = Inr (header, s1)"
    by (cases "parse_table_row (grp_str cap 1) p (st\<lparr>inline := True\<rparr>) trim")
       (auto simp: parse_table_def)
  with h obtain cells s2 where 2: "parse_table_cells (grp_str cap 3) p s1 trim = Inr (cells, s2)"
    and st': "st' = s2\<lparr>inline := False\<rparr>"
    by (cases "parse_table_cells (grp_str cap 3) p s1 trim") (auto simp: parse_table_def)
  from parse_table_row_step[OF g 1] have a: "reg_step st s1" by simp
  from 2 have "rows_loop (split_on NL (strip (grp_str cap 3))) p s1 trim = Inr (cells, s2)"
    by (simp add: parse_table_cells_def)
  from rows_loop_step[OF g this] have b: "reg_step s1 s2" .
  from reg_step_trans[OF a b] show "reg_step st st'" by (simp add: st')
qed

text \<open>The engine.\<close>

lemma with_type_step:
  assumes "with_type parsed rule_type st = Inr (node, st')"
  shows "reg_step st st'"
proof -
  from assms have "st' = st \<or> st' = snd (node_set st parsed ''type'' (PStr rule_type))"
    by (auto simp: with_type_def split: pyval.splits option.splits if_splits)
  then show ?thesis by (auto simp: node_set_step)
qed

lemma scan_rules_rule:
  "scan_rules rules source st first cur best quality rule_list = Inr (Some (t, r, c)) \<Longrightarrow>
   best = Some (t, r, c) \<or> map_of rules t = Some r"
proof (induction rule_list arbitrary: first cur best quality)
  case Nil
  then show ?case by simp
next
  case (Cons u others)
  from Cons.prems obtain ru where ru: "map_of rules u = Some ru"
    by (cases "map_of rules u") simp_all
  define go where "go = (first \<or> best = None \<or> (py_eq (r_order ru) cur \<and> r_quality ru \<noteq> None))"
  from Cons.prems ru have e: "(if go
          then
            (case r_match ru of
               None \<Rightarrow> Inl AttributeError
             | Some m \<Rightarrow>
                 (case m source st (prev_string st) of
                    None \<Rightarrow>
                      scan_rules rules source st False (r_order ru) best quality others
                  | Some current_capture \<Rightarrow>
                      (let current_quality =
                             (case r_quality ru of
                                None \<Rightarrow> 0
                              | Some q \<Rightarrow> q current_capture st (prev_string st))
                       in if \<not> (current_quality \<le> quality)
                          then scan_rules rules source st False (r_order ru)
                                 (Some (u, ru, current_capture))
                                 current_quality others
                          else scan_rules rules source st False (r_order ru)
                                 best quality others)))
          else Inr best) = Inr (Some (t, r, c))"
    unfolding go_def by simp
  show ?case
  proof (cases go)
    case False
    with e show ?thesis by simp
  next
    case True
    with e obtain m where m: "r_match ru = Some m"
      by (cases "r_match ru") simp_all
    show ?thesis
    proof (cases "m source st (prev_string st)")
      case None
      with e True m have
        "scan_rules rules source st False (r_order ru) best quality others = Inr (Some (t, r, c))"
        by simp
      from Cons.IH[OF this] show ?thesis .
    next
      case (Some cc)
      define q where "q = (case r_quality ru of None \<Rightarrow> 0 | Some f \<Rightarrow> f cc st (prev_string st))"
      show ?thesis
      proof (cases "q \<le> quality")
        case le: True
        with e True m Some have
          "scan_rules rules source st False (r_order ru) best quality others = Inr (Some (t, r, c))"
          by (simp add: q_def)
        from Cons.IH[OF this] show ?thesis .
      next
        case gt: False
        with e True m Some have
          "scan_rules rules source st False (r_order ru) (Some (u, ru, cc)) q others = Inr (Some (t, r, c))"
          by (simp add: q_def)
        from Cons.IH[OF this] ru show ?thesis by auto
      qed
    qed
  qed
qed

lemma nested_parse_good:
  assumes "\<And>t r. map_of rules t = Some r \<Longrightarrow> good_parse (r_parse r)"
  shows "good_parser (nested_parse rules rule_list n)"
proof (induction n)
  case 0
  show ?case by (auto simp: good_parser_def split: if_splits)
next
  case (Suc n)
  show ?case
    unfolding good_parser_def
  proof (intro allI impI)
    fix src st res st'
    assume h: "nested_parse rules rule_list (Suc n) src st = Inr (res, st')"
    show "reg_step st st'"
    proof (cases "src = []")
      case True
      with h show ?thesis by simp
    next
      case False
      with h have rl: "rule_list \<noteq> []" by (auto split: if_splits)
      from h False rl obtain t r c where
        sc: "scan_rules rules src st True ONone None (- 1) rule_list = Inr (Some (t, r, c))"
        by (cases "scan_rules rules src st True ONone None (- 1) rule_list")
           (auto split: option.splits)
      with h False rl obtain parsed s1 where
        p: "r_parse r c (nested_parse rules rule_list n) st = Inr (parsed, s1)"
        by (cases "r_parse r c (nested_parse rules rule_list n) st") auto
      with h False rl sc obtain node s2 where w: "with_type parsed t s1 = Inr (node, s2)"
        by (cases "with_type parsed t s1") auto
      with h False rl sc p obtain rest where
        n: "nested_parse rules rule_list n (drop (length (whole c)) src)
              (s2\<lparr>previous_capture := Some c\<rparr>) = Inr (rest, st')"
        by (cases "nested_parse rules rule_list n (drop (length (whole c)) src)
              (s2\<lparr>previous_capture := Some c\<rparr>)") auto
      from scan_rules_rule[OF sc] have "map_of rules t = Some r" by simp
      from good_parseD[OF assms[OF this] Suc p] have 1: "reg_step st s1" .
      from with_type_step[OF w] have 2: "reg_step s1 s2" .
      from good_parserD[OF Suc n] have 3: "reg_step s2 st'" by simp
      from reg_step_trans[OF 1 reg_step_trans[OF 2 3]] show ?thesis .
    qed
  qed
qed

lemma default_rules_good:
  assumes "map_of default_rules t = Some r"
  shows "good_parse (r_parse r)"
proof -
  from assms have "(t, r) \<in> set default_rules" by (rule map_of_SomeD)
  then have "r_parse r \<in> {Rule_parse, Heading_parse, parse_table False, parse_table True,
      LHeading_parse, HR_parse, CodeBlock_parse, Fence_parse, BlockQuote_parse, List_parse, Def_parse,
      NewLine_parse, parse_capture_inline, Escape_parse, TableSeparator_parse, AutoLink_parse,
      MailTo_parse, URL_parse, Link_parse, Image_parse, RefLink_parse, RefImage_parse, Em_parse,
      InlineCode_parse, Br_parse, Text_parse}"
    unfolding default_rules_def mk_rule_def by auto
  then show ?thesis
    using good_Rule_parse good_Heading_parse good_parse_table good_LHeading_parse good_HR_parse
      good_CodeBlock_parse good_Fence_parse good_BlockQuote_parse good_List_parse good_Def_parse
      good_NewLine_parse good_parse_capture_inline good_Escape_parse good_TableSeparator_parse
      good_AutoLink_parse good_MailTo_parse good_URL_parse good_Link_parse good_Image_parse
      good_RefLink_parse good_RefImage_parse good_Em_parse good_InlineCode_parse good_Br_parse
      good_Text_parse
    by auto
qed

lemma default_raw_parse_good: "good_parser (default_raw_parse fuel)"
  unfolding good_parser_def
proof (intro allI impI)
  fix src st res st'
  assume "default_raw_parse fuel src st = Inr (res, st')"
  then obtain rule_list src' where
    "nested_parse default_rules rule_list fuel src' (st\<lparr>previous_capture := None\<rparr>) = Inr (res, st')"
    by (auto simp: default_raw_parse_def parser_for_def outer_parse_def split: sum.splits)
  from good_parserD[OF nested_parse_good[OF default_rules_good] this]
  show "reg_step st st'" by simp
qed

lemma resolved_fresh: "st_defs st = [] \<Longrightarrow> st_refs st = [] \<Longrightarrow> resolved st"
  by (simp add: resolved_def refs_of_def)

text \<open>
  What the registries hold. The node that \<^verbatim>\<open>reflink\<close> or \<^verbatim>\<open>refimage\<close> returns is registered
  under the normalised name of the reference; \<^verbatim>\<open>Def.parse\<close> writes the entry of the
  normalised name of the definition, over the entry of an earlier definition of the name;
  and a parse never removes a registration.
\<close>

lemma reference_is_registered:
  assumes "parse_ref capture st ref_node = Inr (v, st')"
  shows "\<exists>a. v = PRef a \<and>
           a \<in> set (refs_of st' (normalize_ref (or_str (grp_str capture 2) (grp_str capture 1))))"
  using parse_ref_result[OF assms] by (auto simp: refs_of_def map_of_dict_set)

lemma reflink_is_registered:
  assumes "RefLink_parse capture p st = Inr (v, st')"
  shows "\<exists>a. v = PRef a \<and>
           a \<in> set (refs_of st' (normalize_ref (or_str (grp_str capture 2) (grp_str capture 1))))"
proof -
  from assms obtain r s where
    "parse_ref capture s [(''type'', PStr ''link''), (''content'', PList r)] = Inr (v, st')"
    by (auto simp: RefLink_parse_def split: sum.splits)
  then show ?thesis by (rule reference_is_registered)
qed

lemma refimage_is_registered:
  assumes "RefImage_parse capture p st = Inr (v, st')"
  shows "\<exists>a. v = PRef a \<and>
           a \<in> set (refs_of st' (normalize_ref (or_str (grp_str capture 2) (grp_str capture 1))))"
  using assms unfolding RefImage_parse_def by (rule reference_is_registered)

lemma definition_is_recorded:
  assumes "Def_parse capture p st = Inr (d, st')"
  shows "map_of (st_defs st') (normalize_ref (grp_str capture 1)) =
           Some (PDict [(''target'', PStr (grp_str capture 2)), (''title'', opt_str (grp capture 3))])"
  unfolding Def_parse_result[OF assms] by (simp add: map_of_dict_set)

lemma registrations_persist:
  assumes "nested_parse default_rules rule_list fuel source st = Inr (result, st')"
  shows "set (refs_of st name) \<subseteq> set (refs_of st' name)"
  using good_parserD[OF nested_parse_good[OF default_rules_good] assms]
  by (simp add: reg_step_def)

lemma resolved_is_kept:
  assumes "nested_parse default_rules rule_list fuel source st = Inr (result, st')" and "resolved st"
  shows "resolved st'"
  using good_parserD[OF nested_parse_good[OF default_rules_good] assms(1)] assms(2)
  by (simp add: reg_step_def)

text \<open>
  Claim C6, as amended. After a parse of any source by the default rules that starts
  with empty registries (as every parse from the state \<^verbatim>\<open>{}\<close> does, in block mode, in
  inline mode and in the mode chosen from the source), every reference node registered
  under a name that has an entry in \<^verbatim>\<open>state['_defs']\<close> has the target and the title of that
  entry, whether the reference was parsed before or after the definition that wrote it.
\<close>

theorem references_resolved_after_parse:
  assumes "default_raw_parse fuel source state = Inr (result, st)"
    and "st_defs state = []" and "st_refs state = []"
    and "map_of (st_defs st) name = Some d"
    and "a \<in> set (refs_of st name)"
  shows "\<exists>target title. d = PDict [(''target'', target), (''title'', title)] \<and>
           node_get st (PRef a) ''target'' = Some target \<and>
           node_get st (PRef a) ''title'' = Some title"
proof -
  from good_parserD[OF default_raw_parse_good assms(1)] resolved_fresh[OF assms(2,3)]
  have "resolved st" by (simp add: reg_step_def)
  from resolvedD3[OF this assms(4)] assms(5) show ?thesis by blast
qed

text \<open>
  The reference \<^verbatim>\<open>[a][X]\<close> followed by the definition \<^verbatim>\<open>[x]: u\<close>: the paragraph holds the
  link node, which lives at address 0 of the heap and is registered under \<^verbatim>\<open>x\<close>.
\<close>

lemma reference_then_definition_parse:
  "default_raw_parse 10 (''[a][X]'' @ [NL, NL] @ ''[x]: u'' @ [NL]) empty_state =
     Inr ([PDict [(''content'', PList [PRef 0]), (''type'', PStr ''paragraph'')],
           PDict [(''def'', PStr ''x''), (''target'', PStr ''u''), (''title'', PNone), (''type'', PStr ''def'')]],
          \<lparr>inline = False, st_list = False, in_table = False, disable_auto_block_newlines = False,
             previous_capture = Some \<lparr>whole = ''[x]: u'' @ [NL, NL, NL], cgroups = [(2, ''u''), (1, ''x'')]\<rparr>,
             st_defs = [(''x'', PDict [(''target'', PStr ''u''), (''title'', PNone)])],
             st_refs = [(''x'', [0])],
             heap = [PDict [(''type'', PStr ''link''),
                            (''content'', PList [PDict [(''content'', PStr ''a''), (''type'', PStr ''text'')]]),
                            (''target'', PStr ''u''), (''title'', PNone)]]\<rparr>)"
  by code_simp

theorem references_resolved_after_parse_witness:
  "node_get
     \<lparr>inline = False, st_list = False, in_table = False, disable_auto_block_newlines = False,
        previous_capture = Some \<lparr>whole = ''[x]: u'' @ [NL, NL, NL], cgroups = [(2, ''u''), (1, ''x'')]\<rparr>,
        st_defs = [(''x'', PDict [(''target'', PStr ''u''), (''title'', PNone)])],
        st_refs = [(''x'', [0])],
        heap = [PDict [(''type'', PStr ''link''),
                       (''content'', PList [PDict [(''content'', PStr ''a''), (''type'', PStr ''text'')]]),
                       (''target'', PStr ''u''), (''title'', PNone)]]\<rparr>
     (PRef 0) ''target'' = Some (PStr ''u'') \<and>
   node_get
     \<lparr>inline = False, st_list = False, in_table = False, disable_auto_block_newlines = False,
        previous_capture = Some \<lparr>whole = ''[x]: u'' @ [NL, NL, NL], cgroups = [(2, ''u''), (1, ''x'')]\<rparr>,
        st_defs = [(''x'', PDict [(''target'', PStr ''u''), (''title'', PNone)])],
        st_refs = [(''x'', [0])],
        heap = [PDict [(''type'', PStr ''link''),
                       (''content'', PList [PDict [(''content'', PStr ''a''), (''type'', PStr ''text'')]]),
                       (''target'', PStr ''u''), (''title'', PNone)]]\<rparr>
     (PRef 0) ''title'' = Some PNone"
proof -
  let ?st = "\<lparr>inline = False, st_list = False, in_table = False, disable_auto_block_newlines = False,
        previous_capture = Some \<lparr>whole = ''[x]: u'' @ [NL, NL, NL], cgroups = [(2, ''u''), (1, ''x'')]\<rparr>,
        st_defs = [(''x'', PDict [(''target'', PStr ''u''), (''title'', PNone)])],
        st_refs = [(''x'', [0])],
        heap = [PDict [(''type'', PStr ''link''),
                       (''content'', PList [PDict [(''content'', PStr ''a''), (''type'', PStr ''text'')]]),
                       (''target'', PStr ''u''), (''title'', PNone)]]\<rparr>"
  have 2: "st_defs empty_state = []" and 3: "st_refs empty_state = []"
    by (simp_all add: empty_state_def)
  have 4: "map_of (st_defs ?st) ''x'' = Some (PDict [(''target'', PStr ''u''), (''title'', PNone)])"
    by simp
  have 5: "0 \<in> set (refs_of ?st ''x'')"
    by (simp add: refs_of_def)
  from references_resolved_after_parse[OF reference_then_definition_parse 2 3 4 5]
  show ?thesis by simp
qed

text \<open>
  Claim C6, as stated, fails when a second definition of the name follows: in the source
  \<^verbatim>\<open>[a][x]\<close>, blank line, \<^verbatim>\<open>[x]: u\<close>, blank line, \<^verbatim>\<open>[x]: v\<close> the definition \<^verbatim>\<open>[x]: u\<close> comes
  after the reference and is parsed into a \<^verbatim>\<open>def\<close> node with the target \<^verbatim>\<open>u\<close>, but the link
  node ends up with the target \<^verbatim>\<open>v\<close>, which is also what the rendered HTML has.
\<close>

theorem later_definition_overwrites_target:
  "parsed_tree (default_block_parse 10 (''[a][x]'' @ [NL, NL] @ ''[x]: u'' @ [NL, NL] @ ''[x]: v'' @ [NL])
      empty_state) =
     Inr [PDict [(''content'',
                  PList [PDict [(''type'', PStr ''link''),
                                (''content'', PList [PDict [(''content'', PStr ''a''), (''type'', PStr ''text'')]]),
                                (''target'', PStr ''v''), (''title'', PNone)]]),
                 (''type'', PStr ''paragraph'')],
          PDict [(''def'', PStr ''x''), (''target'', PStr ''u''), (''title'', PNone), (''type'', PStr ''def'')],
          PDict [(''def'', PStr ''x''), (''target'', PStr ''v''), (''title'', PNone), (''type'', PStr ''def'')]] \<and>
   markdown_to_html 10 (''[a][x]'' @ [NL, NL] @ ''[x]: u'' @ [NL, NL] @ ''[x]: v'' @ [NL]) empty_state =
     Inr (''<div class='' @ [DQ] @ ''paragraph'' @ [DQ] @ ''><a href='' @ [DQ] @ ''v'' @ [DQ] @ ''>a</a></div>'')"
  by code_simp

text \<open>
  With a single definition after the reference the link node gets its target, as the claim
  says; a definition on the line right after the reference, with no blank line between, is
  part of the paragraph and leaves the link node without a target.
\<close>

lemma single_definition_example:
  "parsed_tree (default_block_parse 10 (''[a][x]'' @ [NL, NL] @ ''[x]: u'' @ [NL]) empty_state) =
     Inr [PDict [(''content'',
                  PList [PDict [(''type'', PStr ''link''),
                                (''content'', PList [PDict [(''content'', PStr ''a''), (''type'', PStr ''text'')]]),
                                (''target'', PStr ''u''), (''title'', PNone)]]),
                 (''type'', PStr ''paragraph'')],
          PDict [(''def'', PStr ''x''), (''target'', PStr ''u''), (''title'', PNone), (''type'', PStr ''def'')]]"
  by code_simp

lemma definition_inside_paragraph_example:
  "parsed_tree (default_block_parse 10 (''[a][x]'' @ [NL] @ ''[x]: u'' @ [NL]) empty_state) =
     Inr [PDict [(''content'',
                  PList [PDict [(''type'', PStr ''link''),
                                (''content'', PList [PDict [(''content'', PStr ''a''), (''type'', PStr ''text'')]])],
                         PDict [(''content'', PStr [NL]), (''type'', PStr ''text'')],
                         PDict [(''content'', PStr ''[x''), (''type'', PStr ''text'')],
                         PDict [(''content'', PStr '']''), (''type'', PStr ''text'')],
                         PDict [(''content'', PStr '': u''), (''type'', PStr ''text'')]]),
                 (''type'', PStr ''paragraph'')]]"
  by code_simp


end
